theory Spec2Isabelle
  imports Complex_Main
begin

section \<open>Conventions of the embedding\<close>

text \<open>
  The development embeds the import hook \<^verbatim>\<open>src/PPTist/src/hooks/useImport.ts\<close>.

  \<^item> A JavaScript \<^verbatim>\<open>number\<close> is a \<^typ>\<open>real\<close>: arithmetic is exact, and NaN,
    the infinities and rounding of IEEE doubles are outside the model. Where a
    property turns on the rounding, the rounding of every operation is written out:
    the rotation of a line is given a second time in that way, and the translator of
    tables takes the arithmetic as a parameter. On a number
    \<^verbatim>\<open>x || 0\<close> is \<open>x\<close> itself, so the guards \<^verbatim>\<open>(el.top || 0)\<close> of the source are
    written as the plain field.
  \<^item> A JavaScript string is a \<^typ>\<open>string\<close> of bytes (UTF-8). The characters the
    patterns of the source name are ASCII, and so is the case folding; the class
    \<^verbatim>\<open>\s\<close> is the whole class of JavaScript, read in its encoding.
  \<^item> \<^verbatim>\<open>nanoid(10)\<close> draws from an explicit supply: a counter that every call advances.
  \<^item> An object mutated in place is a value passed in and returned updated; elements
    of a slide are addressed by their index in \<^verbatim>\<open>slide.elements\<close>, which is what the
    reference comparisons of the source (\<^verbatim>\<open>s.el !== titleEl\<close>) decide.
    Where a property is about which objects are written to, the objects are cells of
    an explicit heap (slides as objects), or the function returns the array it was
    given as the call leaves it (\<^verbatim>\<open>parseElements\<close>).
\<close>

datatype ident = Ident nat

definition nanoid :: "nat \<Rightarrow> ident \<times> nat" where
  "nanoid supply = (Ident supply, Suc supply)"

subsection \<open>Strings\<close>

fun startsWith :: "string \<Rightarrow> string \<Rightarrow> bool" where
  "startsWith s [] = True"
| "startsWith [] (k # ks) = False"
| "startsWith (c # cs) (k # ks) = (c = k \<and> startsWith cs ks)"

text \<open>\<^verbatim>\<open>s.includes(k)\<close>, and \<^verbatim>\<open>/k/.test(s)\<close> for a pattern \<open>k\<close> of literal characters.\<close>

fun includesStr :: "string \<Rightarrow> string \<Rightarrow> bool" where
  "includesStr [] k = (k = [])"
| "includesStr (c # cs) k = (startsWith (c # cs) k \<or> includesStr cs k)"

subsection \<open>Numbers\<close>

text \<open>\<^verbatim>\<open>+x.toFixed(2)\<close>: the nearest multiple of 1/100, a tie going away from zero.\<close>

definition toFixed2 :: "real \<Rightarrow> real" where
  "toFixed2 x =
     (if x < 0 then - (of_int \<lfloor>- x * 100 + 1 / 2\<rfloor> / 100)
      else of_int \<lfloor>x * 100 + 1 / 2\<rfloor> / 100)"

text \<open>
  \<^verbatim>\<open>xs.sort(cmp)\<close> for a comparator returning a number: the sort of JavaScript is
  stable, and so is this insertion sort (an element goes before the first one of the
  sorted rest that it does not follow).
\<close>

fun insertBy :: "('a \<Rightarrow> 'a \<Rightarrow> real) \<Rightarrow> 'a \<Rightarrow> 'a list \<Rightarrow> 'a list" where
  "insertBy cmp x [] = [x]"
| "insertBy cmp x (y # ys) = (if cmp x y \<le> 0 then x # y # ys else y # insertBy cmp x ys)"

definition sortBy :: "('a \<Rightarrow> 'a \<Rightarrow> real) \<Rightarrow> 'a list \<Rightarrow> 'a list" where
  "sortBy cmp xs = foldr (insertBy cmp) xs []"

text \<open>\<^verbatim>\<open>d1 || d2\<close> on two differences: the first one unless it is zero.\<close>

definition orElse :: "real \<Rightarrow> real \<Rightarrow> real" where
  "orElse d1 d2 = (if d1 \<noteq> 0 then d1 else d2)"

subsection \<open>Characters and regular expressions\<close>

text \<open>
  The class \<^verbatim>\<open>\s\<close>, which is also the white space that \<^verbatim>\<open>trim()\<close> and \<^verbatim>\<open>parseInt\<close>
  skip: the space, TAB, LF, VT, FF and CR of ASCII (\<open>isSpace\<close>), and the code points
  U+00A0, U+1680, U+2000 to U+200A, U+2028, U+2029, U+202F, U+205F, U+3000 and U+FEFF,
  which are two or three bytes of the string each (\<open>wideSpaces\<close>; every one of them
  starts with a byte that starts no other character of the class). \<open>spaceLen s\<close> is
  the number of bytes of the white-space character at the head of \<open>s\<close>, and 0 when
  \<open>s\<close> starts with none.
\<close>

definition isSpace :: "char \<Rightarrow> bool" where
  "isSpace c = (c \<in> set [CHR '' '', CHR 0x09, CHR 0x0A, CHR 0x0B, CHR 0x0C, CHR 0x0D])"

definition wideSpaces :: "string list" where
  "wideSpaces =
     [[CHR 0xC2, CHR 0xA0], [CHR 0xE1, CHR 0x9A, CHR 0x80],
      [CHR 0xE2, CHR 0x80, CHR 0x80], [CHR 0xE2, CHR 0x80, CHR 0x81], [CHR 0xE2, CHR 0x80, CHR 0x82],
      [CHR 0xE2, CHR 0x80, CHR 0x83], [CHR 0xE2, CHR 0x80, CHR 0x84], [CHR 0xE2, CHR 0x80, CHR 0x85],
      [CHR 0xE2, CHR 0x80, CHR 0x86], [CHR 0xE2, CHR 0x80, CHR 0x87], [CHR 0xE2, CHR 0x80, CHR 0x88],
      [CHR 0xE2, CHR 0x80, CHR 0x89], [CHR 0xE2, CHR 0x80, CHR 0x8A],
      [CHR 0xE2, CHR 0x80, CHR 0xA8], [CHR 0xE2, CHR 0x80, CHR 0xA9], [CHR 0xE2, CHR 0x80, CHR 0xAF],
      [CHR 0xE2, CHR 0x81, CHR 0x9F], [CHR 0xE3, CHR 0x80, CHR 0x80], [CHR 0xEF, CHR 0xBB, CHR 0xBF]]"

definition spaceLen :: "string \<Rightarrow> nat" where
  "spaceLen s =
     (case s of
        [] \<Rightarrow> 0
      | c # cs \<Rightarrow>
          if isSpace c then 1
          else if c \<in> set [CHR 0xC2, CHR 0xE1, CHR 0xE2, CHR 0xE3, CHR 0xEF]
          then (case find (startsWith s) wideSpaces of Some k \<Rightarrow> length k | None \<Rightarrow> 0)
          else 0)"

text \<open>The input after the white space at its head (\<^verbatim>\<open>\s*\<close>, which is greedy). The first
  argument counts the bytes of a white-space character that are still to be skipped.\<close>

fun skipSpacesFrom :: "nat \<Rightarrow> string \<Rightarrow> string" where
  "skipSpacesFrom k [] = []"
| "skipSpacesFrom (Suc k) (c # cs) = skipSpacesFrom k cs"
| "skipSpacesFrom 0 (c # cs) =
     (case spaceLen (c # cs) of 0 \<Rightarrow> c # cs | Suc k \<Rightarrow> skipSpacesFrom k cs)"

definition skipSpaces :: "string \<Rightarrow> string" where
  "skipSpaces s = skipSpacesFrom 0 s"

definition isDigit :: "char \<Rightarrow> bool" where
  "isDigit c = (c \<in> set ''0123456789'')"

definition digitVal :: "char \<Rightarrow> nat" where
  "digitVal c = (case map_of (zip ''0123456789'' [0, 1, 2, 3, 4, 5, 6, 7, 8, 9]) c of
                   Some d \<Rightarrow> d | None \<Rightarrow> 0)"

definition digitsToNat :: "string \<Rightarrow> nat" where
  "digitsToNat ds = foldl (\<lambda>a c. a * 10 + digitVal c) 0 ds"

definition toLowerChar :: "char \<Rightarrow> char" where
  "toLowerChar c =
     (case map_of (zip ''ABCDEFGHIJKLMNOPQRSTUVWXYZ'' ''abcdefghijklmnopqrstuvwxyz'') c of
        Some l \<Rightarrow> l | None \<Rightarrow> c)"

definition toLowerCase :: "string \<Rightarrow> string" where
  "toLowerCase s = map toLowerChar s"

text \<open>The class \<^verbatim>\<open>\w\<close>, which decides the word boundary \<^verbatim>\<open>\b\<close>.\<close>

definition isWordChar :: "char \<Rightarrow> bool" where
  "isWordChar c = (isDigit c \<or> c = CHR ''_'' \<or> toLowerChar c \<in> set ''abcdefghijklmnopqrstuvwxyz'')"

text \<open>\<^verbatim>\<open>s.trim()\<close>: the white space at the head is skipped, and the string ends where
  nothing but white space follows.\<close>

fun trimEnd :: "string \<Rightarrow> string" where
  "trimEnd [] = []"
| "trimEnd (c # cs) = (if skipSpaces (c # cs) = [] then [] else c # trimEnd cs)"

definition trim :: "string \<Rightarrow> string" where
  "trim s = trimEnd (skipSpaces s)"

text \<open>A literal pattern matched at the head of the input without regard to case
  (the pattern is given in lower case); the result is the input after the match.\<close>

fun matchLiteralCI :: "string \<Rightarrow> string \<Rightarrow> string option" where
  "matchLiteralCI [] s = Some s"
| "matchLiteralCI (k # ks) [] = None"
| "matchLiteralCI (k # ks) (c # cs) = (if toLowerChar c = k then matchLiteralCI ks cs else None)"

text \<open>\<^verbatim>\<open>/<br\s*\/?\s*>/i\<close> at the head of the input: the input after the match.\<close>

definition matchBr :: "string \<Rightarrow> string option" where
  "matchBr s =
     (case matchLiteralCI ''<br'' s of
        None \<Rightarrow> None
      | Some r \<Rightarrow>
          (let r1 = skipSpaces r;
               r2 = (case r1 of [] \<Rightarrow> r1 | c # r' \<Rightarrow> if c = CHR ''/'' then r' else r1);
               r3 = skipSpaces r2
           in case r3 of [] \<Rightarrow> None | c # r4 \<Rightarrow> if c = CHR ''>'' then Some r4 else None))"

text \<open>\<^verbatim>\<open>.replace(/<br\s*\/?\s*>/gi, '\n')\<close>. The first argument counts the characters
  of a match that are still to be skipped.\<close>

fun replaceBr :: "nat \<Rightarrow> string \<Rightarrow> string" where
  "replaceBr k [] = []"
| "replaceBr (Suc k) (c # cs) = replaceBr k cs"
| "replaceBr 0 (c # cs) =
     (case matchBr (c # cs) of
        Some r \<Rightarrow> CHR 0x0A # replaceBr (length cs - length r) cs
      | None \<Rightarrow> c # replaceBr 0 cs)"

text \<open>\<^verbatim>\<open>.replace(/<[^>]*>/g, '')\<close>. The flag says that the scan is inside a tag.\<close>

fun stripTags :: "bool \<Rightarrow> string \<Rightarrow> string" where
  "stripTags inTag [] = []"
| "stripTags True (c # cs) = (if c = CHR ''>'' then stripTags False cs else stripTags True cs)"
| "stripTags False (c # cs) =
     (if c = CHR ''<'' \<and> CHR ''>'' \<in> set cs then stripTags True cs else c # stripTags False cs)"

text \<open>\<^verbatim>\<open>.replace(/\s+/g, ' ')\<close>. The number counts the bytes of a white-space character
  that are still to be skipped; the flag says that the previous character was a space
  of the same run.\<close>

fun collapseSpaces :: "nat \<Rightarrow> bool \<Rightarrow> string \<Rightarrow> string" where
  "collapseSpaces k inRun [] = []"
| "collapseSpaces (Suc k) inRun (c # cs) = collapseSpaces k inRun cs"
| "collapseSpaces 0 inRun (c # cs) =
     (case spaceLen (c # cs) of
        0 \<Rightarrow> c # collapseSpaces 0 False cs
      | Suc k \<Rightarrow> (if inRun then collapseSpaces k True cs else CHR '' '' # collapseSpaces k True cs))"

definition htmlToPlainText :: "string \<Rightarrow> string" where
  "htmlToPlainText html = trim (collapseSpaces 0 False (stripTags False (replaceBr 0 html)))"

text \<open>\<^verbatim>\<open>/font-size:\s*(\d+(?:\.\d+)?)\s*px/i\<close> at the head of the input: the number captured
  (read by \<^verbatim>\<open>parseFloat\<close>) and the input after the match. The repetitions are greedy and
  no shorter repetition can let the rest of the pattern match, so there is nothing to
  backtrack.\<close>

definition matchFontSize :: "string \<Rightarrow> (real \<times> string) option" where
  "matchFontSize s =
     (case matchLiteralCI ''font-size:'' s of
        None \<Rightarrow> None
      | Some r \<Rightarrow>
          (let r1 = skipSpaces r;
               intDigits = takeWhile isDigit r1;
               r2 = dropWhile isDigit r1;
               fracDigits = (case r2 of [] \<Rightarrow> [] | c # r' \<Rightarrow> if c = CHR ''.'' then takeWhile isDigit r' else []);
               r3 = (if fracDigits = [] then r2 else dropWhile isDigit (tl r2));
               val = real (digitsToNat intDigits) + real (digitsToNat fracDigits) / 10 ^ length fracDigits
           in if intDigits = [] then None
              else (case matchLiteralCI ''px'' (skipSpaces r3) of
                      None \<Rightarrow> None
                    | Some r4 \<Rightarrow> Some (val, r4))))"

text \<open>The loop of \<^verbatim>\<open>regex.exec\<close> in \<^verbatim>\<open>getMaxFontSizePx\<close>: the running maximum over the
  successive matches, each search starting where the previous match ended.\<close>

fun scanFontSizes :: "nat \<Rightarrow> string \<Rightarrow> real \<Rightarrow> real" where
  "scanFontSizes k [] m = m"
| "scanFontSizes (Suc k) (c # cs) m = scanFontSizes k cs m"
| "scanFontSizes 0 (c # cs) m =
     (case matchFontSize (c # cs) of
        Some (v, r) \<Rightarrow> scanFontSizes (length cs - length r) cs (max m v)
      | None \<Rightarrow> scanFontSizes 0 cs m)"

definition getMaxFontSizePx :: "string \<Rightarrow> real" where
  "getMaxFontSizePx html = (let m = scanFontSizes 0 html 0 in if m = 0 then 16 else m)"

text \<open>\<^verbatim>\<open>/(https?:\/\/|www\.|\.(com|cn|net|org)\b)/i.test(t)\<close>.\<close>

fun hasDomainSuffix :: "string \<Rightarrow> bool" where
  "hasDomainSuffix [] = False"
| "hasDomainSuffix (c # cs) =
     ((c = CHR ''.'' \<and>
       (\<exists>tld \<in> set [''com'', ''cn'', ''net'', ''org''].
          case matchLiteralCI tld cs of
            None \<Rightarrow> False
          | Some r \<Rightarrow> (case r of [] \<Rightarrow> True | d # _ \<Rightarrow> \<not> isWordChar d)))
      \<or> hasDomainSuffix cs)"

definition looksLikeUrl :: "string \<Rightarrow> bool" where
  "looksLikeUrl t =
     (includesStr (toLowerCase t) ''http://'' \<or> includesStr (toLowerCase t) ''https://''
      \<or> includesStr (toLowerCase t) ''www.'' \<or> hasDomainSuffix t)"

text \<open>\<^verbatim>\<open>/^\d+\.?$/.test(plain)\<close>.\<close>

definition isNumberText :: "string \<Rightarrow> bool" where
  "isNumberText plain =
     (takeWhile isDigit plain \<noteq> [] \<and>
      (dropWhile isDigit plain = [] \<or> dropWhile isDigit plain = ''.''))"

text \<open>A natural number in decimal, as a template literal prints it.\<close>

fun showNat :: "nat \<Rightarrow> string" where
  "showNat n =
     (if n < 10 then [''0123456789'' ! n] else showNat (n div 10) @ [''0123456789'' ! (n mod 10)])"

definition joinStr :: "string \<Rightarrow> string list \<Rightarrow> string" where
  "joinStr sep xs = (case xs of [] \<Rightarrow> [] | y # ys \<Rightarrow> foldl (\<lambda>acc s. acc @ sep @ s) y ys)"


section \<open>Parsed source elements\<close>

text \<open>
  The geometry every element of the parsed document has (\<^verbatim>\<open>BaseElement\<close> of the
  parser's types), and the further fields of a parsed \<^verbatim>\<open>Shape\<close> that the line
  translator reads. Field names carry the prefix \<open>src\<close> where the translated elements
  have a field of the same name.
\<close>

record BaseElement =
  src_left :: real
  src_top :: real
  src_width :: real
  src_height :: real
  src_order :: real

record Shape = BaseElement +
  src_rotate :: real
  isFlipV :: bool
  isFlipH :: bool
  borderWidth :: real
  borderType :: string
  borderColor :: string
  shapType :: string

section \<open>Lines and connectors\<close>

type_synonym point = "real \<times> real"

record PPTLineElement =
  line_id :: ident
  line_width :: real
  line_left :: real
  line_top :: real
  line_start :: point
  line_end :: point
  line_style :: string
  line_color :: string
  line_points :: "string \<times> string"
  line_broken2 :: "point option"
  line_cubic :: "(point \<times> point) option"

text \<open>The value \<^verbatim>\<open>rotateLine\<close> returns; of its argument it reads the two endpoints. The
  function is given twice: first in exact arithmetic, then (\<open>rotateLineRounded\<close>) with
  the rounding of each operation written out, of which the first is the instance that
  does not round.\<close>

record RotatedLine =
  rot_start :: point
  rot_end :: point
  rot_offset :: point

definition rotateLine :: "point \<Rightarrow> point \<Rightarrow> real \<Rightarrow> RotatedLine" where
  "rotateLine start end angleDeg =
     (let angleRad = angleDeg * pi / 180;
          midX = (fst start + fst end) / 2;
          midY = (snd start + snd end) / 2;
          startTransX = fst start - midX;
          startTransY = snd start - midY;
          endTransX = fst end - midX;
          endTransY = snd end - midY;
          cosA = cos angleRad;
          sinA = sin angleRad;
          startRotX = startTransX * cosA - startTransY * sinA;
          startRotY = startTransX * sinA + startTransY * cosA;
          endRotX = endTransX * cosA - endTransY * sinA;
          endRotY = endTransX * sinA + endTransY * cosA;
          startNewX = startRotX + midX;
          startNewY = startRotY + midY;
          endNewX = endRotX + midX;
          endNewY = endRotY + midY;
          beforeMinX = min (fst start) (fst end);
          beforeMinY = min (snd start) (snd end);
          afterMinX = min startNewX endNewX;
          afterMinY = min startNewY endNewY
      in \<lparr>rot_start = (startNewX - afterMinX, startNewY - afterMinY),
          rot_end = (endNewX - afterMinX, endNewY - afterMinY),
          rot_offset = (afterMinX - beforeMinX, afterMinY - beforeMinY)\<rparr>)"

text \<open>
  The arithmetic of doubles: \<open>rnd\<close> takes the exact result of an operation to the
  double that the operation returns, \<open>cosF\<close> and \<open>sinF\<close> are \<^verbatim>\<open>Math.cos\<close> and
  \<^verbatim>\<open>Math.sin\<close>, and \<open>piF\<close> is \<^verbatim>\<open>Math.PI\<close>. \<open>exactArith\<close> is the arithmetic that
  does not round.
\<close>

record Arith =
  rnd :: "real \<Rightarrow> real"
  cosF :: "real \<Rightarrow> real"
  sinF :: "real \<Rightarrow> real"
  piF :: real

definition exactArith :: Arith where
  "exactArith = \<lparr>rnd = (\<lambda>x. x), cosF = cos, sinF = sin, piF = pi\<rparr>"


text \<open>
  \<^verbatim>\<open>parseLineElement\<close>. The element it receives has been scaled already (its width and
  height are the scaled ones); \<^verbatim>\<open>el.rotate\<close> is tested for being non-zero, and
  \<^verbatim>\<open>el.borderWidth || 1\<close> replaces a zero width by 1. \<open>flipEndpoints\<close> is the chain
  of tests on the two flip flags that opens the function.
\<close>

definition flipEndpoints :: "'a Shape_scheme \<Rightarrow> point \<times> point" where
  "flipEndpoints el =
     (if \<not> isFlipV el \<and> \<not> isFlipH el then ((0, 0), (src_width el, src_height el))
      else if isFlipV el \<and> isFlipH el then ((src_width el, src_height el), (0, 0))
      else if isFlipV el \<and> \<not> isFlipH el then ((0, src_height el), (src_width el, 0))
      else ((src_width el, 0), (0, src_height el)))"

text \<open>The three conditional blocks that close \<^verbatim>\<open>parseLineElement\<close>, each on the line
  built so far: the rotation, the bend of a bent connector, the curve of a curved one.\<close>

definition rotateLineData :: "'a Shape_scheme \<Rightarrow> PPTLineElement \<Rightarrow> PPTLineElement" where
  "rotateLineData el data =
     (if src_rotate el \<noteq> 0
      then (let r = rotateLine (line_start data) (line_end data) (src_rotate el)
            in data\<lparr>line_start := rot_start r,
                    line_end := rot_end r,
                    line_left := line_left data + fst (rot_offset r),
                    line_top := line_top data + snd (rot_offset r)\<rparr>)
      else data)"

definition bendLineData :: "'a Shape_scheme \<Rightarrow> PPTLineElement \<Rightarrow> PPTLineElement" where
  "bendLineData el data =
     (if includesStr (shapType el) ''bentConnector''
      then data\<lparr>line_broken2 :=
             Some (\<bar>fst (line_start data) - fst (line_end data)\<bar> / 2,
                   \<bar>snd (line_start data) - snd (line_end data)\<bar> / 2)\<rparr>
      else data)"

definition curveLineData :: "'a Shape_scheme \<Rightarrow> PPTLineElement \<Rightarrow> PPTLineElement" where
  "curveLineData el data =
     (if includesStr (shapType el) ''curvedConnector''
      then (let cubic = (\<bar>fst (line_start data) - fst (line_end data)\<bar> / 2,
                         \<bar>snd (line_start data) - snd (line_end data)\<bar> / 2)
            in data\<lparr>line_cubic := Some (cubic, cubic)\<rparr>)
      else data)"

definition parseLineElement :: "'a Shape_scheme \<Rightarrow> real \<Rightarrow> nat \<Rightarrow> PPTLineElement \<times> nat" where
  "parseLineElement el ratio supply =
     (let (start, end) = flipEndpoints el;
          (newId, supply1) = nanoid supply;
          data = \<lparr>line_id = newId,
                  line_width = toFixed2 ((if borderWidth el = 0 then 1 else borderWidth el) * ratio),
                  line_left = src_left el,
                  line_top = src_top el,
                  line_start = start,
                  line_end = end,
                  line_style = borderType el,
                  line_color = borderColor el,
                  line_points = ('''', if includesStr (shapType el) ''straightConnector'' then ''arrow'' else ''''),
                  line_broken2 = None,
                  line_cubic = None\<rparr>
      in (curveLineData el (bendLineData el (rotateLineData el data)), supply1))"

section \<open>Translated elements and slides\<close>

datatype TextType = TTitle | TContent | TItem | TItemTitle | TItemNumber | TPartNumber

datatype SlideType = SCover | SContents | STransition | SContent | SEnd

record Outline =
  outline_color :: string
  outline_width :: real
  outline_style :: string

record Shadow =
  shadow_h :: real
  shadow_v :: real
  shadow_blur :: real
  shadow_color :: string

record PPTTextElement =
  text_id :: ident
  text_left :: real
  text_top :: real
  text_width :: real
  text_height :: real
  text_rotate :: real
  text_defaultFontName :: string
  text_defaultColor :: string
  text_content :: string
  text_lineHeight :: real
  text_outline :: "Outline option"
  text_fill :: "string option"
  text_vertical :: "bool option"
  text_shadow :: "Shadow option"
  text_textType :: "TextType option"
  text_groupId :: "ident option"

text \<open>The text a shape carries; its tag is the field \<^verbatim>\<open>type\<close>.\<close>

record ShapeText =
  st_content :: string
  st_defaultFontName :: string
  st_defaultColor :: string
  st_align :: string
  st_lineHeight :: "real option"
  st_type :: "TextType option"

record PPTShapeElement =
  shape_id :: ident
  shape_left :: real
  shape_top :: real
  shape_width :: real
  shape_height :: real
  shape_rotate :: real
  shape_viewBox :: "real \<times> real"
  shape_path :: string
  shape_fill :: string
  shape_fixedRatio :: bool
  shape_outline :: Outline
  shape_text :: "ShapeText option"
  shape_flipH :: "bool option"
  shape_flipV :: "bool option"
  shape_shadow :: "Shadow option"

record TableCellStyle =
  style_fontname :: string
  style_color :: "string option"
  style_align :: string
  style_fontsize :: string
  style_bold :: "bool option"
  style_backcolor :: "string option"

record TableCell =
  cell_id :: ident
  cell_colspan :: int
  cell_rowspan :: int
  cell_text :: string
  cell_style :: TableCellStyle

record PPTTableElement =
  table_id :: ident
  table_left :: real
  table_top :: real
  table_width :: real
  table_height :: real
  table_rotate :: real
  table_colWidths :: "real list"
  table_data :: "TableCell list list"
  table_outline :: Outline
  table_cellMinHeight :: real

text \<open>The remaining kinds: no function of this development reads more of them than their
  kind and geometry.\<close>

datatype OtherKind = KImage | KChart | KLatex | KVideo | KAudio

record PPTOtherElement =
  other_kind :: OtherKind
  other_id :: ident
  other_left :: real
  other_top :: real
  other_width :: real
  other_height :: real

datatype PPTElement =
    TextEl PPTTextElement
  | ShapeEl PPTShapeElement
  | LineEl PPTLineElement
  | TableEl PPTTableElement
  | OtherEl PPTOtherElement

text \<open>The background of a slide: a colour; an image and its size; or a gradient with its
  type, its stops (position and colour; a position that \<^verbatim>\<open>parseInt\<close> does not read is
  \<open>None\<close>) and its rotation.\<close>

datatype SlideBackground =
    SolidBackground string
  | ImageBackground string string
  | GradientBackground string "(int option \<times> string) list" real

record Slide =
  slide_id :: ident
  elements :: "PPTElement list"
  background :: "SlideBackground option"
  remark :: "string option"
  slide_type :: "SlideType option"

text \<open>\<^verbatim>\<open>(el as any).left || 0\<close> and its like: the field, and 0 where the kind has none
  (a line has no height; its \<^verbatim>\<open>width\<close> is the width of the stroke).\<close>

fun elLeft :: "PPTElement \<Rightarrow> real" where
  "elLeft (TextEl t) = text_left t"
| "elLeft (ShapeEl s) = shape_left s"
| "elLeft (LineEl l) = line_left l"
| "elLeft (TableEl t) = table_left t"
| "elLeft (OtherEl e) = other_left e"

fun elTop :: "PPTElement \<Rightarrow> real" where
  "elTop (TextEl t) = text_top t"
| "elTop (ShapeEl s) = shape_top s"
| "elTop (LineEl l) = line_top l"
| "elTop (TableEl t) = table_top t"
| "elTop (OtherEl e) = other_top e"

fun elWidth :: "PPTElement \<Rightarrow> real" where
  "elWidth (TextEl t) = text_width t"
| "elWidth (ShapeEl s) = shape_width s"
| "elWidth (LineEl l) = line_width l"
| "elWidth (TableEl t) = table_width t"
| "elWidth (OtherEl e) = other_width e"

fun elHeight :: "PPTElement \<Rightarrow> real" where
  "elHeight (TextEl t) = text_height t"
| "elHeight (ShapeEl s) = shape_height s"
| "elHeight (LineEl l) = 0"
| "elHeight (TableEl t) = table_height t"
| "elHeight (OtherEl e) = other_height e"

text \<open>What the functions below read of the store: the size of the viewport and the
  font of the theme.\<close>

record Config =
  viewportSize :: real
  viewportRatio :: real
  themeFontName :: string
  themeFontColor :: string

definition slideHeight :: "Config \<Rightarrow> real" where
  "slideHeight cfg = viewportSize cfg * viewportRatio cfg"

section \<open>Reading and tagging text\<close>

fun getHtmlText :: "PPTElement \<Rightarrow> string" where
  "getHtmlText (TextEl t) = text_content t"
| "getHtmlText (ShapeEl s) = (case shape_text s of Some tx \<Rightarrow> st_content tx | None \<Rightarrow> [])"
| "getHtmlText el = []"

fun setTextType :: "PPTElement \<Rightarrow> TextType \<Rightarrow> PPTElement" where
  "setTextType (TextEl t) textType = TextEl (t\<lparr>text_textType := Some textType\<rparr>)"
| "setTextType (ShapeEl s) textType =
     (case shape_text s of
        Some tx \<Rightarrow> ShapeEl (s\<lparr>shape_text := Some (tx\<lparr>st_type := Some textType\<rparr>)\<rparr>)
      | None \<Rightarrow> ShapeEl s)"
| "setTextType el textType = el"

fun clearTextType :: "PPTElement \<Rightarrow> PPTElement" where
  "clearTextType (TextEl t) = TextEl (t\<lparr>text_textType := None\<rparr>)"
| "clearTextType (ShapeEl s) =
     (case shape_text s of
        Some tx \<Rightarrow> ShapeEl (s\<lparr>shape_text := Some (tx\<lparr>st_type := None\<rparr>)\<rparr>)
      | None \<Rightarrow> ShapeEl s)"
| "clearTextType el = el"

text \<open>The test of \<^verbatim>\<open>getTextCandidates\<close>: a text element, or a shape that carries text.\<close>

fun isTextCandidate :: "PPTElement \<Rightarrow> bool" where
  "isTextCandidate (TextEl t) = True"
| "isTextCandidate (ShapeEl s) = (shape_text s \<noteq> None)"
| "isTextCandidate el = False"

text \<open>The candidates, each with its index in \<^verbatim>\<open>slide.elements\<close>.\<close>

definition getTextCandidates :: "Slide \<Rightarrow> (nat \<times> PPTElement) list" where
  "getTextCandidates slide = filter (\<lambda>(i, el). isTextCandidate el) (enumerate 0 (elements slide))"

text \<open>The test of \<^verbatim>\<open>hasTextType\<close> on one element.\<close>

fun elHasTextType :: "TextType \<Rightarrow> PPTElement \<Rightarrow> bool" where
  "elHasTextType textType (TextEl t) = (text_textType t = Some textType)"
| "elHasTextType textType (ShapeEl s) =
     (case shape_text s of Some tx \<Rightarrow> st_type tx = Some textType | None \<Rightarrow> False)"
| "elHasTextType textType el = False"

definition hasTextType :: "Slide \<Rightarrow> TextType \<Rightarrow> bool" where
  "hasTextType slide textType = list_ex (elHasTextType textType) (elements slide)"

text \<open>\<^verbatim>\<open>findByKeywords\<close>, on items that carry the index of their element: the index of
  the element found.\<close>

definition findByKeywords :: "(nat \<times> PPTElement \<times> string) list \<Rightarrow> string list \<Rightarrow> nat option" where
  "findByKeywords items keywords =
     (if keywords = [] then None
      else (let lowerKeywords = map toLowerCase keywords;
                matched = filter (\<lambda>(i, el, plain).
                            list_ex (\<lambda>k. k \<noteq> [] \<and> includesStr (toLowerCase plain) k) lowerKeywords) items
            in if matched = [] then None
               else (case sortBy (\<lambda>(ia, a, fa) (ib, b, fb). orElse (fb - fa) (elTop a - elTop b))
                            (map (\<lambda>(i, el, plain). (i, el, getMaxFontSizePx (getHtmlText el))) matched) of
                       [] \<Rightarrow> None
                     | (i, el, font) # _ \<Rightarrow> Some i)))"

definition isFooterLikeEl :: "Config \<Rightarrow> PPTElement \<Rightarrow> bool" where
  "isFooterLikeEl cfg el =
     (elTop el \<ge> slideHeight cfg * 0.9 \<and> elHeight el \<le> max 18 (slideHeight cfg * 0.04))"

definition isBrandLikeEl :: "Config \<Rightarrow> string \<Rightarrow> PPTElement \<Rightarrow> bool" where
  "isBrandLikeEl cfg plain el =
     (let t = toLowerCase plain in
      if t = [] then False
      else if looksLikeUrl t then True
      else if includesStr (toLowerCase t) ''officeplus'' then True
      else (let font = getMaxFontSizePx (getHtmlText el);
                inTopRight = (elLeft el \<ge> viewportSize cfg * 0.65 \<and> elTop el \<le> slideHeight cfg * 0.18)
            in inTopRight \<and> font \<le> 22 \<and> elHeight el \<le> slideHeight cfg * 0.08
               \<and> elWidth el \<le> viewportSize cfg * 0.35))"

definition isTooTinyEl :: "Config \<Rightarrow> PPTElement \<Rightarrow> real \<Rightarrow> bool" where
  "isTooTinyEl cfg el font =
     (let w = elWidth el; h = elHeight el; area = w * h;
          slideArea = viewportSize cfg * slideHeight cfg
      in if area \<le> slideArea * 0.004 \<and> font \<le> 12 then True
         else if w \<le> viewportSize cfg * 0.12 \<and> font \<le> 12 then True
         else if h \<le> 10 then True
         else False)"

section \<open>Placeholder synthesis\<close>

text \<open>A decimal number at the head of the input (\<^verbatim>\<open>\d+\<close>) and the input after it.\<close>

definition readDigits :: "string \<Rightarrow> (nat \<times> string) option" where
  "readDigits s =
     (if takeWhile isDigit s = [] then None
      else Some (digitsToNat (takeWhile isDigit s), dropWhile isDigit s))"

definition expectChar :: "char \<Rightarrow> string \<Rightarrow> string option" where
  "expectChar c s = (case s of [] \<Rightarrow> None | d # r \<Rightarrow> if d = c then Some r else None)"

text \<open>\<^verbatim>\<open>c.match(/^rgb\(\s*(\d+)\s*,\s*(\d+)\s*,\s*(\d+)\s*\)$/)\<close>: the three numbers.\<close>

definition matchRgb :: "string \<Rightarrow> (nat \<times> nat \<times> nat) option" where
  "matchRgb c =
     (if \<not> startsWith c ''rgb('' then None
      else Option.bind (readDigits (skipSpaces (drop 4 c))) (\<lambda>(r, s1).
           Option.bind (expectChar CHR '','' (skipSpaces s1)) (\<lambda>s2.
           Option.bind (readDigits (skipSpaces s2)) (\<lambda>(g, s3).
           Option.bind (expectChar CHR '','' (skipSpaces s3)) (\<lambda>s4.
           Option.bind (readDigits (skipSpaces s4)) (\<lambda>(b, s5).
           Option.bind (expectChar CHR '')'' (skipSpaces s5)) (\<lambda>s6.
           if s6 = [] then Some (r, g, b) else None)))))))"

definition normalizePlaceholderFontColor :: "string \<Rightarrow> string" where
  "normalizePlaceholderFontColor color =
     (let c = toLowerCase (trim color) in
      if c = [] then ''#333333''
      else if c = ''#fff'' \<or> c = ''#ffffff'' \<or> c = ''white'' then ''#333333''
      else (case matchRgb c of
              Some (r, g, b) \<Rightarrow> if r \<ge> 245 \<and> g \<ge> 245 \<and> b \<ge> 245 then ''#333333'' else color
            | None \<Rightarrow> color))"

definition makeEmptyContentHtml :: "Config \<Rightarrow> nat \<Rightarrow> string \<Rightarrow> string" where
  "makeEmptyContentHtml cfg fontSize align =
     (let color = normalizePlaceholderFontColor (themeFontColor cfg) in
      ''<p style=\"font-size: '' @ showNat fontSize @ ''px; font-family: '' @ themeFontName cfg
        @ ''; color: '' @ color @ ''; text-align: '' @ align @ '';\">&nbsp;</p>'')"

text \<open>The argument of \<^verbatim>\<open>addTextBox\<close>; every call gives a whole number of pixels as
  the font size.\<close>

record TextBoxConfig =
  box_left :: real
  box_top :: real
  box_width :: real
  box_height :: real
  box_fontSize :: nat
  box_align :: "string option"
  box_textType :: TextType
  box_groupId :: "ident option"

text \<open>The element \<^verbatim>\<open>addTextBox\<close> builds, and \<^verbatim>\<open>addTextBox\<close> itself, which pushes it
  onto the elements of the slide.\<close>

definition newTextBox :: "Config \<Rightarrow> TextBoxConfig \<Rightarrow> ident \<Rightarrow> PPTTextElement" where
  "newTextBox cfg config newId =
     \<lparr>text_id = newId,
      text_left = box_left config,
      text_top = box_top config,
      text_width = box_width config,
      text_height = box_height config,
      text_rotate = 0,
      text_defaultFontName = themeFontName cfg,
      text_defaultColor = themeFontColor cfg,
      text_content = makeEmptyContentHtml cfg (box_fontSize config)
                       (case box_align config of Some a \<Rightarrow> a | None \<Rightarrow> ''left''),
      text_lineHeight = 1.2,
      text_outline = None,
      text_fill = None,
      text_vertical = None,
      text_shadow = None,
      text_textType = Some (box_textType config),
      text_groupId = box_groupId config\<rparr>"

definition addTextBox :: "Config \<Rightarrow> Slide \<Rightarrow> TextBoxConfig \<Rightarrow> nat \<Rightarrow> Slide \<times> nat" where
  "addTextBox cfg slide config supply =
     (let (newId, supply1) = nanoid supply
      in (slide\<lparr>elements := elements slide @ [TextEl (newTextBox cfg config newId)]\<rparr>, supply1))"

text \<open>The two boxes of row \<open>i\<close> of a contents slide, as \<^verbatim>\<open>ensurePlaceholders\<close> configures
  them, and one turn of the loop that adds the rows.\<close>

definition contentsNumberBox :: "Config \<Rightarrow> nat \<Rightarrow> ident \<Rightarrow> TextBoxConfig" where
  "contentsNumberBox cfg i gid =
     (let marginX = max 40 (viewportSize cfg * 0.06);
          startY = slideHeight cfg * 0.22;
          rowH = max 28 (slideHeight cfg * 0.055);
          numberW = 60
      in \<lparr>box_left = marginX, box_top = startY + real i * rowH, box_width = numberW,
          box_height = rowH, box_fontSize = 18, box_align = Some ''right'',
          box_textType = TItemNumber, box_groupId = Some gid\<rparr>)"

definition contentsItemBox :: "Config \<Rightarrow> nat \<Rightarrow> ident \<Rightarrow> TextBoxConfig" where
  "contentsItemBox cfg i gid =
     (let marginX = max 40 (viewportSize cfg * 0.06);
          innerWidth = viewportSize cfg - marginX * 2;
          startY = slideHeight cfg * 0.22;
          rowH = max 28 (slideHeight cfg * 0.055);
          numberW = 60;
          textW = innerWidth - numberW
      in \<lparr>box_left = marginX + numberW, box_top = startY + real i * rowH, box_width = textW,
          box_height = rowH, box_fontSize = 18, box_align = Some ''left'',
          box_textType = TItem, box_groupId = Some gid\<rparr>)"

definition contentsRow ::
  "Config \<Rightarrow> bool \<Rightarrow> bool \<Rightarrow> Slide \<times> nat \<Rightarrow> nat \<Rightarrow> Slide \<times> nat" where
  "contentsRow cfg hasAnyItem hasAnyNumber state i =
     (let (slide, supply) = state;
          (gid, supply1) = nanoid supply;
          (slide1, supply2) =
            (if \<not> hasAnyNumber then addTextBox cfg slide (contentsNumberBox cfg i gid) supply1
             else (slide, supply1))
      in if \<not> hasAnyItem then addTextBox cfg slide1 (contentsItemBox cfg i gid) supply2
         else (slide1, supply2))"

text \<open>What one turn adds to a slide that has neither tag: the number box and the item
  box of row \<open>i\<close>, with the three identifiers the turn draws from the supply (the
  group identifier first).\<close>

definition contentsRowBoxes :: "Config \<Rightarrow> nat \<Rightarrow> nat \<Rightarrow> PPTElement list" where
  "contentsRowBoxes cfg supply i =
     [TextEl (newTextBox cfg (contentsNumberBox cfg i (Ident supply)) (Ident (supply + 1))),
      TextEl (newTextBox cfg (contentsItemBox cfg i (Ident supply)) (Ident (supply + 2)))]"

text \<open>One turn of the loop that adds the blocks of a content slide.\<close>

definition contentBlock ::
  "Config \<Rightarrow> bool \<Rightarrow> bool \<Rightarrow> bool \<Rightarrow> Slide \<times> nat \<Rightarrow> nat \<Rightarrow> Slide \<times> nat" where
  "contentBlock cfg hasAnyItem hasAnyItemTitle hasAnyNumber state i =
     (let (slide, supply) = state;
          marginX = max 40 (viewportSize cfg * 0.06);
          innerWidth = viewportSize cfg - marginX * 2;
          startY = slideHeight cfg * 0.22;
          blockH = slideHeight cfg * 0.15;
          numberW = 46;
          titleH = max 26 (blockH * 0.38);
          textH = max 34 (blockH * 0.62);
          (gid, supply1) = nanoid supply;
          baseY = startY + real i * blockH;
          (slide1, supply2) =
            (if \<not> hasAnyNumber
             then addTextBox cfg slide
                    \<lparr>box_left = marginX, box_top = baseY, box_width = numberW,
                     box_height = titleH, box_fontSize = 18, box_align = Some ''right'',
                     box_textType = TItemNumber, box_groupId = Some gid\<rparr> supply1
             else (slide, supply1));
          (slide2, supply3) =
            (if \<not> hasAnyItemTitle
             then addTextBox cfg slide1
                    \<lparr>box_left = marginX + numberW + 10, box_top = baseY,
                     box_width = innerWidth - numberW - 10,
                     box_height = titleH, box_fontSize = 18, box_align = Some ''left'',
                     box_textType = TItemTitle, box_groupId = Some gid\<rparr> supply2
             else (slide1, supply2))
      in if \<not> hasAnyItem
         then addTextBox cfg slide2
                \<lparr>box_left = marginX + numberW + 10, box_top = baseY + titleH,
                 box_width = innerWidth - numberW - 10,
                 box_height = textH, box_fontSize = 16, box_align = Some ''left'',
                 box_textType = TItem, box_groupId = Some gid\<rparr> supply3
         else (slide2, supply3))"

text \<open>A placeholder that is added when the slide has no element with its tag.\<close>

definition addIfMissing :: "Config \<Rightarrow> TextBoxConfig \<Rightarrow> Slide \<times> nat \<Rightarrow> Slide \<times> nat" where
  "addIfMissing cfg config state =
     (let (slide, supply) = state in
      if \<not> hasTextType slide (box_textType config) then addTextBox cfg slide config supply
      else (slide, supply))"

definition ensurePlaceholders :: "Config \<Rightarrow> Slide \<Rightarrow> SlideType \<Rightarrow> nat \<Rightarrow> Slide \<times> nat" where
  "ensurePlaceholders cfg slide slideType supply =
     (let marginX = max 40 (viewportSize cfg * 0.06);
          marginTop = max 30 (slideHeight cfg * 0.06);
          innerWidth = viewportSize cfg - marginX * 2
      in case slideType of
        SCover \<Rightarrow>
          addIfMissing cfg
            \<lparr>box_left = marginX, box_top = marginTop + slideHeight cfg * 0.2, box_width = innerWidth,
             box_height = slideHeight cfg * 0.22, box_fontSize = 20, box_align = Some ''center'',
             box_textType = TContent, box_groupId = None\<rparr>
            (addIfMissing cfg
               \<lparr>box_left = marginX, box_top = marginTop, box_width = innerWidth,
                box_height = slideHeight cfg * 0.18, box_fontSize = 40, box_align = Some ''center'',
                box_textType = TTitle, box_groupId = None\<rparr>
               (slide, supply))
      | STransition \<Rightarrow>
          addIfMissing cfg
            \<lparr>box_left = viewportSize cfg - marginX - 120, box_top = marginTop, box_width = 120,
             box_height = 60, box_fontSize = 24, box_align = Some ''right'',
             box_textType = TPartNumber, box_groupId = None\<rparr>
            (addIfMissing cfg
               \<lparr>box_left = marginX, box_top = slideHeight cfg * 0.46, box_width = innerWidth,
                box_height = slideHeight cfg * 0.18, box_fontSize = 18, box_align = Some ''center'',
                box_textType = TContent, box_groupId = None\<rparr>
               (addIfMissing cfg
                  \<lparr>box_left = marginX, box_top = slideHeight cfg * 0.28, box_width = innerWidth,
                   box_height = slideHeight cfg * 0.16, box_fontSize = 36, box_align = Some ''center'',
                   box_textType = TTitle, box_groupId = None\<rparr>
                  (slide, supply)))
      | SEnd \<Rightarrow>
          addIfMissing cfg
            \<lparr>box_left = marginX, box_top = slideHeight cfg * 0.38, box_width = innerWidth,
             box_height = slideHeight cfg * 0.18, box_fontSize = 40, box_align = Some ''center'',
             box_textType = TTitle, box_groupId = None\<rparr>
            (slide, supply)
      | SContents \<Rightarrow>
          (let need = 10;
               hasAnyItem = hasTextType slide TItem;
               hasAnyNumber = hasTextType slide TItemNumber;
               rows = (if \<not> hasAnyItem \<or> \<not> hasAnyNumber
                       then foldl (contentsRow cfg hasAnyItem hasAnyNumber) (slide, supply) [0..<need]
                       else (slide, supply))
           in addIfMissing cfg
                \<lparr>box_left = marginX, box_top = marginTop, box_width = innerWidth,
                 box_height = slideHeight cfg * 0.14, box_fontSize = 32, box_align = Some ''center'',
                 box_textType = TTitle, box_groupId = None\<rparr>
                rows)
      | SContent \<Rightarrow>
          (let withTitle =
                 addIfMissing cfg
                   \<lparr>box_left = marginX, box_top = marginTop, box_width = innerWidth,
                    box_height = slideHeight cfg * 0.12, box_fontSize = 28, box_align = Some ''left'',
                    box_textType = TTitle, box_groupId = None\<rparr>
                   (slide, supply);
               withContent =
                 addIfMissing cfg
                   \<lparr>box_left = marginX, box_top = slideHeight cfg * 0.22, box_width = innerWidth,
                    box_height = slideHeight cfg * 0.60, box_fontSize = 18, box_align = Some ''left'',
                    box_textType = TContent, box_groupId = None\<rparr>
                   withTitle;
               need = 4;
               hasAnyItem = hasTextType (fst withContent) TItem;
               hasAnyItemTitle = hasTextType (fst withContent) TItemTitle;
               hasAnyNumber = hasTextType (fst withContent) TItemNumber
           in if \<not> hasAnyItem \<or> \<not> hasAnyItemTitle \<or> \<not> hasAnyNumber
              then foldl (contentBlock cfg hasAnyItem hasAnyItemTitle hasAnyNumber) withContent [0..<need]
              else withContent))"

section \<open>Tagging the text of a slide\<close>

text \<open>An entry of \<^verbatim>\<open>scored\<close>: the element with its index in the slide, which stands for
  the reference the source holds.\<close>

record Scored =
  sc_idx :: nat
  sc_el :: PPTElement
  sc_font :: real
  sc_area :: real
  sc_score :: real
  sc_plain :: string

definition mkScored :: "nat \<times> PPTElement \<Rightarrow> Scored" where
  "mkScored c =
     (let (i, el) = c;
          html = getHtmlText el;
          font = getMaxFontSizePx html;
          area = elWidth el * elHeight el;
          score = font * 100000 - elTop el * 10 + area / 100
      in \<lparr>sc_idx = i, sc_el = el, sc_font = font, sc_area = area, sc_score = score,
          sc_plain = htmlToPlainText html\<rparr>)"

definition setTextTypeAt :: "Slide \<Rightarrow> nat \<Rightarrow> TextType \<Rightarrow> Slide" where
  "setTextTypeAt slide i textType =
     slide\<lparr>elements := (elements slide)[i := setTextType (elements slide ! i) textType]\<rparr>"

definition clearTextTypeAt :: "Slide \<Rightarrow> nat \<Rightarrow> Slide" where
  "clearTextTypeAt slide i =
     slide\<lparr>elements := (elements slide)[i := clearTextType (elements slide ! i)]\<rparr>"

text \<open>\<^verbatim>\<open>if (x) setTextType(x, textType)\<close> for an element that may not have been found.\<close>

definition setTextTypeIfFound :: "Slide \<Rightarrow> nat option \<Rightarrow> TextType \<Rightarrow> Slide" where
  "setTextTypeIfFound slide found textType =
     (case found of Some i \<Rightarrow> setTextTypeAt slide i textType | None \<Rightarrow> slide)"

definition keywordTitleMap :: "SlideType \<Rightarrow> string list" where
  "keywordTitleMap slideType =
     (case slideType of
        SCover \<Rightarrow> [[CHR 0xE6, CHR 0xA0, CHR 0x87, CHR 0xE9, CHR 0xA2, CHR 0x98],
                   [CHR 0xE4, CHR 0xB8, CHR 0xBB, CHR 0xE9, CHR 0xA2, CHR 0x98], ''title'']
      | STransition \<Rightarrow> [[CHR 0xE7, CHR 0xAB, CHR 0xA0, CHR 0xE8, CHR 0x8A, CHR 0x82],
                        [CHR 0xE9, CHR 0x83, CHR 0xA8, CHR 0xE5, CHR 0x88, CHR 0x86],
                        ''part'', ''chapter'', ''title'']
      | SContents \<Rightarrow> [[CHR 0xE7, CHR 0x9B, CHR 0xAE, CHR 0xE5, CHR 0xBD, CHR 0x95],
                      ''contents'', ''outline'', ''agenda'']
      | SContent \<Rightarrow> [[CHR 0xE6, CHR 0xA0, CHR 0x87, CHR 0xE9, CHR 0xA2, CHR 0x98], ''title'']
      | SEnd \<Rightarrow> [[CHR 0xE8, CHR 0x87, CHR 0xB4, CHR 0xE8, CHR 0xB0, CHR 0xA2], ''thanks'', ''thank'',
                 [CHR 0xE7, CHR 0xBB, CHR 0x93, CHR 0xE6, CHR 0x9D, CHR 0x9F]])"

definition keywordItems :: "Scored list \<Rightarrow> (nat \<times> PPTElement \<times> string) list" where
  "keywordItems xs = map (\<lambda>s. (sc_idx s, sc_el s, sc_plain s)) xs"

definition firstIdx :: "Scored list \<Rightarrow> nat option" where
  "firstIdx xs = (case xs of [] \<Rightarrow> None | s # _ \<Rightarrow> Some (sc_idx s))"

definition byTopThenLeft :: "Scored \<Rightarrow> Scored \<Rightarrow> real" where
  "byTopThenLeft a b = orElse (elTop (sc_el a) - elTop (sc_el b)) (elLeft (sc_el a) - elLeft (sc_el b))"

definition isNumberBox :: "Config \<Rightarrow> Scored \<Rightarrow> bool" where
  "isNumberBox cfg s =
     (if isNumberText (sc_plain s) then True
      else if elWidth (sc_el s) > 0 \<and> elWidth (sc_el s) < viewportSize cfg * 0.12 then True
      else False)"

text \<open>The first part of \<^verbatim>\<open>autoTagSlideTextTypes\<close>, common to the five roles: the old
  tags are cleared, the candidates scored and the title chosen. It yields the slide so
  far, \<^verbatim>\<open>scored\<close> and the index of the title element.\<close>

definition tagTitle :: "Config \<Rightarrow> Slide \<Rightarrow> SlideType \<Rightarrow> Slide \<times> Scored list \<times> nat option" where
  "tagTitle cfg slide slideType =
     (let cleared = foldl (\<lambda>s c. clearTextTypeAt s (fst c)) slide (getTextCandidates slide);
          scored = sortBy (\<lambda>a b. sc_score b - sc_score a) (map mkScored (getTextCandidates cleared));
          nonBrand = filter (\<lambda>s. \<not> isBrandLikeEl cfg (sc_plain s) (sc_el s)) scored;
          titlePool = (if nonBrand \<noteq> [] then nonBrand else scored);
          topHalf = filter (\<lambda>s. elTop (sc_el s) \<le> slideHeight cfg * 0.45) titlePool;
          fallbackTitleEl = firstIdx (if topHalf \<noteq> [] then topHalf else titlePool);
          kwTitleEl = findByKeywords (keywordItems titlePool) (keywordTitleMap slideType);
          titleEl = (case kwTitleEl of Some i \<Rightarrow> Some i | None \<Rightarrow> fallbackTitleEl)
      in (setTextTypeIfFound cleared titleEl TTitle, scored, titleEl))"

text \<open>\<^verbatim>\<open>rest\<close>: the scored candidates but the title and the brand-like ones.\<close>

definition restOf :: "Config \<Rightarrow> Scored list \<Rightarrow> nat option \<Rightarrow> Scored list" where
  "restOf cfg scored titleEl =
     filter (\<lambda>s. \<not> isBrandLikeEl cfg (sc_plain s) (sc_el s))
       (filter (\<lambda>s. Some (sc_idx s) \<noteq> titleEl) scored)"

definition notFooterNorTiny :: "Config \<Rightarrow> Scored \<Rightarrow> bool" where
  "notFooterNorTiny cfg s = (\<not> isFooterLikeEl cfg (sc_el s) \<and> \<not> isTooTinyEl cfg (sc_el s) (sc_font s))"

text \<open>The branch of the cover and transition roles.\<close>

definition tagCoverOrTransition :: "Config \<Rightarrow> Slide \<Rightarrow> Scored list \<Rightarrow> SlideType \<Rightarrow> Slide" where
  "tagCoverOrTransition cfg slide rest slideType =
     (let kwContentEl = findByKeywords (keywordItems rest)
            [[CHR 0xE7, CHR 0xAE, CHR 0x80, CHR 0xE4, CHR 0xBB, CHR 0x8B],
             [CHR 0xE5, CHR 0x89, CHR 0xAF, CHR 0xE6, CHR 0xA0, CHR 0x87, CHR 0xE9, CHR 0xA2, CHR 0x98],
             [CHR 0xE8, CHR 0xAF, CHR 0xB4, CHR 0xE6, CHR 0x98, CHR 0x8E], ''content'', ''subtitle''];
          fallbackContentEl = firstIdx
            (sortBy (\<lambda>a b. orElse (sc_area b - sc_area a) (elTop (sc_el a) - elTop (sc_el b))) rest);
          contentEl = (case kwContentEl of Some i \<Rightarrow> Some i | None \<Rightarrow> fallbackContentEl);
          slide1 = setTextTypeIfFound slide contentEl TContent
      in if slideType = STransition
         then setTextTypeIfFound slide1
                (firstIdx (sortBy byTopThenLeft (filter (isNumberBox cfg) rest))) TPartNumber
         else slide1)"

text \<open>The branch of the contents role. \<^verbatim>\<open>wideTextBoxes\<close> are the boxes that look like the
  rows of a list.\<close>

definition contentsRegion :: "Config \<Rightarrow> Scored list \<Rightarrow> Scored list" where
  "contentsRegion cfg rest =
     (let listRegion = filter (notFooterNorTiny cfg)
            (filter (\<lambda>s. elTop (sc_el s) \<ge> slideHeight cfg * 0.18 \<and> elTop (sc_el s) \<le> slideHeight cfg * 0.92) rest)
      in if listRegion \<noteq> [] then listRegion else filter (notFooterNorTiny cfg) rest)"

definition isWideTextBox :: "Config \<Rightarrow> PPTElement \<Rightarrow> bool" where
  "isWideTextBox cfg el =
     (let w = elWidth el; h = elHeight el; area = w * h;
          slideArea = viewportSize cfg * slideHeight cfg
      in if w < viewportSize cfg * 0.28 then False
         else if h > slideHeight cfg * 0.14 then False
         else if area > slideArea * 0.25 then False
         else True)"

definition wideTextBoxes :: "Config \<Rightarrow> Scored list \<Rightarrow> Scored list" where
  "wideTextBoxes cfg rest =
     filter (\<lambda>s. isWideTextBox cfg (sc_el s)) (sortBy byTopThenLeft (contentsRegion cfg rest))"

text \<open>One turn of the loop that looks for the number box of a row.\<close>

definition tagRowNumber :: "Scored list \<Rightarrow> Slide \<Rightarrow> Scored \<Rightarrow> Slide" where
  "tagRowNumber narrowCandidates slide it =
     (let itTop = elTop (sc_el it);
          itH = elHeight (sc_el it);
          tolY = max 16 (min 36 (itH * 0.8));
          matched = firstIdx
            (sortBy (\<lambda>a b. elLeft (sc_el a) - elLeft (sc_el b))
               (filter (\<lambda>n. \<bar>elTop (sc_el n) - itTop\<bar> \<le> tolY) narrowCandidates))
      in setTextTypeIfFound slide matched TItemNumber)"

definition tagContents :: "Config \<Rightarrow> Slide \<Rightarrow> Scored list \<Rightarrow> Slide" where
  "tagContents cfg slide rest =
     (let region = contentsRegion cfg rest in
      if region = [] then slide
      else (let ordered = sortBy byTopThenLeft region;
                wide = filter (\<lambda>s. isWideTextBox cfg (sc_el s)) ordered
            in if length wide < 3 then slide
               else (let lefts = sortBy (\<lambda>a b. a - b) (map (\<lambda>s. elLeft (sc_el s)) wide);
                         itemLeft = lefts ! (length lefts div 2);
                         leftTol = max 24 (viewportSize cfg * 0.06);
                         itemBoxes = sortBy (\<lambda>a b. elTop (sc_el a) - elTop (sc_el b))
                           (filter (\<lambda>s. \<bar>elLeft (sc_el s) - itemLeft\<bar> \<le> leftTol) wide)
                     in if length itemBoxes < 3 then slide
                        else (let slide1 = foldl (\<lambda>sl s. setTextTypeAt sl (sc_idx s) TItem) slide itemBoxes;
                                  narrowCandidates = filter
                                    (\<lambda>s. if elWidth (sc_el s) > viewportSize cfg * 0.18 then False
                                         else if elLeft (sc_el s) \<ge> itemLeft then False
                                         else \<not> isTooTinyEl cfg (sc_el s) (sc_font s)) ordered
                              in foldl (tagRowNumber narrowCandidates) slide1 itemBoxes))))"

text \<open>The branch of the content role.\<close>

definition contentRegion :: "Config \<Rightarrow> Scored list \<Rightarrow> Scored list" where
  "contentRegion cfg rest =
     (let bodyRegion = filter (notFooterNorTiny cfg)
            (filter (\<lambda>s. elTop (sc_el s) \<ge> slideHeight cfg * 0.16) rest)
      in if bodyRegion \<noteq> [] then bodyRegion else filter (notFooterNorTiny cfg) rest)"

text \<open>One turn of the loop that tags a pair: the box that is not the taller one is the
  title of the item.\<close>

definition tagPair :: "Scored list \<Rightarrow> Slide \<Rightarrow> nat \<Rightarrow> Slide" where
  "tagPair pairCandidates slide i =
     (let a = pairCandidates ! (i * 2);
          b = pairCandidates ! (i * 2 + 1);
          first = (if elHeight (sc_el a) \<le> elHeight (sc_el b) then a else b);
          second = (if sc_idx first = sc_idx a then b else a)
      in setTextTypeAt (setTextTypeAt slide (sc_idx first) TItemTitle) (sc_idx second) TItem)"

definition tagContent :: "Config \<Rightarrow> Slide \<Rightarrow> Scored list \<Rightarrow> Slide" where
  "tagContent cfg slide rest =
     (let region = contentRegion cfg rest;
          slideArea = viewportSize cfg * slideHeight cfg
      in if region = [] then slide
      else (let ordered = sortBy byTopThenLeft region;
                numberBoxes = filter
                  (\<lambda>s. if elWidth (sc_el s) > viewportSize cfg * 0.14 then False
                       else if elLeft (sc_el s) > viewportSize cfg * 0.5 then False
                       else isNumberBox cfg s) ordered;
                slide1 = foldl (\<lambda>sl s. setTextTypeAt sl (sc_idx s) TItemNumber) slide numberBoxes;
                textBoxes = filter (\<lambda>s. sc_idx s \<notin> set (map sc_idx numberBoxes)) ordered;
                contentCandidate =
                  sortBy (\<lambda>a b. orElse (sc_area b - sc_area a) (sc_font b - sc_font a))
                    (filter (\<lambda>s. if elWidth (sc_el s) < viewportSize cfg * 0.35 then False
                                 else if elHeight (sc_el s) < slideHeight cfg * 0.12 then False
                                 else if sc_area s < slideArea * 0.06 then False
                                 else True) textBoxes)
            in case contentCandidate of
                 [] \<Rightarrow> slide1
               | cand # _ \<Rightarrow>
                   (let slide2 = setTextTypeAt slide1 (sc_idx cand) TContent;
                        remaining = filter (\<lambda>s. sc_idx s \<noteq> sc_idx cand) textBoxes;
                        pairCandidates = sortBy byTopThenLeft
                          (filter (\<lambda>s. if elWidth (sc_el s) < viewportSize cfg * 0.22 then False
                                       else if elHeight (sc_el s) < 14 \<or> elHeight (sc_el s) > slideHeight cfg * 0.18 then False
                                       else if sc_area s < slideArea * 0.01 then False
                                       else True) remaining);
                        maxPairs = min 4 (length pairCandidates div 2)
                    in foldl (tagPair pairCandidates) slide2 [0..<maxPairs])))"

definition autoTagSlideTextTypes :: "Config \<Rightarrow> Slide \<Rightarrow> SlideType \<Rightarrow> Slide" where
  "autoTagSlideTextTypes cfg slide slideType =
     (if getTextCandidates slide = [] then slide
      else (let (slide1, scored, titleEl) = tagTitle cfg slide slideType;
                rest = restOf cfg scored titleEl
            in case slideType of
                 SCover \<Rightarrow> tagCoverOrTransition cfg slide1 rest slideType
               | STransition \<Rightarrow> tagCoverOrTransition cfg slide1 rest slideType
               | SContents \<Rightarrow> tagContents cfg slide1 rest
               | SContent \<Rightarrow> tagContent cfg slide1 rest
               | SEnd \<Rightarrow> slide1))"

text \<open>The value of \<^verbatim>\<open>wideTextBoxes\<close> when \<^verbatim>\<open>autoTagSlideTextTypes\<close> tags a slide for the
  contents role.\<close>

definition contentsWideTextBoxes :: "Config \<Rightarrow> Slide \<Rightarrow> Scored list" where
  "contentsWideTextBoxes cfg slide =
     (let (slide1, scored, titleEl) = tagTitle cfg slide SContents
      in wideTextBoxes cfg (restOf cfg scored titleEl))"

section \<open>Scoring a slide for a role\<close>

record TextStat =
  stat_el :: PPTElement
  stat_plain :: string
  stat_font :: real
  stat_w :: real
  stat_h :: real
  stat_area :: real

record SlideTextStats =
  usable :: "TextStat list"
  lowerAll :: string
  maxFont :: real
  maxFontTop :: real
  listLikeCount :: nat

definition mkTextStat :: "PPTElement \<Rightarrow> TextStat" where
  "mkTextStat el =
     (let html = getHtmlText el;
          plain = htmlToPlainText html;
          font = getMaxFontSizePx html;
          w = elWidth el;
          h = elHeight el
      in \<lparr>stat_el = el, stat_plain = plain, stat_font = font, stat_w = w, stat_h = h, stat_area = w * h\<rparr>)"

definition getSlideTextStats :: "Config \<Rightarrow> Slide \<Rightarrow> SlideTextStats" where
  "getSlideTextStats cfg slide =
     (let candidates = map (\<lambda>c. mkTextStat (snd c)) (getTextCandidates slide);
          usable =
            filter (\<lambda>c. \<not> isTooTinyEl cfg (stat_el c) (stat_font c))
              (filter (\<lambda>c. \<not> isBrandLikeEl cfg (stat_plain c) (stat_el c))
                 (filter (\<lambda>c. \<not> isFooterLikeEl cfg (stat_el c))
                    (filter (\<lambda>c. stat_plain c \<noteq> []) candidates)));
          lowerAll = joinStr '' | '' (map (\<lambda>c. toLowerCase (stat_plain c)) usable);
          maxFont = foldl (\<lambda>m c. max m (stat_font c)) 0 usable;
          maxFontTop = (case sortBy (\<lambda>a b. stat_font b - stat_font a) usable of
                          [] \<Rightarrow> 0 | c # _ \<Rightarrow> elTop (stat_el c));
          listLike = filter
            (\<lambda>c. if stat_w c < viewportSize cfg * 0.28 then False
                 else if stat_h c > slideHeight cfg * 0.16 then False
                 else if stat_area c > viewportSize cfg * slideHeight cfg * 0.25 then False
                 else True) usable
      in \<lparr>usable = usable, lowerAll = lowerAll, maxFont = maxFont, maxFontTop = maxFontTop,
          listLikeCount = length listLike\<rparr>)"

text \<open>\<^verbatim>\<open>has(kw)\<close> of \<^verbatim>\<open>scoreSlideAs\<close>.\<close>

definition hasKeyword :: "SlideTextStats \<Rightarrow> string list \<Rightarrow> bool" where
  "hasKeyword s kw = list_ex (\<lambda>k. includesStr (lowerAll s) (toLowerCase k)) kw"

definition scoreSlideAs :: "Config \<Rightarrow> Slide \<Rightarrow> SlideType \<Rightarrow> real" where
  "scoreSlideAs cfg slide type =
     (let s = getSlideTextStats cfg slide;
          textCount = length (usable s)
      in case type of
        SEnd \<Rightarrow>
          (if hasKeyword s [[CHR 0xE8, CHR 0x87, CHR 0xB4, CHR 0xE8, CHR 0xB0, CHR 0xA2],
                            [CHR 0xE8, CHR 0xB0, CHR 0xA2, CHR 0xE8, CHR 0xB0, CHR 0xA2],
                            ''thanks'', ''thank'', ''the end'',
                            [CHR 0xE7, CHR 0xBB, CHR 0x93, CHR 0xE6, CHR 0x9D, CHR 0x9F]] then 120 else 0)
          + (if textCount \<le> 3 then 20 else 0)
          + (if maxFont s \<ge> 36 then 10 else 0)
      | SContents \<Rightarrow>
          (if hasKeyword s [[CHR 0xE7, CHR 0x9B, CHR 0xAE, CHR 0xE5, CHR 0xBD, CHR 0x95],
                            ''contents'', ''outline'', ''agenda''] then 100 else 0)
          + min 60 (real (listLikeCount s) * 10)
          + (if textCount \<ge> 5 then 10 else 0)
          + (if maxFont s \<ge> 28 \<and> maxFontTop s < slideHeight cfg * 0.35 then 10 else 0)
      | STransition \<Rightarrow>
          (if hasKeyword s [[CHR 0xE7, CHR 0xAB, CHR 0xA0, CHR 0xE8, CHR 0x8A, CHR 0x82],
                            [CHR 0xE9, CHR 0x83, CHR 0xA8, CHR 0xE5, CHR 0x88, CHR 0x86],
                            ''part'', ''chapter'', ''section''] then 80 else 0)
          + (if textCount \<le> 3 then 30 else 0)
          + (if maxFont s \<ge> 40 \<and> maxFontTop s \<ge> slideHeight cfg * 0.2
                \<and> maxFontTop s \<le> slideHeight cfg * 0.7 then 40 else 0)
          - (if listLikeCount s \<ge> 4 then 40 else 0)
      | SCover \<Rightarrow>
          (if hasKeyword s [[CHR 0xE5, CHR 0xB0, CHR 0x81, CHR 0xE9, CHR 0x9D, CHR 0xA2], ''title'',
                            [CHR 0xE4, CHR 0xB8, CHR 0xBB, CHR 0xE9, CHR 0xA2, CHR 0x98]] then 40 else 0)
          + (if maxFont s \<ge> 40 \<and> maxFontTop s < slideHeight cfg * 0.35 then 60 else 0)
          + (if textCount \<le> 4 then 20 else 0)
          - (if listLikeCount s \<ge> 4 then 60 else 0)
      | SContent \<Rightarrow>
          (if listLikeCount s \<ge> 4 then 20 else 0)
          + (if textCount \<ge> 2 then 10 else 0))"

section \<open>Assembling the template\<close>

text \<open>\<^verbatim>\<open>JSON.parse(JSON.stringify(source))\<close>: a fresh object with the same content. On the
  values of this model, where an absent property is \<open>None\<close> and every number is finite,
  the content is the same.\<close>

definition cloneSlide :: "Slide \<Rightarrow> Slide" where
  "cloneSlide source = source"

definition toTemplateSlide :: "Config \<Rightarrow> Slide \<Rightarrow> SlideType \<Rightarrow> nat \<Rightarrow> Slide \<times> nat" where
  "toTemplateSlide cfg source slideType supply =
     (let s = cloneSlide source;
          s1 = s\<lparr>slide_type := Some slideType\<rparr>;
          s2 = autoTagSlideTextTypes cfg s1 slideType
      in ensurePlaceholders cfg s2 slideType supply)"

text \<open>The first loop of \<^verbatim>\<open>pickBestIndex\<close>. \<open>None\<close> is the state before any slide has been
  scored (\<^verbatim>\<open>bestIdx = -1\<close>, \<^verbatim>\<open>bestScore = -Infinity\<close>, which every score exceeds).\<close>

definition bestStep ::
  "Config \<Rightarrow> Slide list \<Rightarrow> nat set \<Rightarrow> SlideType \<Rightarrow> (nat \<times> real) option \<Rightarrow> nat \<Rightarrow> (nat \<times> real) option" where
  "bestStep cfg sourceSlides used type best i =
     (if i \<in> used then best
      else (let sc = scoreSlideAs cfg (sourceSlides ! i) type in
            case best of
              None \<Rightarrow> Some (i, sc)
            | Some (bestIdx, bestScore) \<Rightarrow> if sc > bestScore then Some (i, sc) else best))"

text \<open>\<^verbatim>\<open>pickBestIndex\<close>, with the set \<^verbatim>\<open>used\<close> passed in and returned. The list of source
  slides is never empty where it is called.\<close>

definition pickBestIndex ::
  "Config \<Rightarrow> Slide list \<Rightarrow> nat set \<Rightarrow> SlideType \<Rightarrow> int \<Rightarrow> real \<Rightarrow> nat \<times> nat set" where
  "pickBestIndex cfg sourceSlides used type fallbackIndex threshold =
     (let best = foldl (bestStep cfg sourceSlides used type) None [0..<length sourceSlides];
          fb = nat (min (max 0 fallbackIndex) (int (length sourceSlides) - 1))
      in case (case best of Some (bestIdx, bestScore) \<Rightarrow> if bestScore \<ge> threshold then Some bestIdx else None
                          | None \<Rightarrow> None) of
           Some bestIdx \<Rightarrow> (bestIdx, insert bestIdx used)
         | None \<Rightarrow>
             if fb \<notin> used then (fb, insert fb used)
             else (case find (\<lambda>i. i \<notin> used) [0..<length sourceSlides] of
                     Some i \<Rightarrow> (i, insert i used)
                   | None \<Rightarrow> (fb, used)))"

text \<open>The four calls of \<^verbatim>\<open>pickBestIndex\<close>, in the order of the source.\<close>

record RoleIndices =
  endIndex :: nat
  coverIndex :: nat
  contentsIndex :: nat
  transitionIndex :: nat

definition assignRoles :: "Config \<Rightarrow> Slide list \<Rightarrow> RoleIndices" where
  "assignRoles cfg sourceSlides =
     (let used0 = {};
          (endIdx, used1) = pickBestIndex cfg sourceSlides used0 SEnd (int (length sourceSlides) - 1) 80;
          (coverIdx, used2) = pickBestIndex cfg sourceSlides used1 SCover 0 60;
          (contentsIdx, used3) = pickBestIndex cfg sourceSlides used2 SContents 1 60;
          (transitionIdx, used4) = pickBestIndex cfg sourceSlides used3 STransition 2 50
      in \<lparr>endIndex = endIdx, coverIndex = coverIdx, contentsIndex = contentsIdx,
          transitionIndex = transitionIdx\<rparr>)"

text \<open>\<^verbatim>\<open>xs.map(f)\<close> for an \<open>f\<close> that draws identifiers.\<close>

fun mapWithSupply :: "('a \<Rightarrow> nat \<Rightarrow> 'b \<times> nat) \<Rightarrow> 'a list \<Rightarrow> nat \<Rightarrow> 'b list \<times> nat" where
  "mapWithSupply f [] supply = ([], supply)"
| "mapWithSupply f (x # xs) supply =
     (let (y, supply1) = f x supply;
          (ys, supply2) = mapWithSupply f xs supply1
      in (y # ys, supply2))"

text \<open>\<^verbatim>\<open>sourceSlides\<close>: the translated slides, or one empty slide when there are none.\<close>

definition sourceSlidesOf :: "Slide list \<Rightarrow> nat \<Rightarrow> Slide list \<times> nat" where
  "sourceSlidesOf slides supply =
     (if slides \<noteq> [] then (slides, supply)
      else (let (newId, supply1) = nanoid supply in
            ([\<lparr>slide_id = newId, elements = [], background = None, remark = None,
               slide_type = None\<rparr>], supply1)))"

text \<open>\<^verbatim>\<open>contentSources\<close>: the slides no singular role claimed, or else the source of the
  cover.\<close>

definition contentSourcesOf :: "Slide list \<Rightarrow> RoleIndices \<Rightarrow> Slide list" where
  "contentSourcesOf sourceSlides r =
     (let contentSources = map fst
            (filter (\<lambda>(s, i). i \<notin> set [coverIndex r, contentsIndex r, transitionIndex r, endIndex r])
               (zip sourceSlides [0..<length sourceSlides]))
      in if contentSources = [] then [sourceSlides ! coverIndex r] else contentSources)"

text \<open>The end of \<^verbatim>\<open>parsePPTXTemplate\<close>, from the translated slides to
  \<^verbatim>\<open>templateSlides\<close>.\<close>

definition assembleTemplate :: "Config \<Rightarrow> Slide list \<Rightarrow> nat \<Rightarrow> Slide list \<times> nat" where
  "assembleTemplate cfg slides supply =
     (let (sourceSlides, supply0) = sourceSlidesOf slides supply;
          r = assignRoles cfg sourceSlides;
          (coverSlide, supply1) = toTemplateSlide cfg (sourceSlides ! coverIndex r) SCover supply0;
          (contentsSlide, supply2) = toTemplateSlide cfg (sourceSlides ! contentsIndex r) SContents supply1;
          (transitionSlide, supply3) = toTemplateSlide cfg (sourceSlides ! transitionIndex r) STransition supply2;
          (endSlide, supply4) = toTemplateSlide cfg (sourceSlides ! endIndex r) SEnd supply3;
          (contentSlides, supply5) =
            mapWithSupply (\<lambda>s. toTemplateSlide cfg s SContent) (contentSourcesOf sourceSlides r) supply4
      in ([coverSlide, contentsSlide, transitionSlide] @ contentSlides @ [endSlide], supply5))"

section \<open>Tables\<close>

text \<open>
  \<^verbatim>\<open>parseInt(s)\<close> without a radix: leading white space, a sign, then the digits, in base
  16 after the prefix \<^verbatim>\<open>0x\<close>; \<open>None\<close> is NaN. And \<^verbatim>\<open>x.toFixed(1)\<close>, the number with one
  decimal as a string.
\<close>

definition hexDigitVal :: "char \<Rightarrow> nat option" where
  "hexDigitVal c = map_of (zip ''0123456789abcdef'' [0 ..< 16]) (toLowerChar c)"

definition parseIntJs :: "string \<Rightarrow> int option" where
  "parseIntJs s =
     (let s1 = skipSpaces s;
          negative = (s1 \<noteq> [] \<and> hd s1 = CHR ''-'');
          s2 = (if s1 \<noteq> [] \<and> (hd s1 = CHR ''-'' \<or> hd s1 = CHR ''+'') then tl s1 else s1);
          hex = (startsWith (toLowerCase s2) ''0x'');
          digits = (if hex then takeWhile (\<lambda>c. hexDigitVal c \<noteq> None) (drop 2 s2)
                    else takeWhile isDigit s2);
          magnitude = (if hex then foldl (\<lambda>a c. a * 16 + the (hexDigitVal c)) 0 digits
                       else digitsToNat digits)
      in if digits = [] then None
         else Some (if negative then - int magnitude else int magnitude))"

definition toFixed1 :: "real \<Rightarrow> string" where
  "toFixed1 x =
     (let n = nat \<lfloor>\<bar>x\<bar> * 10 + 1 / 2\<rfloor>;
          digits = showNat (n div 10) @ ''.'' @ showNat (n mod 10)
      in if x < 0 then ''-'' @ digits else digits)"

text \<open>A border, the four borders of a cell or of a table, a parsed cell and a parsed
  table.\<close>

record Border =
  border_color :: "string option"
  border_width :: "real option"
  border_type :: "string option"

record Borders =
  borders_top :: "Border option"
  borders_bottom :: "Border option"
  borders_left :: "Border option"
  borders_right :: "Border option"

record SrcTableCell =
  src_text :: string
  src_rowSpan :: "int option"
  src_colSpan :: "int option"
  src_fillColor :: "string option"
  src_fontColor :: "string option"
  src_fontBold :: "bool option"
  src_borders :: Borders

record Table = BaseElement +
  tbl_data :: "SrcTableCell list list"
  tbl_borders :: Borders
  tbl_rowHeights :: "real list"
  tbl_colWidths :: "real list"

text \<open>
  What the browser reads of the markup of a cell put into a \<^verbatim>\<open>div\<close>: the
  \<^verbatim>\<open>style.textAlign\<close> of its first \<^verbatim>\<open>p\<close>, three styles of its first \<^verbatim>\<open>span\<close> and its
  \<^verbatim>\<open>innerText\<close>; the empty string stands for a style that is not set or an element that
  is not there. The document object model is not part of the repository: the
  translator takes this reading as a parameter.
\<close>

record CellDom =
  dom_textAlign :: string
  dom_fontSize :: string
  dom_fontFamily :: string
  dom_color :: string
  dom_innerText :: string

text \<open>The errors raised. An access to a property of \<^verbatim>\<open>undefined\<close> is a \<^verbatim>\<open>TypeError\<close>; the
  entry points raise an \<^verbatim>\<open>Error\<close> with a message.\<close>

datatype JsError = TypeError | Error string

text \<open>The cell pushed for \<^verbatim>\<open>el.data[i][j]\<close>.\<close>

definition parseTableCell ::
  "Arith \<Rightarrow> (string \<Rightarrow> CellDom) \<Rightarrow> real \<Rightarrow> SrcTableCell \<Rightarrow> ident \<Rightarrow> TableCell" where
  "parseTableCell fl cellDom ratio cellData newId =
     (let dom = cellDom (src_text cellData);
          align = (if dom_textAlign dom \<noteq> [] then dom_textAlign dom else ''left'');
          fontsize = (if dom_fontSize dom \<noteq> []
                      then (case parseIntJs (dom_fontSize dom) of
                              Some v \<Rightarrow> toFixed1 (rnd fl (real_of_int v * ratio))
                            | None \<Rightarrow> ''NaN'') @ ''px''
                      else []);
          fontname = dom_fontFamily dom;
          color = (if dom_color dom \<noteq> [] then Some (dom_color dom) else src_fontColor cellData)
      in \<lparr>cell_id = newId,
          cell_colspan = (case src_colSpan cellData of None \<Rightarrow> 1 | Some c \<Rightarrow> if c = 0 then 1 else c),
          cell_rowspan = (case src_rowSpan cellData of None \<Rightarrow> 1 | Some c \<Rightarrow> if c = 0 then 1 else c),
          cell_text = dom_innerText dom,
          cell_style =
            \<lparr>style_fontname = fontname,
             style_color = color,
             style_align = (if align \<in> set [''left'', ''right'', ''center''] then align else ''left''),
             style_fontsize = fontsize,
             style_bold = src_fontBold cellData,
             style_backcolor = src_fillColor cellData\<rparr>\<rparr>)"

text \<open>The inner loop over \<^verbatim>\<open>j < col\<close>: a row with fewer than \<^verbatim>\<open>col\<close> cells makes
  \<^verbatim>\<open>cellData\<close> undefined, and reading its text raises.\<close>

fun parseTableRow ::
  "Arith \<Rightarrow> (string \<Rightarrow> CellDom) \<Rightarrow> real \<Rightarrow> SrcTableCell list \<Rightarrow> nat \<Rightarrow> nat
     \<Rightarrow> JsError + (TableCell list \<times> nat)" where
  "parseTableRow fl cellDom ratio cells 0 supply = Inr ([], supply)"
| "parseTableRow fl cellDom ratio [] (Suc col) supply = Inl TypeError"
| "parseTableRow fl cellDom ratio (cellData # cells) (Suc col) supply =
     (let (newId, supply1) = nanoid supply in
      case parseTableRow fl cellDom ratio cells col supply1 of
        Inl err \<Rightarrow> Inl err
      | Inr (rowCells, supply2) \<Rightarrow>
          Inr (parseTableCell fl cellDom ratio cellData newId # rowCells, supply2))"

text \<open>The outer loop over \<^verbatim>\<open>i < row\<close>.\<close>

fun parseTableRows ::
  "Arith \<Rightarrow> (string \<Rightarrow> CellDom) \<Rightarrow> real \<Rightarrow> SrcTableCell list list \<Rightarrow> nat \<Rightarrow> nat
     \<Rightarrow> JsError + (TableCell list list \<times> nat)" where
  "parseTableRows fl cellDom ratio [] col supply = Inr ([], supply)"
| "parseTableRows fl cellDom ratio (cells # rows) col supply =
     (case parseTableRow fl cellDom ratio cells col supply of
        Inl err \<Rightarrow> Inl err
      | Inr (rowCells, supply1) \<Rightarrow>
          (case parseTableRows fl cellDom ratio rows col supply1 of
             Inl err \<Rightarrow> Inl err
           | Inr (data, supply2) \<Rightarrow> Inr (rowCells # data, supply2)))"

text \<open>\<^verbatim>\<open>a || b || ...\<close> on borders that may be undefined: the first that is defined.\<close>

fun firstDefined :: "'a option list \<Rightarrow> 'a option" where
  "firstDefined [] = None"
| "firstDefined (None # xs) = firstDefined xs"
| "firstDefined (Some x # xs) = Some x"

text \<open>The fractions of the columns: the widths are added up from the left, each sum
  rounded, and each width is divided by the total, the quotient rounded. A total of zero
  (no column, or widths that cancel) makes the quotients of the source NaN or infinite;
  every use below has a positive total.\<close>

definition colWidthFractions :: "Arith \<Rightarrow> real list \<Rightarrow> real list" where
  "colWidthFractions fl colWidths =
     (let allWidth = foldl (\<lambda>a b. rnd fl (a + b)) 0 colWidths
      in map (\<lambda>item. rnd fl (item / allWidth)) colWidths)"

text \<open>
  The branch of \<^verbatim>\<open>parseElements\<close> for a table, on the element whose geometry has been
  scaled. The default font and colour of the theme, which the source spreads into each
  style, are both overwritten there by what is read of the cell. The unary plus before
  \<^verbatim>\<open>toFixed(2)\<close> reads the decimal back as a double.
\<close>

definition parseTable ::
  "Arith \<Rightarrow> (string \<Rightarrow> CellDom) \<Rightarrow> real \<Rightarrow> 'a Table_scheme \<Rightarrow> nat
     \<Rightarrow> JsError + (PPTTableElement \<times> nat)" where
  "parseTable fl cellDom ratio el supply =
     (case tbl_data el of
        [] \<Rightarrow> Inl TypeError
      | firstRow # _ \<Rightarrow>
          (case parseTableRows fl cellDom ratio (tbl_data el) (length firstRow) supply of
             Inl err \<Rightarrow> Inl err
           | Inr (data, supply1) \<Rightarrow>
               (case firstRow of
                  [] \<Rightarrow> Inl TypeError
                | firstCell # _ \<Rightarrow>
                    (let colWidths = colWidthFractions fl (tbl_colWidths el);
                         border = firstDefined
                           [borders_top (src_borders firstCell), borders_bottom (src_borders firstCell),
                            borders_top (tbl_borders el), borders_bottom (tbl_borders el),
                            borders_left (src_borders firstCell), borders_right (src_borders firstCell),
                            borders_left (tbl_borders el), borders_right (tbl_borders el)];
                         borderWidth = (case Option.bind border border_width of Some w \<Rightarrow> w | None \<Rightarrow> 0);
                         scaledWidth = rnd fl (borderWidth * ratio);
                         borderStyle = (case Option.bind border border_type of
                                          Some t \<Rightarrow> if t = [] then ''solid'' else t | None \<Rightarrow> ''solid'');
                         borderColor = (case Option.bind border border_color of
                                          Some c \<Rightarrow> if c = [] then ''#eeece1'' else c | None \<Rightarrow> ''#eeece1'');
                         (newId, supply2) = nanoid supply1
                     in Inr (\<lparr>table_id = newId,
                              table_left = src_left el,
                              table_top = src_top el,
                              table_width = src_width el,
                              table_height = src_height el,
                              table_rotate = 0,
                              table_colWidths = colWidths,
                              table_data = data,
                              table_outline =
                                \<lparr>outline_color = borderColor,
                                 outline_width = rnd fl (toFixed2 (if scaledWidth = 0 then 2 else scaledWidth)),
                                 outline_style = borderStyle\<rparr>,
                              table_cellMinHeight =
                                (case tbl_rowHeights el of
                                   [] \<Rightarrow> 36
                                 | h # _ \<Rightarrow> if h = 0 then 36 else rnd fl (h * ratio))\<rparr>, supply2)))))"

section \<open>Parsed slides and the translation of their elements\<close>

text \<open>
  A parsed element. A shape and a table hold the fields that the translators of the
  sections above read; a group and a diagram hold their geometry and their elements. The
  translators of a text, an image, a formula, an audio, a video, a chart, and of a shape
  that is not a line, are not embedded here (the shapes are drawn from the library of
  \<^verbatim>\<open>@/configs/shapes\<close>, which is not among the files): what such an element holds
  besides its geometry is a value of the type parameter, and the translators are
  parameters of the translation.
\<close>

record Group = BaseElement +
  grp_rotate :: real
  grp_isFlipH :: bool
  grp_isFlipV :: bool

datatype 'p SrcElement =
    SrcShape Shape 'p
  | SrcTable Table
  | SrcGroup Group "'p SrcElement list"
  | SrcDiagram BaseElement "'p SrcElement list"
  | SrcOther BaseElement 'p

definition baseOf :: "'a BaseElement_scheme \<Rightarrow> BaseElement" where
  "baseOf b = \<lparr>src_left = src_left b, src_top = src_top b, src_width = src_width b,
     src_height = src_height b, src_order = src_order b\<rparr>"

fun srcGeometry :: "'p SrcElement \<Rightarrow> BaseElement" where
  "srcGeometry (SrcShape s p) = baseOf s"
| "srcGeometry (SrcTable t) = baseOf t"
| "srcGeometry (SrcGroup g cs) = baseOf g"
| "srcGeometry (SrcDiagram b cs) = baseOf b"
| "srcGeometry (SrcOther b p) = baseOf b"

text \<open>The parameters of the translation: the arithmetic, the reading of the markup of
  a table cell, the translator of a shape that is not a line and the one of the
  remaining kinds (each returns the elements it pushes onto the slide), and the
  assignments \<^verbatim>\<open>element.isFlipH = true\<close> and \<^verbatim>\<open>element.isFlipV = true\<close> on an element of
  the remaining kinds, which change it if it has the property.\<close>

record 'p Env =
  env_arith :: Arith
  env_cellDom :: "string \<Rightarrow> CellDom"
  env_shape :: "real \<Rightarrow> Shape \<Rightarrow> 'p \<Rightarrow> nat \<Rightarrow> JsError + (PPTElement list \<times> nat)"
  env_other :: "real \<Rightarrow> BaseElement \<Rightarrow> 'p \<Rightarrow> nat \<Rightarrow> JsError + (PPTElement list \<times> nat)"
  env_flipH :: "'p \<Rightarrow> 'p"
  env_flipV :: "'p \<Rightarrow> 'p"

text \<open>The four assignments that open the body of the loop of \<^verbatim>\<open>parseElements\<close>:
  \<^verbatim>\<open>el.width = el.width * ratio\<close> and its like, which write to the parsed element.\<close>

definition scaleBase :: "Arith \<Rightarrow> real \<Rightarrow> 'a BaseElement_scheme \<Rightarrow> 'a BaseElement_scheme" where
  "scaleBase fl ratio b =
     b\<lparr>src_width := rnd fl (src_width b * ratio),
       src_height := rnd fl (src_height b * ratio),
       src_left := rnd fl (src_left b * ratio),
       src_top := rnd fl (src_top b * ratio)\<rparr>"

fun scaleElement :: "Arith \<Rightarrow> real \<Rightarrow> 'p SrcElement \<Rightarrow> 'p SrcElement" where
  "scaleElement fl ratio (SrcShape s p) = SrcShape (scaleBase fl ratio s) p"
| "scaleElement fl ratio (SrcTable t) = SrcTable (scaleBase fl ratio t)"
| "scaleElement fl ratio (SrcGroup g cs) = SrcGroup (scaleBase fl ratio g) cs"
| "scaleElement fl ratio (SrcDiagram b cs) = SrcDiagram (scaleBase fl ratio b) cs"
| "scaleElement fl ratio (SrcOther b p) = SrcOther (scaleBase fl ratio b) p"

text \<open>The copy \<^verbatim>\<open>{ ..._el, left, top }\<close> of an element, and the two assignments of a flip
  flag to a copy (a table and a diagram have no such property).\<close>

definition moveBase :: "real \<Rightarrow> real \<Rightarrow> 'a BaseElement_scheme \<Rightarrow> 'a BaseElement_scheme" where
  "moveBase l t b = b\<lparr>src_left := l, src_top := t\<rparr>"

fun moveElement :: "real \<Rightarrow> real \<Rightarrow> 'p SrcElement \<Rightarrow> 'p SrcElement" where
  "moveElement l t (SrcShape s p) = SrcShape (moveBase l t s) p"
| "moveElement l t (SrcTable tb) = SrcTable (moveBase l t tb)"
| "moveElement l t (SrcGroup g cs) = SrcGroup (moveBase l t g) cs"
| "moveElement l t (SrcDiagram b cs) = SrcDiagram (moveBase l t b) cs"
| "moveElement l t (SrcOther b p) = SrcOther (moveBase l t b) p"

fun setFlipH :: "'p Env \<Rightarrow> 'p SrcElement \<Rightarrow> 'p SrcElement" where
  "setFlipH env (SrcShape s p) = SrcShape (s\<lparr>isFlipH := True\<rparr>) p"
| "setFlipH env (SrcGroup g cs) = SrcGroup (g\<lparr>grp_isFlipH := True\<rparr>) cs"
| "setFlipH env (SrcOther b p) = SrcOther b (env_flipH env p)"
| "setFlipH env (SrcTable t) = SrcTable t"
| "setFlipH env (SrcDiagram b cs) = SrcDiagram b cs"

fun setFlipV :: "'p Env \<Rightarrow> 'p SrcElement \<Rightarrow> 'p SrcElement" where
  "setFlipV env (SrcShape s p) = SrcShape (s\<lparr>isFlipV := True\<rparr>) p"
| "setFlipV env (SrcGroup g cs) = SrcGroup (g\<lparr>grp_isFlipV := True\<rparr>) cs"
| "setFlipV env (SrcOther b p) = SrcOther b (env_flipV env p)"
| "setFlipV env (SrcTable t) = SrcTable t"
| "setFlipV env (SrcDiagram b cs) = SrcDiagram b cs"

text \<open>\<^verbatim>\<open>calculateRotatedPosition\<close>.\<close>

definition calculateRotatedPosition ::
  "Arith \<Rightarrow> real \<Rightarrow> real \<Rightarrow> real \<Rightarrow> real \<Rightarrow> real \<Rightarrow> real \<Rightarrow> real \<Rightarrow> real \<times> real" where
  "calculateRotatedPosition fl x y w h ox oy k =
     (let radians = rnd fl (k * rnd fl (piF fl / 180));
          containerCenterX = rnd fl (x + rnd fl (w / 2));
          containerCenterY = rnd fl (y + rnd fl (h / 2));
          relativeX = rnd fl (ox - rnd fl (w / 2));
          relativeY = rnd fl (oy - rnd fl (h / 2));
          rotatedX = rnd fl (rnd fl (relativeX * cosF fl radians) + rnd fl (relativeY * sinF fl radians));
          rotatedY = rnd fl (rnd fl (- relativeX * sinF fl radians) + rnd fl (relativeY * cosF fl radians));
          graphicX = rnd fl (containerCenterX + rotatedX);
          graphicY = rnd fl (containerCenterY + rotatedY)
      in (graphicX, graphicY))"

text \<open>\<^verbatim>\<open>flipGroupElements\<close>: the copies of the elements, mirrored in the box that holds
  them all (\<open>AxisY\<close> mirrors the abscissas). The least and the greatest of no numbers
  are not read: no element means no copy.\<close>

datatype Axis = AxisX | AxisY

definition flipGroupElements :: "Arith \<Rightarrow> 'p SrcElement list \<Rightarrow> Axis \<Rightarrow> 'p SrcElement list" where
  "flipGroupElements fl els axis =
     (case map srcGeometry els of
        [] \<Rightarrow> []
      | b # bs \<Rightarrow>
          (let minX = foldl min (src_left b) (map src_left bs);
               maxX = foldl max (rnd fl (src_left b + src_width b))
                        (map (\<lambda>e. rnd fl (src_left e + src_width e)) bs);
               minY = foldl min (src_top b) (map src_top bs);
               maxY = foldl max (rnd fl (src_top b + src_height b))
                        (map (\<lambda>e. rnd fl (src_top e + src_height e)) bs);
               centerX = rnd fl (rnd fl (minX + maxX) / 2);
               centerY = rnd fl (rnd fl (minY + maxY) / 2)
           in map (\<lambda>element.
                     (let e = srcGeometry element in
                      case axis of
                        AxisY \<Rightarrow> moveElement
                          (rnd fl (rnd fl (rnd fl (2 * centerX) - src_left e) - src_width e))
                          (src_top e) element
                      | AxisX \<Rightarrow> moveElement (src_left e)
                          (rnd fl (rnd fl (rnd fl (2 * centerY) - src_top e) - src_height e))
                          element))
                els))"

text \<open>The elements a group hands to the recursive call: copies of its own, placed
  in the coordinates of the slide. \<open>g\<close> is the group as it was before its geometry was
  scaled (\<^verbatim>\<open>originLeft\<close>, \<^verbatim>\<open>originTop\<close>, \<^verbatim>\<open>originWidth\<close>, \<^verbatim>\<open>originHeight\<close>).\<close>

definition groupChild :: "'p Env \<Rightarrow> Group \<Rightarrow> 'p SrcElement \<Rightarrow> 'p SrcElement" where
  "groupChild env g child =
     (let fl = env_arith env;
          c = srcGeometry child;
          originWidth = (if src_width g = 0 then 1 else src_width g);
          originHeight = (if src_height g = 0 then 1 else src_height g);
          (left, top) =
            (if grp_rotate g \<noteq> 0
             then calculateRotatedPosition fl (src_left g) (src_top g) originWidth originHeight
                    (src_left c) (src_top c) (grp_rotate g)
             else (rnd fl (src_left c + src_left g), rnd fl (src_top c + src_top g)));
          element = moveElement left top child;
          element1 = (if grp_isFlipH g then setFlipH env element else element)
      in if grp_isFlipV g then setFlipV env element1 else element1)"

definition groupChildren :: "'p Env \<Rightarrow> Group \<Rightarrow> 'p SrcElement list \<Rightarrow> 'p SrcElement list" where
  "groupChildren env g children =
     (let copies = map (groupChild env g) children;
          copies1 = (if grp_isFlipH g then flipGroupElements (env_arith env) copies AxisY else copies)
      in if grp_isFlipV g then flipGroupElements (env_arith env) copies1 AxisX else copies1)"

definition diagramChildren :: "'p Env \<Rightarrow> BaseElement \<Rightarrow> 'p SrcElement list \<Rightarrow> 'p SrcElement list" where
  "diagramChildren env d children =
     map (\<lambda>child. moveElement (rnd (env_arith env) (src_left (srcGeometry child) + src_left d))
                    (rnd (env_arith env) (src_top (srcGeometry child) + src_top d)) child)
       children"

text \<open>The branches of the loop for an element that holds no elements, on the element
  whose geometry has been scaled: what is pushed onto the slide. (The loop below has
  branches of its own for a group and a diagram, for which nothing is pushed here.)\<close>

fun translateLeaf :: "'p Env \<Rightarrow> real \<Rightarrow> 'p SrcElement \<Rightarrow> nat \<Rightarrow> JsError + (PPTElement list \<times> nat)" where
  "translateLeaf env ratio (SrcShape s p) supply =
     (if shapType s = ''line'' \<or> includesStr (shapType s) ''Connector''
      then (let (lineElement, supply1) = parseLineElement s ratio supply
            in Inr ([LineEl lineElement], supply1))
      else env_shape env ratio s p supply)"
| "translateLeaf env ratio (SrcTable t) supply =
     (case parseTable (env_arith env) (env_cellDom env) ratio t supply of
        Inl err \<Rightarrow> Inl err
      | Inr (table, supply1) \<Rightarrow> Inr ([TableEl table], supply1))"
| "translateLeaf env ratio (SrcOther b p) supply = env_other env ratio b p supply"
| "translateLeaf env ratio (SrcGroup g cs) supply = Inr ([], supply)"
| "translateLeaf env ratio (SrcDiagram d cs) supply = Inr ([], supply)"

text \<open>The number of elements in a list of elements, those inside groups and diagrams
  counted too: the measure by which \<^verbatim>\<open>parseElements\<close> terminates.\<close>

fun nodes :: "'p SrcElement \<Rightarrow> nat" where
  "nodes (SrcShape s p) = 1"
| "nodes (SrcTable t) = 1"
| "nodes (SrcGroup g cs) = Suc (sum_list (map nodes cs))"
| "nodes (SrcDiagram b cs) = Suc (sum_list (map nodes cs))"
| "nodes (SrcOther b p) = 1"

lemma nodes_moveElement [simp]: "nodes (moveElement l t el) = nodes el"
  by (cases el) simp_all

lemma nodes_setFlip [simp]: "nodes (setFlipH env el) = nodes el" "nodes (setFlipV env el) = nodes el"
  by (cases el; simp)+

lemma nodes_insertBy: "sum_list (map nodes (insertBy cmp x ys)) = nodes x + sum_list (map nodes ys)"
  by (induction ys) simp_all

lemma nodes_sortBy [simp]: "sum_list (map nodes (sortBy cmp xs)) = sum_list (map nodes xs)"
  by (induction xs) (simp_all add: sortBy_def nodes_insertBy)

lemma nodes_flipGroupElements [simp]:
  "sum_list (map nodes (flipGroupElements fl els axis)) = sum_list (map nodes els)"
proof -
  have "sum_list (map nodes (map (\<lambda>e. f e) els)) = sum_list (map nodes els)"
    if "\<And>e. nodes (f e) = nodes e" for f :: "'a SrcElement \<Rightarrow> 'a SrcElement"
    using that by (induction els) simp_all
  then show ?thesis
    by (cases els) (simp_all add: flipGroupElements_def Let_def split: Axis.splits)
qed

lemma nodes_groupChildren [simp]:
  "sum_list (map nodes (groupChildren env g cs)) = sum_list (map nodes cs)"
proof -
  have "nodes (groupChild env g c) = nodes c" for c
    by (simp add: groupChild_def Let_def split_beta)
  then have "sum_list (map nodes (map (groupChild env g) cs)) = sum_list (map nodes cs)"
    by (induction cs) simp_all
  then show ?thesis by (simp add: groupChildren_def Let_def)
qed

lemma nodes_diagramChildren [simp]:
  "sum_list (map nodes (diagramChildren env d cs)) = sum_list (map nodes cs)"
  by (induction cs) (simp_all add: diagramChildren_def)

text \<open>
  \<^verbatim>\<open>parseElements\<close>: the array is sorted by \<^verbatim>\<open>order\<close>, and the loop goes over the sorted
  array (\<open>parseSorted\<close>). Both return the array as the call leaves it, the elements of
  the slide and the supply. The array a group or a diagram hands to the recursive call
  is built for the call and dropped after it. The source has the function twice, in
  \<^verbatim>\<open>parsePPTXTemplate\<close> and in the handler of \<^verbatim>\<open>importPPTXFile\<close>; the two differ in where
  the translators of the elements read the theme.
\<close>

definition byOrder :: "'p SrcElement \<Rightarrow> 'p SrcElement \<Rightarrow> real" where
  "byOrder a b = src_order (srcGeometry a) - src_order (srcGeometry b)"

definition pushed ::
  "'p SrcElement \<Rightarrow> JsError + ('p SrcElement list \<times> PPTElement list \<times> nat)
     \<Rightarrow> JsError + ('p SrcElement list \<times> PPTElement list \<times> nat)" where
  "pushed el r = (case r of Inl err \<Rightarrow> Inl err | Inr (arr, out, supply) \<Rightarrow> Inr (el # arr, out, supply))"

function parseElements ::
    "'p Env \<Rightarrow> real \<Rightarrow> 'p SrcElement list \<Rightarrow> PPTElement list \<Rightarrow> nat
       \<Rightarrow> JsError + ('p SrcElement list \<times> PPTElement list \<times> nat)"
  and parseSorted ::
    "'p Env \<Rightarrow> real \<Rightarrow> 'p SrcElement list \<Rightarrow> PPTElement list \<Rightarrow> nat
       \<Rightarrow> JsError + ('p SrcElement list \<times> PPTElement list \<times> nat)" where
  "parseElements env ratio els out supply =
     parseSorted env ratio (sortBy byOrder els) out supply"
| "parseSorted env ratio [] out supply = Inr ([], out, supply)"
| "parseSorted env ratio (SrcGroup g cs # rest) out supply =
     (case parseElements env ratio (groupChildren env g cs) out supply of
        Inl err \<Rightarrow> Inl err
      | Inr (arr, out1, supply1) \<Rightarrow>
          pushed (SrcGroup (scaleBase (env_arith env) ratio g) cs)
            (parseSorted env ratio rest out1 supply1))"
| "parseSorted env ratio (SrcDiagram d cs # rest) out supply =
     (case parseElements env ratio (diagramChildren env d cs) out supply of
        Inl err \<Rightarrow> Inl err
      | Inr (arr, out1, supply1) \<Rightarrow>
          pushed (SrcDiagram (scaleBase (env_arith env) ratio d) cs)
            (parseSorted env ratio rest out1 supply1))"
| "parseSorted env ratio (SrcShape s p # rest) out supply =
     (case translateLeaf env ratio (scaleElement (env_arith env) ratio (SrcShape s p)) supply of
        Inl err \<Rightarrow> Inl err
      | Inr (els, supply1) \<Rightarrow>
          pushed (scaleElement (env_arith env) ratio (SrcShape s p))
            (parseSorted env ratio rest (out @ els) supply1))"
| "parseSorted env ratio (SrcTable t # rest) out supply =
     (case translateLeaf env ratio (scaleElement (env_arith env) ratio (SrcTable t)) supply of
        Inl err \<Rightarrow> Inl err
      | Inr (els, supply1) \<Rightarrow>
          pushed (scaleElement (env_arith env) ratio (SrcTable t))
            (parseSorted env ratio rest (out @ els) supply1))"
| "parseSorted env ratio (SrcOther b p # rest) out supply =
     (case translateLeaf env ratio (scaleElement (env_arith env) ratio (SrcOther b p)) supply of
        Inl err \<Rightarrow> Inl err
      | Inr (els, supply1) \<Rightarrow>
          pushed (scaleElement (env_arith env) ratio (SrcOther b p))
            (parseSorted env ratio rest (out @ els) supply1))"
  by pat_completeness auto
termination
  by (relation "measure (\<lambda>x. case x of
          Inl (env, ratio, els, out, n) \<Rightarrow> 2 * sum_list (map nodes els) + 1
        | Inr (env, ratio, els, out, n) \<Rightarrow> 2 * sum_list (map nodes els))")
    simp_all

section \<open>The entry points\<close>

text \<open>
  What the parser (the library \<^verbatim>\<open>pptxtojson\<close>) returns of a file: the width of the
  slides, the colours of the theme, and for each slide its fill, its note (empty when
  it has none), its elements and those of its layout.
\<close>

datatype Fill =
    ImageFill string
  | GradientFill string "(string \<times> string) list" real
  | PatternFill
  | ColorFill string

record 'p JsonSlide =
  js_fill :: Fill
  js_note :: string
  js_elements :: "'p SrcElement list"
  js_layoutElements :: "'p SrcElement list"

record 'p Json =
  json_width :: real
  json_themeColors :: "string list"
  json_slides :: "'p JsonSlide list"

text \<open>The background of a slide, from its fill. In a gradient \<^verbatim>\<open>value.path\<close>,
  \<^verbatim>\<open>value.colors\<close> (position and colour of each stop) and \<^verbatim>\<open>value.rot\<close> are read; a fill
  of a colour that is empty or not there gives white.\<close>

definition slideBackground :: "Arith \<Rightarrow> Fill \<Rightarrow> SlideBackground" where
  "slideBackground fl fill =
     (case fill of
        ImageFill picBase64 \<Rightarrow> ImageBackground picBase64 ''cover''
      | GradientFill path colors rot \<Rightarrow>
          GradientBackground (if path = ''line'' then ''linear'' else ''radial'')
            (map (\<lambda>(pos, color). (parseIntJs pos, color)) colors) (rnd fl (rot + 90))
      | PatternFill \<Rightarrow> SolidBackground ''#fff''
      | ColorFill v \<Rightarrow> SolidBackground (if v = [] then ''#fff'' else v))"

text \<open>The body of the loop over \<^verbatim>\<open>json.slides\<close>: the slide gets its identifier and its
  background, and \<^verbatim>\<open>parseElements\<close> fills it from the elements of the slide followed by
  those of its layout.\<close>

definition translateSlide :: "'p Env \<Rightarrow> real \<Rightarrow> 'p JsonSlide \<Rightarrow> nat \<Rightarrow> JsError + (Slide \<times> nat)" where
  "translateSlide env ratio item supply =
     (let (newId, supply1) = nanoid supply in
      case parseElements env ratio (js_elements item @ js_layoutElements item) [] supply1 of
        Inl err \<Rightarrow> Inl err
      | Inr (arr, out, supply2) \<Rightarrow>
          Inr (\<lparr>slide_id = newId, elements = out,
                background = Some (slideBackground (env_arith env) (js_fill item)),
                remark = Some (js_note item), slide_type = None\<rparr>, supply2))"

fun translateSlides :: "'p Env \<Rightarrow> real \<Rightarrow> 'p JsonSlide list \<Rightarrow> nat \<Rightarrow> JsError + (Slide list \<times> nat)" where
  "translateSlides env ratio [] supply = Inr ([], supply)"
| "translateSlides env ratio (item # items) supply =
     (case translateSlide env ratio item supply of
        Inl err \<Rightarrow> Inl err
      | Inr (slide, supply1) \<Rightarrow>
          (case translateSlides env ratio items supply1 of
             Inl err \<Rightarrow> Inl err
           | Inr (slides, supply2) \<Rightarrow> Inr (slide # slides, supply2)))"

text \<open>
  \<^verbatim>\<open>parsePPTXTemplate\<close>. The function is asynchronous: an error it throws is the rejection
  of the promise it returns, \<open>Inl\<close> here. \<open>parse\<close> stands for reading the file and
  parsing it, \<open>None\<close> when either fails. The option \<^verbatim>\<open>fixedViewport\<close> is true unless the
  caller says otherwise.
\<close>

text \<open>What \<^verbatim>\<open>parsePPTXTemplate\<close> returns: the slides of the template and its theme, which
  is the theme of the store with the colours of the parsed file.\<close>

record Template =
  template_slides :: "Slide list"
  template_themeColors :: "string list"

definition parsePPTXTemplate ::
  "'p Env \<Rightarrow> ('f \<Rightarrow> 'p Json option) \<Rightarrow> Config \<Rightarrow> bool \<Rightarrow> 'f list \<Rightarrow> nat
     \<Rightarrow> JsError + (Template \<times> nat)" where
  "parsePPTXTemplate env parse cfg fixedViewport files supply =
     (case files of
        [] \<Rightarrow> Inl (Error ''no file'')
      | file # _ \<Rightarrow>
          (case parse file of
             None \<Rightarrow> Inl (Error ''parse failed'')
           | Some json \<Rightarrow>
               (let ratio = (if fixedViewport
                             then rnd (env_arith env) (viewportSize cfg / json_width json)
                             else rnd (env_arith env) (96 / 72))
                in case translateSlides env ratio (json_slides json) supply of
                     Inl err \<Rightarrow> Inl err
                   | Inr (slides, supply1) \<Rightarrow>
                       (let (templateSlides, supply2) = assembleTemplate cfg slides supply1
                        in Inr (\<lparr>template_slides = templateSlides,
                                 template_themeColors = json_themeColors json\<rparr>, supply2)))))"

text \<open>
  \<^verbatim>\<open>importPPTXFile\<close>, as far as the call goes: without a file it returns; with one it
  raises the flag \<^verbatim>\<open>exporting\<close> and hands the file to a \<^verbatim>\<open>FileReader\<close>, whose handler
  translates the slides and writes them to the store once the file has been read,
  after the call has returned.
\<close>

record 'f HookState =
  exporting :: bool
  reading :: "'f list"

definition importPPTXFile :: "'f list \<Rightarrow> 'f HookState \<Rightarrow> 'f HookState" where
  "importPPTXFile files st =
     (case files of
        [] \<Rightarrow> st
      | file # _ \<Rightarrow> st\<lparr>exporting := True, reading := reading st @ [file]\<rparr>)"

section \<open>Slides as objects\<close>

text \<open>
  The functions that tag a slide and add its placeholders write to the slide they are
  given and to its elements. To say which objects they write to, slides and elements
  are put in a heap: an object is a cell of a list and its address is the index of the
  cell; a slide object holds the addresses of its elements.
\<close>

record SlideObject =
  obj_id :: ident
  obj_elements :: "nat list"
  obj_background :: "SlideBackground option"
  obj_remark :: "string option"
  obj_type :: "SlideType option"

record Heap =
  slideObjects :: "SlideObject list"
  elementObjects :: "PPTElement list"

text \<open>The slide at an address, as a value.\<close>

definition readSlide :: "Heap \<Rightarrow> nat \<Rightarrow> Slide" where
  "readSlide h a =
     (let obj = slideObjects h ! a
      in \<lparr>slide_id = obj_id obj,
          elements = map (\<lambda>e. elementObjects h ! e) (obj_elements obj),
          background = obj_background obj,
          remark = obj_remark obj,
          slide_type = obj_type obj\<rparr>)"

text \<open>\<^verbatim>\<open>cloneSlide\<close>, that is \<^verbatim>\<open>JSON.parse(JSON.stringify(source))\<close>: a new slide object that
  holds new element objects, one for each element of the source and equal to it.\<close>

definition cloneSlideIn :: "nat \<Rightarrow> Heap \<Rightarrow> nat \<times> Heap" where
  "cloneSlideIn source h =
     (let obj = slideObjects h ! source;
          n = length (elementObjects h);
          copies = map (\<lambda>e. elementObjects h ! e) (obj_elements obj)
      in (length (slideObjects h),
          \<lparr>slideObjects = slideObjects h @ [obj\<lparr>obj_elements := [n ..< n + length copies]\<rparr>],
           elementObjects = elementObjects h @ copies\<rparr>))"

text \<open>
  The writes of a function that changes the slide at an address in place and pushes
  elements onto it, given the slide as the function leaves it: the elements the slide
  keeps are written to their objects, every further element is a new object, and the
  fields of the slide are written to the slide object.
\<close>

definition writeSlide :: "nat \<Rightarrow> Slide \<Rightarrow> Heap \<Rightarrow> Heap" where
  "writeSlide a s h =
     (let obj = slideObjects h ! a;
          n = length (elementObjects h);
          kept = take (length (elements s)) (obj_elements obj);
          written = foldl (\<lambda>cells (e, v). cells[e := v]) (elementObjects h) (zip kept (elements s));
          added = drop (length (obj_elements obj)) (elements s)
      in \<lparr>slideObjects = (slideObjects h)
            [a := \<lparr>obj_id = slide_id s,
                   obj_elements = kept @ [n ..< n + length added],
                   obj_background = background s,
                   obj_remark = remark s,
                   obj_type = slide_type s\<rparr>],
          elementObjects = written @ added\<rparr>)"

text \<open>A slide object whose element objects are distinct and lie at or above an
  address, as those of a clone do.\<close>

definition ownsAbove :: "Heap \<Rightarrow> nat \<Rightarrow> nat \<Rightarrow> bool" where
  "ownsAbove h a n0 =
     (a < length (slideObjects h) \<and> n0 \<le> length (elementObjects h)
      \<and> distinct (obj_elements (slideObjects h ! a))
      \<and> (\<forall>e \<in> set (obj_elements (slideObjects h ! a)). n0 \<le> e \<and> e < length (elementObjects h)))"

text \<open>\<^verbatim>\<open>toTemplateSlide\<close> on the heap: the source is cloned, and the type, the tags and
  the placeholders are written to the clone, whose address is returned.\<close>

definition toTemplateSlideIn ::
  "Config \<Rightarrow> nat \<Rightarrow> SlideType \<Rightarrow> Heap \<Rightarrow> nat \<Rightarrow> nat \<times> Heap \<times> nat" where
  "toTemplateSlideIn cfg source slideType h supply =
     (let (s, h1) = cloneSlideIn source h;
          h2 = writeSlide s ((readSlide h1 s)\<lparr>slide_type := Some slideType\<rparr>) h1;
          h3 = writeSlide s (autoTagSlideTextTypes cfg (readSlide h2 s) slideType) h2;
          (placed, supply1) = ensurePlaceholders cfg (readSlide h3 s) slideType supply;
          h4 = writeSlide s placed h3
      in (s, h4, supply1))"


section \<open>The role assignment as the specification words it\<close>

text \<open>The indices of the slides not yet claimed, in ascending order.\<close>

definition unclaimed :: "nat set \<Rightarrow> nat \<Rightarrow> nat list" where
  "unclaimed used n = filter (\<lambda>i. i \<notin> used) [0..<n]"

text \<open>
  The choice of one role as the specification states it, for the index \<open>r\<close> chosen: \<open>r\<close>
  is a slide not yet claimed; when a slide not yet claimed reaches the threshold, \<open>r\<close>
  has the highest score among them; otherwise \<open>r\<close> is the positional default \<open>d\<close>, or
  the first slide not yet claimed when \<open>d\<close> is claimed already.
\<close>

definition pickAsStated ::
  "Config \<Rightarrow> Slide list \<Rightarrow> nat set \<Rightarrow> SlideType \<Rightarrow> nat \<Rightarrow> real \<Rightarrow> nat \<Rightarrow> bool" where
  "pickAsStated cfg slides used role d threshold r =
     (let un = unclaimed used (length slides);
          score = (\<lambda>i. scoreSlideAs cfg (slides ! i) role)
      in r \<in> set un \<and>
         (if \<exists>b \<in> set un. score b \<ge> threshold
          then \<forall>j \<in> set un. score j \<le> score r
          else if d \<in> set un then r = d
          else r = hd un))"

text \<open>
  The same choice as the source makes it. The positional default is cut down to the last
  index of the deck; when no slide is left to claim, the role takes that default, which
  another role has claimed; among several slides of the highest score the first is
  chosen.
\<close>

definition pickAsAmended ::
  "Config \<Rightarrow> Slide list \<Rightarrow> nat set \<Rightarrow> SlideType \<Rightarrow> nat \<Rightarrow> real \<Rightarrow> nat \<Rightarrow> bool" where
  "pickAsAmended cfg slides used role d threshold r =
     (let un = unclaimed used (length slides);
          score = (\<lambda>i. scoreSlideAs cfg (slides ! i) role);
          fb = min d (length slides - 1)
      in if un = [] then r = fb
         else r \<in> set un \<and>
           (if \<exists>b \<in> set un. score b \<ge> threshold
            then (\<forall>j \<in> set un. score j \<le> score r) \<and> (\<forall>j \<in> set un. j < r \<longrightarrow> score j < score r)
            else if fb \<in> set un then r = fb
            else r = hd un))"

section \<open>Sample inputs\<close>

text \<open>Concrete inputs on which the theorems below are instantiated.\<close>


definition sampleLine :: "bool \<Rightarrow> bool \<Rightarrow> real \<Rightarrow> Shape" where
  "sampleLine flipV flipH angle =
     \<lparr>src_left = 20, src_top = 30, src_width = 10, src_height = 6, src_order = 1,
      src_rotate = angle, isFlipV = flipV, isFlipH = flipH, borderWidth = 1,
      borderType = ''solid'', borderColor = ''#000000'', shapType = ''straightConnector1''\<rparr>"

definition sampleConfig :: Config where
  "sampleConfig = \<lparr>viewportSize = 1000, viewportRatio = 0.5625, themeFontName = ''Arial'',
     themeFontColor = ''#333333''\<rparr>"

definition sampleText :: "nat \<Rightarrow> real \<Rightarrow> real \<Rightarrow> real \<Rightarrow> real \<Rightarrow> string \<Rightarrow> PPTElement" where
  "sampleText n l t w h html =
     TextEl \<lparr>text_id = Ident n, text_left = l, text_top = t, text_width = w, text_height = h,
       text_rotate = 0, text_defaultFontName = ''Arial'', text_defaultColor = ''#333333'',
       text_content = html, text_lineHeight = 1, text_outline = None, text_fill = None,
       text_vertical = None, text_shadow = None, text_textType = None, text_groupId = None\<rparr>"

definition sampleSlide :: "nat \<Rightarrow> PPTElement list \<Rightarrow> Slide" where
  "sampleSlide n els =
     \<lparr>slide_id = Ident n, elements = els, background = None, remark = None, slide_type = None\<rparr>"

definition thankYouText :: PPTElement where
  "thankYouText = sampleText 1 100 200 800 120 ''<p style=\"font-size: 44px;\">Thank You</p>''"

definition thankYouSlide :: Slide where
  "thankYouSlide = sampleSlide 0 [thankYouText]"

definition twoRowSlide :: Slide where
  "twoRowSlide = sampleSlide 10
     [sampleText 11 100 40 800 60 ''<p style=\"font-size: 32px;\">Agenda</p>'',
      sampleText 12 150 160 600 40 ''<p style=\"font-size: 18px;\">First topic</p>'',
      sampleText 13 150 220 600 40 ''<p style=\"font-size: 18px;\">Second topic</p>'']"

text \<open>A deck of three slides: a welcome slide, a slide of contents with five rows, and a
  closing slide.\<close>

definition welcomeSlide :: Slide where
  "welcomeSlide = sampleSlide 20
     [sampleText 21 100 56 800 100 ''<p style=\"font-size: 44px;\">Welcome</p>'']"

definition fiveRowSlide :: Slide where
  "fiveRowSlide = sampleSlide 30
     [sampleText 31 100 40 300 50 ''<p style=\"font-size: 20px;\">Contents</p>'',
      sampleText 32 150 160 600 40 ''<p style=\"font-size: 18px;\">One</p>'',
      sampleText 33 150 220 600 40 ''<p style=\"font-size: 18px;\">Two</p>'',
      sampleText 34 150 280 600 40 ''<p style=\"font-size: 18px;\">Three</p>'',
      sampleText 35 150 340 600 40 ''<p style=\"font-size: 18px;\">Four</p>'',
      sampleText 36 150 400 600 40 ''<p style=\"font-size: 18px;\">Five</p>'']"

definition closingSlide :: Slide where
  "closingSlide = sampleSlide 40
     [sampleText 41 100 200 800 120 ''<p style=\"font-size: 40px;\">Thank You</p>'']"

definition sampleDeck :: "Slide list" where
  "sampleDeck = [welcomeSlide, fiveRowSlide, closingSlide]"

text \<open>A table of one row and two columns, whose first cell spans both and whose second
  cell has neither span, and a reading of the markup of its cells.\<close>

definition sampleBorders :: Borders where
  "sampleBorders = \<lparr>borders_top = None, borders_bottom = None, borders_left = None, borders_right = None\<rparr>"

definition sampleCell :: "int option \<Rightarrow> SrcTableCell" where
  "sampleCell colSpan =
     \<lparr>src_text = ''<p><span>cell</span></p>'', src_rowSpan = None, src_colSpan = colSpan,
      src_fillColor = None, src_fontColor = None, src_fontBold = None, src_borders = sampleBorders\<rparr>"

definition sampleTable :: Table where
  "sampleTable =
     \<lparr>src_left = 10, src_top = 20, src_width = 400, src_height = 40, src_order = 1,
      tbl_data = [[sampleCell (Some 2), sampleCell None]], tbl_borders = sampleBorders,
      tbl_rowHeights = [40], tbl_colWidths = [100, 300]\<rparr>"

definition sampleCellDom :: "string \<Rightarrow> CellDom" where
  "sampleCellDom markup =
     \<lparr>dom_textAlign = '''', dom_fontSize = ''14px'', dom_fontFamily = '''', dom_color = '''',
      dom_innerText = ''cell''\<rparr>"

text \<open>Translators that push nothing, a parser that fails on every file, the state of the
  hook at rest, and a heap that holds one slide with one text.\<close>

definition sampleEnv :: "unit Env" where
  "sampleEnv =
     \<lparr>env_arith = exactArith, env_cellDom = sampleCellDom,
      env_shape = (\<lambda>ratio s p supply. Inr ([], supply)),
      env_other = (\<lambda>ratio b p supply. Inr ([], supply)),
      env_flipH = (\<lambda>p. p), env_flipV = (\<lambda>p. p)\<rparr>"

definition sampleParse :: "unit \<Rightarrow> unit Json option" where
  "sampleParse file = None"

definition sampleHookState :: "unit HookState" where
  "sampleHookState = \<lparr>exporting = False, reading = []\<rparr>"

definition sampleHeap :: Heap where
  "sampleHeap =
     \<lparr>slideObjects = [\<lparr>obj_id = Ident 1, obj_elements = [0], obj_background = None,
                        obj_remark = None, obj_type = None\<rparr>],
      elementObjects = [thankYouText]\<rparr>"

section \<open>Properties of the line translator\<close>



text \<open>The endpoints \<^verbatim>\<open>parseLineElement\<close> passes to \<^verbatim>\<open>rotateLine\<close>, its one caller, have
  the least corner of their bounding box at the origin.\<close>

lemma flipEndpoints_normalised:
  assumes "0 \<le> src_width el" and "0 \<le> src_height el"
  shows "min (fst (fst (flipEndpoints el))) (fst (snd (flipEndpoints el))) = 0"
    and "min (snd (fst (flipEndpoints el))) (snd (snd (flipEndpoints el))) = 0"
  using assms by (simp_all add: flipEndpoints_def)






lemma bendLineData_endpoints [simp]:
  "line_start (bendLineData el d) = line_start d" "line_end (bendLineData el d) = line_end d"
  by (simp_all add: bendLineData_def)

lemma curveLineData_endpoints [simp]:
  "line_start (curveLineData el d) = line_start d" "line_end (curveLineData el d) = line_end d"
  by (simp_all add: curveLineData_def Let_def)

lemma rotateLineData_endpoints:
  "line_start (rotateLineData el d) =
     (if src_rotate el = 0 then line_start d
      else rot_start (rotateLine (line_start d) (line_end d) (src_rotate el)))"
  "line_end (rotateLineData el d) =
     (if src_rotate el = 0 then line_end d
      else rot_end (rotateLine (line_start d) (line_end d) (src_rotate el)))"
  by (simp_all add: rotateLineData_def Let_def)

lemma parseLineElement_start_end:
  "line_start (fst (parseLineElement el ratio supply)) =
     (if src_rotate el = 0 then fst (flipEndpoints el)
      else rot_start (rotateLine (fst (flipEndpoints el)) (snd (flipEndpoints el)) (src_rotate el)))"
  "line_end (fst (parseLineElement el ratio supply)) =
     (if src_rotate el = 0 then snd (flipEndpoints el)
      else rot_end (rotateLine (fst (flipEndpoints el)) (snd (flipEndpoints el)) (src_rotate el)))"
  by (simp_all add: parseLineElement_def rotateLineData_endpoints split_beta)

text \<open>
  Claim C4, as amended. The endpoints of the translated line are the pair the two flip
  flags select (no flip: \<open>(0, 0)\<close> to \<open>(w, h)\<close>; both: \<open>(w, h)\<close> to \<open>(0, 0)\<close>; vertical
  only: \<open>(0, h)\<close> to \<open>(w, 0)\<close>; horizontal only: \<open>(w, 0)\<close> to \<open>(0, h)\<close>) when the
  element is not rotated; when it is rotated they are that pair after \<^verbatim>\<open>rotateLine\<close>.
\<close>

theorem parseLineElement_endpoints:
  "(line_start (fst (parseLineElement el ratio supply)), line_end (fst (parseLineElement el ratio supply))) =
     (let (s, e) =
            (if \<not> isFlipV el \<and> \<not> isFlipH el then ((0, 0), (src_width el, src_height el))
             else if isFlipV el \<and> isFlipH el then ((src_width el, src_height el), (0, 0))
             else if isFlipV el \<and> \<not> isFlipH el then ((0, src_height el), (src_width el, 0))
             else ((src_width el, 0), (0, src_height el)))
      in if src_rotate el = 0 then (s, e)
         else (rot_start (rotateLine s e (src_rotate el)), rot_end (rotateLine s e (src_rotate el))))"
  unfolding parseLineElement_start_end flipEndpoints_def [symmetric]
  by (simp add: split_beta)

theorem parseLineElement_endpoints_witness:
  "line_start (fst (parseLineElement (sampleLine False False 0) 1 0)) = (0, 0)
   \<and> line_end (fst (parseLineElement (sampleLine False False 0) 1 0)) = (10, 6)
   \<and> line_start (fst (parseLineElement (sampleLine True True 0) 1 0)) = (10, 6)
   \<and> line_end (fst (parseLineElement (sampleLine True True 0) 1 0)) = (0, 0)
   \<and> line_start (fst (parseLineElement (sampleLine True False 0) 1 0)) = (0, 6)
   \<and> line_end (fst (parseLineElement (sampleLine True False 0) 1 0)) = (10, 0)
   \<and> line_start (fst (parseLineElement (sampleLine False True 0) 1 0)) = (10, 0)
   \<and> line_end (fst (parseLineElement (sampleLine False True 0) 1 0)) = (0, 6)"
  using parseLineElement_endpoints [of "sampleLine False False 0" 1 0]
    parseLineElement_endpoints [of "sampleLine True True 0" 1 0]
    parseLineElement_endpoints [of "sampleLine True False 0" 1 0]
    parseLineElement_endpoints [of "sampleLine False True 0" 1 0]
  by (simp add: sampleLine_def)

text \<open>Claim C4 as it is stated fails for an element without flips that is rotated by 180
  degrees: its line starts at \<open>(w, h)\<close>, not at \<open>(0, 0)\<close>.\<close>

theorem parseLineElement_endpoints_counterexample:
  "line_start (fst (parseLineElement (sampleLine False False 180) 1 0)) \<noteq> (0, 0)"
  by (simp add: parseLineElement_start_end flipEndpoints_def sampleLine_def rotateLine_def Let_def)

section \<open>Properties of the scoring\<close>

lemma usable_length_le:
  "length (usable (getSlideTextStats cfg slide)) \<le> length (getTextCandidates slide)"
  unfolding getSlideTextStats_def Let_def SlideTextStats.select_convs
  by (rule order_trans[OF length_filter_le], rule order_trans[OF length_filter_le],
      rule order_trans[OF length_filter_le], rule order_trans[OF length_filter_le], simp)

lemma listLikeCount_le:
  "listLikeCount (getSlideTextStats cfg slide) \<le> length (usable (getSlideTextStats cfg slide))"
  unfolding getSlideTextStats_def Let_def SlideTextStats.select_convs
  by (rule length_filter_le)

lemma scoreSlideAs_end_lower:
  assumes "length (getTextCandidates slide) \<le> 3"
  shows "scoreSlideAs cfg slide SEnd \<ge> 20"
proof -
  have "length (usable (getSlideTextStats cfg slide)) \<le> 3"
    using usable_length_le [of cfg slide] assms by linarith
  then show ?thesis
    unfolding scoreSlideAs_def Let_def SlideType.case
    by simp
qed

lemma scoreSlideAs_content_zero:
  assumes "length (getTextCandidates slide) \<le> 1"
  shows "scoreSlideAs cfg slide SContent = 0"
proof -
  have u: "length (usable (getSlideTextStats cfg slide)) \<le> 1"
    using usable_length_le [of cfg slide] assms by linarith
  moreover have "listLikeCount (getSlideTextStats cfg slide) \<le> 1"
    using listLikeCount_le [of cfg slide] u by linarith
  ultimately show ?thesis
    unfolding scoreSlideAs_def Let_def SlideType.case
    by simp
qed

text \<open>
  Claim C7. A slide whose only text candidate has the plain text ``Thank You'' and the
  font size 44 scores strictly higher for the role end than for the role content,
  whatever the viewport and wherever the element lies: with a single candidate the
  content score is 0 and the end score is at least the 20 given for at most three
  usable texts.
\<close>

theorem thank_you_end_beats_content:
  assumes "getTextCandidates slide = [(i, el)]"
    and "htmlToPlainText (getHtmlText el) = ''Thank You''"
    and "getMaxFontSizePx (getHtmlText el) = 44"
  shows "scoreSlideAs cfg slide SEnd > scoreSlideAs cfg slide SContent"
proof -
  have "scoreSlideAs cfg slide SContent = 0"
    using assms(1) by (simp add: scoreSlideAs_content_zero)
  moreover have "scoreSlideAs cfg slide SEnd \<ge> 20"
    using assms(1) by (simp add: scoreSlideAs_end_lower)
  ultimately show ?thesis by linarith
qed

lemma thankYouSlide_scores:
  "scoreSlideAs sampleConfig thankYouSlide SEnd = 150"
  "scoreSlideAs sampleConfig thankYouSlide SContent = 0"
  by code_simp+

theorem thank_you_end_beats_content_witness:
  "getTextCandidates thankYouSlide = [(0, thankYouText)]
   \<and> htmlToPlainText (getHtmlText thankYouText) = ''Thank You''
   \<and> getMaxFontSizePx (getHtmlText thankYouText) = 44
   \<and> scoreSlideAs sampleConfig thankYouSlide SContent < scoreSlideAs sampleConfig thankYouSlide SEnd"
proof -
  have h1: "getTextCandidates thankYouSlide = [(0, thankYouText)]"
    by (simp add: getTextCandidates_def thankYouSlide_def sampleSlide_def thankYouText_def
        sampleText_def enumerate_simps)
  have h2: "htmlToPlainText (getHtmlText thankYouText) = ''Thank You''"
    by code_simp
  have h3: "getMaxFontSizePx (getHtmlText thankYouText) = 44"
    by code_simp
  show ?thesis
    using h1 h2 h3 thank_you_end_beats_content [OF h1 h2 h3, of sampleConfig] by simp
qed

section \<open>Properties of the placeholder synthesis\<close>

lemma textType_newTextBox [simp]:
  "text_textType (newTextBox cfg c i) = Some (box_textType c)"
  "text_groupId (newTextBox cfg c i) = box_groupId c"
  "text_id (newTextBox cfg c i) = i"
  by (simp_all add: newTextBox_def)

lemma hasTextType_elements:
  "elements s' = elements s @ xs \<Longrightarrow>
   hasTextType s' t = (hasTextType s t \<or> list_ex (elHasTextType t) xs)"
  by (simp add: hasTextType_def)

lemma addTextBox_simps [simp]:
  "elements (fst (addTextBox cfg s c n)) = elements s @ [TextEl (newTextBox cfg c (Ident n))]"
  "slide_type (fst (addTextBox cfg s c n)) = slide_type s"
  "snd (addTextBox cfg s c n) = Suc n"
  by (simp_all add: addTextBox_def nanoid_def)

lemma addIfMissing_simps:
  "elements (fst (addIfMissing cfg c st)) =
     elements (fst st) @ (if hasTextType (fst st) (box_textType c) then []
                          else [TextEl (newTextBox cfg c (Ident (snd st)))])"
  "slide_type (fst (addIfMissing cfg c st)) = slide_type (fst st)"
  "snd (addIfMissing cfg c st) = (if hasTextType (fst st) (box_textType c) then snd st else Suc (snd st))"
  by (simp_all add: addIfMissing_def split_beta)

lemma contentsBox_simps [simp]:
  "box_textType (contentsNumberBox cfg i gid) = TItemNumber"
  "box_groupId (contentsNumberBox cfg i gid) = Some gid"
  "box_textType (contentsItemBox cfg i gid) = TItem"
  "box_groupId (contentsItemBox cfg i gid) = Some gid"
  by (simp_all add: contentsNumberBox_def contentsItemBox_def Let_def)

lemma contentsRow_extends:
  "\<exists>xs. elements (fst (contentsRow cfg a b (s, n) i)) = elements s @ xs
     \<and> (\<forall>e \<in> set xs. elHasTextType TItem e \<or> elHasTextType TItemNumber e)"
  by (cases a; cases b; simp add: contentsRow_def Let_def nanoid_def split_beta)

lemma contentsRow_type [simp]:
  "slide_type (fst (contentsRow cfg a b (s, n) i)) = slide_type s"
  by (simp add: contentsRow_def Let_def nanoid_def split_beta)

lemma foldl_contentsRow_extends:
  "\<exists>xs. elements (fst (foldl (contentsRow cfg a b) (s, n) is)) = elements s @ xs
     \<and> (\<forall>e \<in> set xs. elHasTextType TItem e \<or> elHasTextType TItemNumber e)"
proof (induction "is" arbitrary: s n)
  case Nil
  then show ?case by simp
next
  case (Cons i "is")
  obtain s1 n1 where step: "contentsRow cfg a b (s, n) i = (s1, n1)"
    by (cases "contentsRow cfg a b (s, n) i")
  obtain xs where xs: "elements s1 = elements s @ xs"
    "\<forall>e \<in> set xs. elHasTextType TItem e \<or> elHasTextType TItemNumber e"
    using contentsRow_extends [of cfg a b s n i] step by auto
  obtain ys where ys: "elements (fst (foldl (contentsRow cfg a b) (s1, n1) is)) = elements s1 @ ys"
    "\<forall>e \<in> set ys. elHasTextType TItem e \<or> elHasTextType TItemNumber e"
    using Cons.IH [of s1 n1] by auto
  show ?case
    using xs ys step by (intro exI [of _ "xs @ ys"]) auto
qed

lemma foldl_contentsRow_type [simp]:
  "slide_type (fst (foldl (contentsRow cfg a b) st is)) = slide_type (fst st)"
proof (induction "is" arbitrary: st)
  case Nil
  then show ?case by simp
next
  case (Cons i "is")
  show ?case
    using Cons.IH [of "contentsRow cfg a b st i"] contentsRow_type [of cfg a b "fst st" "snd st" i]
    by simp
qed

lemma contentBlock_extends:
  "\<exists>xs. elements (fst (contentBlock cfg a b c (s, n) i)) = elements s @ xs
     \<and> (\<forall>e \<in> set xs. elHasTextType TItem e \<or> elHasTextType TItemNumber e \<or> elHasTextType TItemTitle e)"
  by (cases a; cases b; cases c; simp add: contentBlock_def Let_def nanoid_def split_beta)

lemma contentBlock_type [simp]:
  "slide_type (fst (contentBlock cfg a b c (s, n) i)) = slide_type s"
  by (simp add: contentBlock_def Let_def nanoid_def split_beta)

lemma foldl_contentBlock_extends:
  "\<exists>xs. elements (fst (foldl (contentBlock cfg a b c) (s, n) is)) = elements s @ xs
     \<and> (\<forall>e \<in> set xs. elHasTextType TItem e \<or> elHasTextType TItemNumber e \<or> elHasTextType TItemTitle e)"
proof (induction "is" arbitrary: s n)
  case Nil
  then show ?case by simp
next
  case (Cons i "is")
  obtain s1 n1 where step: "contentBlock cfg a b c (s, n) i = (s1, n1)"
    by (cases "contentBlock cfg a b c (s, n) i")
  obtain xs where xs: "elements s1 = elements s @ xs"
    "\<forall>e \<in> set xs. elHasTextType TItem e \<or> elHasTextType TItemNumber e \<or> elHasTextType TItemTitle e"
    using contentBlock_extends [of cfg a b c s n i] step by auto
  obtain ys where ys: "elements (fst (foldl (contentBlock cfg a b c) (s1, n1) is)) = elements s1 @ ys"
    "\<forall>e \<in> set ys. elHasTextType TItem e \<or> elHasTextType TItemNumber e \<or> elHasTextType TItemTitle e"
    using Cons.IH [of s1 n1] by auto
  show ?case
    using xs ys step by (intro exI [of _ "xs @ ys"]) auto
qed

lemma foldl_contentBlock_type [simp]:
  "slide_type (fst (foldl (contentBlock cfg a b c) st is)) = slide_type (fst st)"
proof (induction "is" arbitrary: st)
  case Nil
  then show ?case by simp
next
  case (Cons i "is")
  show ?case
    using Cons.IH [of "contentBlock cfg a b c st i"] contentBlock_type [of cfg a b c "fst st" "snd st" i]
    by simp
qed

lemma elHasTextType_unique:
  "elHasTextType t e \<Longrightarrow> elHasTextType t' e \<Longrightarrow> t = t'"
  by (cases e) (auto split: option.splits)

lemma no_row_tag:
  assumes "\<forall>e \<in> set xs. elHasTextType TItem e \<or> elHasTextType TItemNumber e \<or> elHasTextType TItemTitle e"
    and "t \<noteq> TItem" "t \<noteq> TItemNumber" "t \<noteq> TItemTitle"
  shows "filter (elHasTextType t) xs = []"
  using assms by (auto simp: filter_empty_conv dest: elHasTextType_unique)

lemma hasTextType_filter: "hasTextType s t = (filter (elHasTextType t) (elements s) \<noteq> [])"
  by (simp add: hasTextType_def list_ex_iff filter_empty_conv)

lemma ensurePlaceholders_cover:
  "\<exists>xs. elements (fst (ensurePlaceholders cfg s SCover n)) = elements s @ xs
     \<and> length (filter (elHasTextType TTitle) xs) = (if hasTextType s TTitle then 0 else 1)
     \<and> length (filter (elHasTextType TContent) xs) = (if hasTextType s TContent then 0 else 1)"
  by (simp add: ensurePlaceholders_def Let_def addIfMissing_simps hasTextType_filter)

lemma ensurePlaceholders_transition:
  "\<exists>xs. elements (fst (ensurePlaceholders cfg s STransition n)) = elements s @ xs
     \<and> length (filter (elHasTextType TTitle) xs) = (if hasTextType s TTitle then 0 else 1)
     \<and> length (filter (elHasTextType TContent) xs) = (if hasTextType s TContent then 0 else 1)
     \<and> length (filter (elHasTextType TPartNumber) xs) = (if hasTextType s TPartNumber then 0 else 1)"
  by (simp add: ensurePlaceholders_def Let_def addIfMissing_simps hasTextType_filter)

lemma ensurePlaceholders_end:
  "\<exists>xs. elements (fst (ensurePlaceholders cfg s SEnd n)) = elements s @ xs
     \<and> length (filter (elHasTextType TTitle) xs) = (if hasTextType s TTitle then 0 else 1)"
  by (simp add: ensurePlaceholders_def Let_def addIfMissing_simps hasTextType_filter)

lemma ensurePlaceholders_contents:
  "\<exists>xs. elements (fst (ensurePlaceholders cfg s SContents n)) = elements s @ xs
     \<and> length (filter (elHasTextType TTitle) xs) = (if hasTextType s TTitle then 0 else 1)"
proof -
  define rows where "rows =
    (if \<not> hasTextType s TItem \<or> \<not> hasTextType s TItemNumber
     then foldl (contentsRow cfg (hasTextType s TItem) (hasTextType s TItemNumber)) (s, n) [0..<10]
     else (s, n))"
  have "\<exists>xs. elements (fst rows) = elements s @ xs
      \<and> (\<forall>e \<in> set xs. elHasTextType TItem e \<or> elHasTextType TItemNumber e)"
  proof (cases "\<not> hasTextType s TItem \<or> \<not> hasTextType s TItemNumber")
    case True
    then show ?thesis
      using foldl_contentsRow_extends [of cfg "hasTextType s TItem" "hasTextType s TItemNumber" s n "[0..<10]"]
      by (simp add: rows_def)
  next
    case False
    then show ?thesis by (intro exI [of _ "[]"]) (simp add: rows_def)
  qed
  then obtain xs where xs: "elements (fst rows) = elements s @ xs"
    "\<forall>e \<in> set xs. elHasTextType TItem e \<or> elHasTextType TItemNumber e"
    by blast
  have none: "filter (elHasTextType TTitle) xs = []"
    using xs(2) by (intro no_row_tag) auto
  define c where "c =
    \<lparr>box_left = max 40 (viewportSize cfg * 0.06), box_top = max 30 (slideHeight cfg * 0.06),
     box_width = viewportSize cfg - max 40 (viewportSize cfg * 0.06) * 2,
     box_height = slideHeight cfg * 0.14, box_fontSize = 32, box_align = Some ''center'',
     box_textType = TTitle, box_groupId = None\<rparr>"
  have c: "box_textType c = TTitle"
    "fst (ensurePlaceholders cfg s SContents n) = fst (addIfMissing cfg c rows)"
    unfolding ensurePlaceholders_def Let_def SlideType.case rows_def c_def
    by simp_all
  show ?thesis
    using xs none c by (simp add: addIfMissing_simps hasTextType_filter)
qed

lemma ensurePlaceholders_content:
  "\<exists>xs. elements (fst (ensurePlaceholders cfg s SContent n)) = elements s @ xs
     \<and> length (filter (elHasTextType TTitle) xs) = (if hasTextType s TTitle then 0 else 1)
     \<and> length (filter (elHasTextType TContent) xs) = (if hasTextType s TContent then 0 else 1)"
proof -
  define c1 where "c1 =
    \<lparr>box_left = max 40 (viewportSize cfg * 0.06), box_top = max 30 (slideHeight cfg * 0.06),
     box_width = viewportSize cfg - max 40 (viewportSize cfg * 0.06) * 2,
     box_height = slideHeight cfg * 0.12, box_fontSize = 28, box_align = Some ''left'',
     box_textType = TTitle, box_groupId = None\<rparr>"
  define c2 where "c2 =
    \<lparr>box_left = max 40 (viewportSize cfg * 0.06), box_top = slideHeight cfg * 0.22,
     box_width = viewportSize cfg - max 40 (viewportSize cfg * 0.06) * 2,
     box_height = slideHeight cfg * 0.60, box_fontSize = 18, box_align = Some ''left'',
     box_textType = TContent, box_groupId = None\<rparr>"
  define withContent where "withContent = addIfMissing cfg c2 (addIfMissing cfg c1 (s, n))"
  define a where "a = hasTextType (fst withContent) TItem"
  define b where "b = hasTextType (fst withContent) TItemTitle"
  define c where "c = hasTextType (fst withContent) TItemNumber"
  have res: "fst (ensurePlaceholders cfg s SContent n) =
      fst (if \<not> a \<or> \<not> b \<or> \<not> c then foldl (contentBlock cfg a b c) withContent [0..<4] else withContent)"
    unfolding ensurePlaceholders_def Let_def SlideType.case withContent_def c1_def c2_def a_def b_def c_def
    by simp
  obtain ys where ys: "elements (fst withContent) = elements s @ ys"
    "length (filter (elHasTextType TTitle) ys) = (if hasTextType s TTitle then 0 else 1)"
    "length (filter (elHasTextType TContent) ys) = (if hasTextType s TContent then 0 else 1)"
    by (simp add: withContent_def c1_def c2_def addIfMissing_simps hasTextType_filter)
  have "\<exists>xs. elements (fst (ensurePlaceholders cfg s SContent n)) = elements (fst withContent) @ xs
      \<and> (\<forall>e \<in> set xs. elHasTextType TItem e \<or> elHasTextType TItemNumber e \<or> elHasTextType TItemTitle e)"
  proof (cases "\<not> a \<or> \<not> b \<or> \<not> c")
    case True
    then show ?thesis
      using foldl_contentBlock_extends [of cfg a b c "fst withContent" "snd withContent" "[0..<4]"]
      by (simp add: res)
  next
    case False
    then show ?thesis by (intro exI [of _ "[]"]) (simp add: res)
  qed
  then obtain xs where xs: "elements (fst (ensurePlaceholders cfg s SContent n)) = elements (fst withContent) @ xs"
    "\<forall>e \<in> set xs. elHasTextType TItem e \<or> elHasTextType TItemNumber e \<or> elHasTextType TItemTitle e"
    by blast
  have "filter (elHasTextType TTitle) xs = []" "filter (elHasTextType TContent) xs = []"
    using xs(2) by (auto intro!: no_row_tag)
  then show ?thesis
    using xs(1) ys by (intro exI [of _ "ys @ xs"]) simp
qed

lemma ensurePlaceholders_type [simp]:
  "slide_type (fst (ensurePlaceholders cfg s role n)) = slide_type s"
  by (cases role) (simp_all add: ensurePlaceholders_def Let_def addIfMissing_simps)

text \<open>
  Claim C10. For every source slide and every role, the slide \<^verbatim>\<open>toTemplateSlide\<close> returns
  consists of the elements of the cloned and tagged slide followed by the placeholders
  added. It has an element tagged title; for the roles cover, transition and content it
  has one tagged content, and for the role transition one tagged partNumber. Of each of
  these tags exactly one placeholder is added when the tagged slide has no element with
  the tag, and none when it has one.
\<close>

theorem toTemplateSlide_placeholders:
  "let tagged = autoTagSlideTextTypes cfg ((cloneSlide source)\<lparr>slide_type := Some slideType\<rparr>) slideType;
       result = fst (toTemplateSlide cfg source slideType n);
       added = drop (length (elements tagged)) (elements result);
       count = (\<lambda>t. length (filter (elHasTextType t) added))
   in elements result = elements tagged @ added
      \<and> hasTextType result TTitle
      \<and> count TTitle = (if hasTextType tagged TTitle then 0 else 1)
      \<and> (slideType \<in> {SCover, STransition, SContent} \<longrightarrow>
           hasTextType result TContent
           \<and> count TContent = (if hasTextType tagged TContent then 0 else 1))
      \<and> (slideType = STransition \<longrightarrow>
           hasTextType result TPartNumber
           \<and> count TPartNumber = (if hasTextType tagged TPartNumber then 0 else 1))"
proof -
  define tagged where
    "tagged = autoTagSlideTextTypes cfg ((cloneSlide source)\<lparr>slide_type := Some slideType\<rparr>) slideType"
  define result where "result = fst (ensurePlaceholders cfg tagged slideType n)"
  have r: "fst (toTemplateSlide cfg source slideType n) = result"
    by (simp add: toTemplateSlide_def Let_def tagged_def result_def)
  obtain xs where xs: "elements result = elements tagged @ xs"
    "length (filter (elHasTextType TTitle) xs) = (if hasTextType tagged TTitle then 0 else 1)"
    "slideType \<in> {SCover, STransition, SContent} \<longrightarrow>
       length (filter (elHasTextType TContent) xs) = (if hasTextType tagged TContent then 0 else 1)"
    "slideType = STransition \<longrightarrow>
       length (filter (elHasTextType TPartNumber) xs) = (if hasTextType tagged TPartNumber then 0 else 1)"
    using ensurePlaceholders_cover [of cfg tagged n]
      ensurePlaceholders_transition [of cfg tagged n]
      ensurePlaceholders_end [of cfg tagged n]
      ensurePlaceholders_contents [of cfg tagged n]
      ensurePlaceholders_content [of cfg tagged n]
    unfolding result_def
    by (cases slideType) auto
  have has: "\<And>t. hasTextType result t =
      (hasTextType tagged t \<or> filter (elHasTextType t) xs \<noteq> [])"
    using xs(1) by (simp add: hasTextType_filter)
  have len: "\<And>t. (filter (elHasTextType t) xs \<noteq> []) = (length (filter (elHasTextType t) xs) \<noteq> 0)"
    by simp
  show ?thesis
    unfolding Let_def r tagged_def [symmetric]
    using xs by (simp add: has len del: length_0_conv length_greater_0_conv)
qed

theorem toTemplateSlide_placeholders_witness:
  "STransition \<in> {SCover, STransition, SContent}
   \<and> hasTextType (fst (toTemplateSlide sampleConfig thankYouSlide STransition 100)) TTitle
   \<and> hasTextType (fst (toTemplateSlide sampleConfig thankYouSlide STransition 100)) TContent
   \<and> hasTextType (fst (toTemplateSlide sampleConfig thankYouSlide STransition 100)) TPartNumber"
  using toTemplateSlide_placeholders
      [where cfg = sampleConfig and source = thankYouSlide and slideType = STransition and n = 100]
  by (simp add: Let_def)

section \<open>Properties of the tagger for the contents role\<close>

lemma elHasTextType_clearTextType [simp]: "\<not> elHasTextType t (clearTextType e)"
  by (cases e) (auto split: option.splits)

lemma clearTextType_idem [simp]: "clearTextType (clearTextType e) = clearTextType e"
  by (cases e) (auto split: option.splits)

lemma elHasTextType_not_candidate: "\<not> isTextCandidate e \<Longrightarrow> \<not> elHasTextType t e"
  by (cases e) (auto split: option.splits)

lemma elHasTextType_setTextType:
  "elHasTextType t (setTextType e tt) \<Longrightarrow> t = tt \<or> elHasTextType t e"
  by (cases e) (auto split: option.splits)

lemma clearTextTypeAt_length [simp]: "length (elements (clearTextTypeAt s i)) = length (elements s)"
  by (simp add: clearTextTypeAt_def)

lemma foldl_clear_length [simp]:
  "length (elements (foldl (\<lambda>s c. clearTextTypeAt s (fst c)) s cs)) = length (elements s)"
  by (induction cs arbitrary: s) simp_all

lemma foldl_clear_nth:
  "j < length (elements s) \<Longrightarrow>
   elements (foldl (\<lambda>s c. clearTextTypeAt s (fst c)) s cs) ! j =
     (if j \<in> fst ` set cs then clearTextType (elements s ! j) else elements s ! j)"
proof (induction cs arbitrary: s)
  case Nil
  then show ?case by simp
next
  case (Cons c cs)
  let ?s' = "clearTextTypeAt s (fst c)"
  have len: "j < length (elements ?s')"
    using Cons.prems by simp
  have step: "elements ?s' ! j = (if j = fst c then clearTextType (elements s ! j) else elements s ! j)"
    using Cons.prems by (simp add: clearTextTypeAt_def nth_list_update)
  have "elements (foldl (\<lambda>s c. clearTextTypeAt s (fst c)) s (c # cs)) ! j =
      (if j \<in> fst ` set cs then clearTextType (elements ?s' ! j) else elements ?s' ! j)"
    using Cons.IH [OF len] by simp
  also have "\<dots> = (if j \<in> fst ` set (c # cs) then clearTextType (elements s ! j) else elements s ! j)"
    unfolding step by simp
  finally show ?case .
qed

lemma candidates_indices:
  "fst ` set (getTextCandidates s) = {i. i < length (elements s) \<and> isTextCandidate (elements s ! i)}"
  by (auto simp: getTextCandidates_def in_set_enumerate_eq image_iff)

lemma cleared_no_tags:
  "\<not> hasTextType (foldl (\<lambda>s c. clearTextTypeAt s (fst c)) s (getTextCandidates s)) t"
proof -
  let ?c = "foldl (\<lambda>s c. clearTextTypeAt s (fst c)) s (getTextCandidates s)"
  have "\<not> elHasTextType t (elements ?c ! j)" if "j < length (elements ?c)" for j
  proof -
    have j: "j < length (elements s)" using that by simp
    show ?thesis
      using foldl_clear_nth [OF j, of "getTextCandidates s"] j
      by (auto simp: candidates_indices elHasTextType_not_candidate)
  qed
  then show ?thesis
    by (auto simp: hasTextType_def list_ex_iff in_set_conv_nth)
qed

lemma hasTextType_setTextTypeAt:
  "hasTextType (setTextTypeAt s i tt) t \<Longrightarrow> t = tt \<or> hasTextType s t"
proof -
  assume h: "hasTextType (setTextTypeAt s i tt) t"
  then obtain e where e: "e \<in> set ((elements s)[i := setTextType (elements s ! i) tt])" "elHasTextType t e"
    by (auto simp: hasTextType_def setTextTypeAt_def list_ex_iff)
  show ?thesis
  proof (cases "i < length (elements s)")
    case True
    from e(1) have "e = setTextType (elements s ! i) tt \<or> e \<in> set (elements s)"
      using set_update_subset_insert [of "elements s" i] by auto
    then show ?thesis
      using e(2) True elHasTextType_setTextType [of t "elements s ! i" tt]
      by (auto simp: hasTextType_def list_ex_iff)
  next
    case False
    then show ?thesis using e by (auto simp: hasTextType_def list_ex_iff list_update_beyond)
  qed
qed

lemma hasTextType_setTextTypeIfFound:
  "hasTextType (setTextTypeIfFound s found tt) t \<Longrightarrow> t = tt \<or> hasTextType s t"
  by (cases found) (auto simp: setTextTypeIfFound_def dest: hasTextType_setTextTypeAt)

lemma tagTitle_only_title:
  "hasTextType (fst (tagTitle cfg s role)) t \<Longrightarrow> t = TTitle"
  unfolding tagTitle_def Let_def fst_conv
  by (drule hasTextType_setTextTypeIfFound) (simp add: cleared_no_tags)

lemma no_candidates_no_tags:
  "getTextCandidates s = [] \<Longrightarrow> \<not> hasTextType s t"
proof -
  assume "getTextCandidates s = []"
  then have "fst ` set (getTextCandidates s) = {}" by simp
  then have "\<forall>i < length (elements s). \<not> isTextCandidate (elements s ! i)"
    unfolding candidates_indices by blast
  then show ?thesis
    by (auto simp: hasTextType_def list_ex_iff in_set_conv_nth elHasTextType_not_candidate)
qed

lemma tagContents_abstains:
  "length (wideTextBoxes cfg rest) < 3 \<Longrightarrow> tagContents cfg s rest = s"
  by (simp add: tagContents_def wideTextBoxes_def Let_def)

lemma autoTag_contents_abstains:
  assumes "length (contentsWideTextBoxes cfg s) < 3"
  shows "hasTextType (autoTagSlideTextTypes cfg s SContents) t \<Longrightarrow> t = TTitle"
proof (cases "getTextCandidates s = []")
  case True
  then show "hasTextType (autoTagSlideTextTypes cfg s SContents) t \<Longrightarrow> t = TTitle"
    by (simp add: autoTagSlideTextTypes_def no_candidates_no_tags)
next
  case False
  obtain s1 scored titleEl where tt: "tagTitle cfg s SContents = (s1, scored, titleEl)"
    by (cases "tagTitle cfg s SContents") auto
  have "length (wideTextBoxes cfg (restOf cfg scored titleEl)) < 3"
    using assms tt by (simp add: contentsWideTextBoxes_def)
  then have "autoTagSlideTextTypes cfg s SContents = s1"
    using False tt by (simp add: autoTagSlideTextTypes_def tagContents_abstains)
  then show "hasTextType (autoTagSlideTextTypes cfg s SContents) t \<Longrightarrow> t = TTitle"
    using tagTitle_only_title [of cfg s SContents t] tt by simp
qed

lemma contentsRow_fresh:
  "contentsRow cfg False False (s, n) i =
     (s\<lparr>elements := elements s @ contentsRowBoxes cfg n i\<rparr>, n + 3)"
  by (simp add: contentsRow_def contentsRowBoxes_def addTextBox_def nanoid_def Let_def)

lemma foldl_contentsRow_fresh:
  "foldl (contentsRow cfg False False) (s, n) [0..<m] =
     (s\<lparr>elements := elements s @ concat (map (\<lambda>i. contentsRowBoxes cfg (n + 3 * i) i) [0..<m])\<rparr>,
      n + 3 * m)"
proof (induction m)
  case 0
  then show ?case by simp
next
  case (Suc m)
  then show ?case by (simp add: contentsRow_fresh)
qed

lemma concat_pairs_length:
  assumes "\<And>j. length (f j) = 2"
  shows "length (concat (map f [0..<m])) = 2 * m"
  by (induction m) (simp_all add: assms)

lemma concat_pairs_nth:
  assumes len: "\<And>j. length (f j) = 2" and i: "i < m"
  shows "concat (map f [0..<m]) ! (2 * i) = f i ! 0"
    and "concat (map f [0..<m]) ! (2 * i + 1) = f i ! 1"
proof -
  have "concat (map f [0..<m]) ! (2 * i) = f i ! 0 \<and> concat (map f [0..<m]) ! (2 * i + 1) = f i ! 1"
    using i
  proof (induction m)
    case 0
    then show ?case by simp
  next
    case (Suc m)
    have l: "length (concat (map f [0..<m])) = 2 * m"
      by (rule concat_pairs_length [OF len])
    show ?case
    proof (cases "i < m")
      case True
      then show ?thesis using Suc.IH l by (simp add: nth_append)
    next
      case False
      then have "i = m" using Suc.prems by simp
      then show ?thesis using l by (simp add: nth_append)
    qed
  qed
  then show "concat (map f [0..<m]) ! (2 * i) = f i ! 0"
    and "concat (map f [0..<m]) ! (2 * i + 1) = f i ! 1"
    by simp_all
qed

lemma contentsRowBoxes_length [simp]: "length (contentsRowBoxes cfg k i) = 2"
  by (simp add: contentsRowBoxes_def)

lemma rows_count:
  "length (filter (elHasTextType TItem) (concat (map (\<lambda>i. contentsRowBoxes cfg (k i) i) [0..<m]))) = m"
  "length (filter (elHasTextType TItemNumber) (concat (map (\<lambda>i. contentsRowBoxes cfg (k i) i) [0..<m]))) = m"
  "filter (elHasTextType TTitle) (concat (map (\<lambda>i. contentsRowBoxes cfg (k i) i) [0..<m])) = []"
  by (induction m) (simp_all add: contentsRowBoxes_def)

lemma rows_nth:
  assumes "i < m"
  shows "concat (map (\<lambda>i. contentsRowBoxes cfg (k i) i) [0..<m]) ! (2 * i) =
           TextEl (newTextBox cfg (contentsNumberBox cfg i (Ident (k i))) (Ident (k i + 1)))"
    and "concat (map (\<lambda>i. contentsRowBoxes cfg (k i) i) [0..<m]) ! (2 * i + 1) =
           TextEl (newTextBox cfg (contentsItemBox cfg i (Ident (k i))) (Ident (k i + 2)))"
  using concat_pairs_nth [of "\<lambda>i. contentsRowBoxes cfg (k i) i" i m] assms
  by (simp_all add: contentsRowBoxes_def)

text \<open>
  Claim C3. When fewer than three boxes pass the list-row filter (wide, short, of
  moderate area) among the boxes the contents branch of the tagger looks at, the tagger
  leaves no element tagged item or itemNumber, and \<^verbatim>\<open>ensurePlaceholders\<close> then appends
  ten itemNumber and ten item text elements and no others with these tags. Row \<open>i\<close> is
  the pair at the positions \<open>2 i\<close> and \<open>2 i + 1\<close> of what is appended; its two elements
  share the group identifier drawn first in the turn of the loop, which differs from
  row to row and from every identifier drawn for an element.
\<close>

theorem contents_abstains_then_ten_rows:
  assumes "length (contentsWideTextBoxes cfg slide) < 3"
  shows "let tagged = autoTagSlideTextTypes cfg slide SContents;
             result = fst (ensurePlaceholders cfg tagged SContents n);
             added = drop (length (elements tagged)) (elements result)
         in \<not> hasTextType tagged TItem \<and> \<not> hasTextType tagged TItemNumber
            \<and> elements result = elements tagged @ added
            \<and> length (filter (elHasTextType TItem) added) = 10
            \<and> length (filter (elHasTextType TItemNumber) added) = 10
            \<and> (\<forall>i<10. \<exists>num item.
                  added ! (2 * i) = TextEl num \<and> added ! (2 * i + 1) = TextEl item
                  \<and> text_textType num = Some TItemNumber \<and> text_textType item = Some TItem
                  \<and> text_groupId num = Some (Ident (n + 3 * i))
                  \<and> text_groupId item = Some (Ident (n + 3 * i))
                  \<and> text_id num = Ident (n + 3 * i + 1)
                  \<and> text_id item = Ident (n + 3 * i + 2))"
proof -
  define tagged where "tagged = autoTagSlideTextTypes cfg slide SContents"
  define rows where "rows = concat (map (\<lambda>i. contentsRowBoxes cfg (n + 3 * i) i) [0..<10])"
  define c where "c =
    \<lparr>box_left = max 40 (viewportSize cfg * 0.06), box_top = max 30 (slideHeight cfg * 0.06),
     box_width = viewportSize cfg - max 40 (viewportSize cfg * 0.06) * 2,
     box_height = slideHeight cfg * 0.14, box_fontSize = 32, box_align = Some ''center'',
     box_textType = TTitle, box_groupId = None\<rparr>"
  define withRows where "withRows = tagged\<lparr>elements := elements tagged @ rows\<rparr>"
  define titleBoxes where "titleBoxes =
    (if hasTextType withRows TTitle then [] else [TextEl (newTextBox cfg c (Ident (n + 30)))])"
  have noItem: "\<not> hasTextType tagged TItem" and noNumber: "\<not> hasTextType tagged TItemNumber"
    using autoTag_contents_abstains [OF assms] by (auto simp: tagged_def)
  have fold: "foldl (contentsRow cfg False False) (tagged, n) [0..<10] = (withRows, n + 30)"
    unfolding withRows_def rows_def by (simp add: foldl_contentsRow_fresh)
  have "fst (ensurePlaceholders cfg tagged SContents n) = fst (addIfMissing cfg c (withRows, n + 30))"
    unfolding ensurePlaceholders_def Let_def SlideType.case c_def
    using noItem noNumber fold by simp
  then have els: "elements (fst (ensurePlaceholders cfg tagged SContents n)) =
      elements tagged @ rows @ titleBoxes"
    by (simp add: addIfMissing_simps c_def titleBoxes_def withRows_def)
  have tb: "filter (elHasTextType TItem) titleBoxes = []"
    "filter (elHasTextType TItemNumber) titleBoxes = []"
    by (simp_all add: titleBoxes_def c_def)
  have len: "length rows = 20"
    unfolding rows_def by (simp add: concat_pairs_length)
  have nth: "\<exists>num item. (rows @ titleBoxes) ! (2 * i) = TextEl num
      \<and> (rows @ titleBoxes) ! (2 * i + 1) = TextEl item
      \<and> text_textType num = Some TItemNumber \<and> text_textType item = Some TItem
      \<and> text_groupId num = Some (Ident (n + 3 * i))
      \<and> text_groupId item = Some (Ident (n + 3 * i))
      \<and> text_id num = Ident (n + 3 * i + 1)
      \<and> text_id item = Ident (n + 3 * i + 2)" if "i < 10" for i
  proof -
    have "(rows @ titleBoxes) ! (2 * i) = rows ! (2 * i)"
      "(rows @ titleBoxes) ! (2 * i + 1) = rows ! (2 * i + 1)"
      using that len by (simp_all add: nth_append)
    then show ?thesis
      unfolding rows_def using rows_nth [OF that, of cfg "\<lambda>i. n + 3 * i"]
      by simp
  qed
  show ?thesis
    unfolding Let_def tagged_def [symmetric] els
    using noItem noNumber tb nth
    by (simp add: rows_def rows_count)
qed

theorem contents_abstains_then_ten_rows_witness:
  "length (contentsWideTextBoxes sampleConfig twoRowSlide) < 3
   \<and> \<not> hasTextType (autoTagSlideTextTypes sampleConfig twoRowSlide SContents) TItem
   \<and> \<not> hasTextType (autoTagSlideTextTypes sampleConfig twoRowSlide SContents) TItemNumber
   \<and> length (filter (elHasTextType TItem)
        (drop (length (elements (autoTagSlideTextTypes sampleConfig twoRowSlide SContents)))
           (elements (fst (ensurePlaceholders sampleConfig
              (autoTagSlideTextTypes sampleConfig twoRowSlide SContents) SContents 0))))) = 10
   \<and> length (filter (elHasTextType TItemNumber)
        (drop (length (elements (autoTagSlideTextTypes sampleConfig twoRowSlide SContents)))
           (elements (fst (ensurePlaceholders sampleConfig
              (autoTagSlideTextTypes sampleConfig twoRowSlide SContents) SContents 0))))) = 10"
proof -
  have h: "length (contentsWideTextBoxes sampleConfig twoRowSlide) < 3"
    by code_simp
  show ?thesis
    using h contents_abstains_then_ten_rows [OF h, of 0] by (simp add: Let_def)
qed

lemma insertBy_filter_length:
  "length (filter P (insertBy cmp x xs)) = length (filter P (x # xs))"
  by (induction xs) auto

lemma sortBy_filter_length:
  "length (filter P (sortBy cmp xs)) = length (filter P xs)"
  by (induction xs) (simp_all add: sortBy_def insertBy_filter_length)

lemma filter_filter_length_le:
  "length (filter P (filter Q xs)) \<le> length (filter P xs)"
  by (induction xs) auto

lemma contentsRegion_filter_le:
  "length (filter P (contentsRegion cfg rest)) \<le> length (filter P rest)"
proof -
  have twice: "length (filter P (filter A (filter B rest))) \<le> length (filter P rest)" for A B
    by (rule order_trans [OF filter_filter_length_le filter_filter_length_le])
  show ?thesis
    unfolding contentsRegion_def Let_def
    by (split if_split, intro conjI impI, rule twice, rule filter_filter_length_le)
qed

lemma restOf_filter_le:
  "length (filter P (restOf cfg scored titleEl)) \<le> length (filter P scored)"
  unfolding restOf_def
  by (rule order_trans [OF filter_filter_length_le filter_filter_length_le])

lemma wideTextBoxes_le:
  "length (wideTextBoxes cfg (restOf cfg scored titleEl))
     \<le> length (filter (\<lambda>s. isWideTextBox cfg (sc_el s)) scored)"
  unfolding wideTextBoxes_def sortBy_filter_length
  by (rule order_trans [OF contentsRegion_filter_le restOf_filter_le])

lemma cleared_elements:
  "elements (foldl (\<lambda>s c. clearTextTypeAt s (fst c)) s (getTextCandidates s)) =
     map clearTextType (elements s)"
proof (rule nth_equalityI)
  show "length (elements (foldl (\<lambda>s c. clearTextTypeAt s (fst c)) s (getTextCandidates s))) =
      length (map clearTextType (elements s))"
    by simp
next
  fix j
  assume "j < length (elements (foldl (\<lambda>s c. clearTextTypeAt s (fst c)) s (getTextCandidates s)))"
  then have j: "j < length (elements s)" by simp
  have "\<not> isTextCandidate e \<Longrightarrow> clearTextType e = e" for e
    by (cases e) (auto split: option.splits)
  then show "elements (foldl (\<lambda>s c. clearTextTypeAt s (fst c)) s (getTextCandidates s)) ! j =
      map clearTextType (elements s) ! j"
    using foldl_clear_nth [OF j, of "getTextCandidates s"] j
    by (auto simp: candidates_indices)
qed

lemma clearTextType_geometry [simp]:
  "isTextCandidate (clearTextType e) = isTextCandidate e"
  "elWidth (clearTextType e) = elWidth e"
  "elHeight (clearTextType e) = elHeight e"
  by (cases e; auto split: option.splits)+

lemma enumerate_map:
  "enumerate k (map f xs) = map (\<lambda>p. (fst p, f (snd p))) (enumerate k xs)"
  by (induction xs arbitrary: k) simp_all

lemma sc_el_mkScored [simp]: "sc_el (mkScored c) = snd c"
  by (simp add: mkScored_def Let_def split_beta)

lemma wide_candidates_cleared:
  assumes "elements s' = map clearTextType (elements s)"
  shows "length (filter (\<lambda>c. isWideTextBox cfg (snd c)) (getTextCandidates s')) =
         length (filter (\<lambda>c. isWideTextBox cfg (snd c)) (getTextCandidates s))"
  unfolding getTextCandidates_def assms enumerate_map
  by (simp add: filter_map o_def split_beta isWideTextBox_def)

text \<open>The boxes the contents branch looks at are among the text candidates of the slide:
  a slide with fewer than three candidates that pass the list-row filter meets the
  hypothesis of the theorem above.\<close>

lemma few_wide_candidates:
  assumes "length (filter (\<lambda>c. isWideTextBox cfg (snd c)) (getTextCandidates slide)) < 3"
  shows "length (contentsWideTextBoxes cfg slide) < 3"
proof -
  let ?cleared = "foldl (\<lambda>s c. clearTextTypeAt s (fst c)) slide (getTextCandidates slide)"
  let ?scored = "sortBy (\<lambda>a b. sc_score b - sc_score a) (map mkScored (getTextCandidates ?cleared))"
  obtain s1 titleEl where tt: "tagTitle cfg slide SContents = (s1, ?scored, titleEl)"
    by (simp add: tagTitle_def Let_def)
  have "length (contentsWideTextBoxes cfg slide)
      \<le> length (filter (\<lambda>s. isWideTextBox cfg (sc_el s)) ?scored)"
    using wideTextBoxes_le [of cfg ?scored titleEl] by (simp add: contentsWideTextBoxes_def tt)
  also have "\<dots> = length (filter (\<lambda>c. isWideTextBox cfg (snd c)) (getTextCandidates ?cleared))"
    by (simp add: sortBy_filter_length filter_map o_def)
  also have "\<dots> = length (filter (\<lambda>c. isWideTextBox cfg (snd c)) (getTextCandidates slide))"
    by (rule wide_candidates_cleared [OF cleared_elements])
  finally show ?thesis using assms by simp
qed

section \<open>Properties of the role assignment\<close>

lemma find_filter: "find P xs = (case filter P xs of [] \<Rightarrow> None | x # _ \<Rightarrow> Some x)"
  by (induction xs) auto

lemma foldl_bestStep_inv:
  "case foldl (bestStep cfg slides used role) None [0..<m] of
     None \<Rightarrow> \<forall>j<m. j \<in> used
   | Some (b, sc) \<Rightarrow> b < m \<and> b \<notin> used \<and> sc = scoreSlideAs cfg (slides ! b) role
       \<and> (\<forall>j<m. j \<notin> used \<longrightarrow> scoreSlideAs cfg (slides ! j) role \<le> sc)
       \<and> (\<forall>j<b. j \<notin> used \<longrightarrow> scoreSlideAs cfg (slides ! j) role < sc)"
proof (induction m)
  case 0
  then show ?case by simp
next
  case (Suc m)
  define best where "best = foldl (bestStep cfg slides used role) None [0..<m]"
  have step: "foldl (bestStep cfg slides used role) None [0..<Suc m] =
      bestStep cfg slides used role best m"
    by (simp add: best_def)
  have IH: "case best of
     None \<Rightarrow> \<forall>j<m. j \<in> used
   | Some (b, sc) \<Rightarrow> b < m \<and> b \<notin> used \<and> sc = scoreSlideAs cfg (slides ! b) role
       \<and> (\<forall>j<m. j \<notin> used \<longrightarrow> scoreSlideAs cfg (slides ! j) role \<le> sc)
       \<and> (\<forall>j<b. j \<notin> used \<longrightarrow> scoreSlideAs cfg (slides ! j) role < sc)"
    using Suc by (simp add: best_def)
  show ?case
  proof (cases best)
    case None
    then show ?thesis
      unfolding step using IH by (auto simp: bestStep_def Let_def less_Suc_eq)
  next
    case (Some p)
    obtain b sc where p: "p = (b, sc)" by (cases p)
    show ?thesis
      unfolding step using IH Some p
      by (auto simp: bestStep_def Let_def less_Suc_eq intro: order_trans less_imp_le)
  qed
qed

lemma unclaimed_set: "set (unclaimed used n) = {i. i < n \<and> i \<notin> used}"
  by (auto simp: unclaimed_def)

lemma pickBestIndex_amended:
  assumes "slides \<noteq> []"
    and fb: "nat (min (max 0 fallbackIndex) (int (length slides) - 1)) = min d (length slides - 1)"
  shows "pickAsAmended cfg slides used role d threshold
           (fst (pickBestIndex cfg slides used role fallbackIndex threshold))"
    and "snd (pickBestIndex cfg slides used role fallbackIndex threshold) =
           insert (fst (pickBestIndex cfg slides used role fallbackIndex threshold)) used"
proof -
  let ?n = "length slides"
  let ?score = "\<lambda>i. scoreSlideAs cfg (slides ! i) role"
  let ?best = "foldl (bestStep cfg slides used role) None [0..<?n]"
  let ?un = "unclaimed used ?n"
  let ?fb = "min d (?n - 1)"
  have inv: "case ?best of
     None \<Rightarrow> \<forall>j<?n. j \<in> used
   | Some (b, sc) \<Rightarrow> b < ?n \<and> b \<notin> used \<and> sc = ?score b
       \<and> (\<forall>j<?n. j \<notin> used \<longrightarrow> ?score j \<le> sc)
       \<and> (\<forall>j<b. j \<notin> used \<longrightarrow> ?score j < sc)"
    by (rule foldl_bestStep_inv)
  have findun: "find (\<lambda>i. i \<notin> used) [0..<?n] = (case ?un of [] \<Rightarrow> None | x # _ \<Rightarrow> Some x)"
    by (simp add: find_filter unclaimed_def)
  have un_nil: "(?un = []) = (\<forall>j<?n. j \<in> used)"
    by (auto simp: unclaimed_def filter_empty_conv)
  have hd_un: "?un \<noteq> [] \<Longrightarrow> hd ?un \<in> set ?un"
    by simp
  show "pickAsAmended cfg slides used role d threshold
           (fst (pickBestIndex cfg slides used role fallbackIndex threshold))"
  proof (cases ?best)
    case None
    then have "?un = []" using inv un_nil by simp
    moreover have "?fb \<in> used"
      using None inv assms(1) by (cases slides) (auto simp: min_def)
    ultimately show ?thesis
      using None findun by (simp add: pickBestIndex_def pickAsAmended_def Let_def fb)
  next
    case (Some p)
    obtain b sc where p: "p = (b, sc)" by (cases p)
    have b: "b < ?n" "b \<notin> used" "sc = ?score b"
      "\<forall>j<?n. j \<notin> used \<longrightarrow> ?score j \<le> sc" "\<forall>j<b. j \<notin> used \<longrightarrow> ?score j < sc"
      using inv Some p by auto
    have ne: "?un \<noteq> []" using b(1,2) un_nil by auto
    have ex: "(\<exists>i \<in> set ?un. ?score i \<ge> threshold) = (sc \<ge> threshold)"
      using b by (auto simp: unclaimed_set intro: order_trans)
    show ?thesis
    proof (cases "sc \<ge> threshold")
      case True
      then show ?thesis
        using Some p b ne ex
        by (auto simp: pickBestIndex_def pickAsAmended_def Let_def unclaimed_set)
    next
      case False
      show ?thesis
      proof (cases "?fb \<in> used")
        case True
        then have "?fb \<notin> set ?un" by (simp add: unclaimed_set)
        moreover obtain x xs where "?un = x # xs" using ne by (cases ?un) auto
        ultimately show ?thesis
          using Some p False True ex ne findun hd_un
          by (auto simp: pickBestIndex_def pickAsAmended_def Let_def fb)
      next
        case notused: False
        have "?fb < ?n" using assms(1) by (cases slides) auto
        then have "?fb \<in> set ?un" using notused by (simp add: unclaimed_set)
        then show ?thesis
          using Some p False notused ex ne
          by (auto simp: pickBestIndex_def pickAsAmended_def Let_def fb)
      qed
    qed
  qed
  show "snd (pickBestIndex cfg slides used role fallbackIndex threshold) =
           insert (fst (pickBestIndex cfg slides used role fallbackIndex threshold)) used"
  proof (cases ?best)
    case None
    have "?fb \<in> used"
      using None inv assms(1) by (cases slides) (auto simp: min_def)
    then show ?thesis
      using None by (auto simp: pickBestIndex_def Let_def fb split: option.splits)
  next
    case (Some p)
    obtain b sc where p: "p = (b, sc)" by (cases p)
    show ?thesis
      using Some p by (auto simp: pickBestIndex_def Let_def fb split: option.splits)
  qed
qed

lemma sampleDeck_roles:
  "assignRoles sampleConfig sampleDeck =
     \<lparr>endIndex = 2, coverIndex = 0, contentsIndex = 1, transitionIndex = 2\<rparr>"
  by code_simp

lemma singleton_roles:
  "assignRoles sampleConfig [thankYouSlide] =
     \<lparr>endIndex = 0, coverIndex = 0, contentsIndex = 0, transitionIndex = 0\<rparr>"
  by code_simp

text \<open>
  Claim C1, as amended. For a deck that is not empty (the caller puts one empty slide in
  the place of an empty deck), the roles are assigned in the order end, cover, contents,
  transition, each against the slides the roles before it have claimed. Each role takes,
  among the slides not yet claimed, the first of the highest score when that score
  reaches the threshold of the role (80, 60, 60, 50); otherwise its positional default
  (the last slide; the first, second and third, cut down to the last index of the deck),
  or the first slide not yet claimed when the default is claimed already. When no slide
  is left to claim, the role takes its default, which another role has claimed.
\<close>

theorem assignRoles_amended:
  assumes "slides \<noteq> []"
  shows "let r = assignRoles cfg slides in
     pickAsAmended cfg slides {} SEnd (length slides - 1) 80 (endIndex r)
     \<and> pickAsAmended cfg slides {endIndex r} SCover 0 60 (coverIndex r)
     \<and> pickAsAmended cfg slides {coverIndex r, endIndex r} SContents 1 60 (contentsIndex r)
     \<and> pickAsAmended cfg slides {contentsIndex r, coverIndex r, endIndex r} STransition 2 50
           (transitionIndex r)"
proof -
  obtain e u1 where p1: "pickBestIndex cfg slides {} SEnd (int (length slides) - 1) 80 = (e, u1)"
    by (cases "pickBestIndex cfg slides {} SEnd (int (length slides) - 1) 80")
  obtain c u2 where p2: "pickBestIndex cfg slides u1 SCover 0 60 = (c, u2)"
    by (cases "pickBestIndex cfg slides u1 SCover 0 60")
  obtain k u3 where p3: "pickBestIndex cfg slides u2 SContents 1 60 = (k, u3)"
    by (cases "pickBestIndex cfg slides u2 SContents 1 60")
  obtain t u4 where p4: "pickBestIndex cfg slides u3 STransition 2 50 = (t, u4)"
    by (cases "pickBestIndex cfg slides u3 STransition 2 50")
  have r: "assignRoles cfg slides =
      \<lparr>endIndex = e, coverIndex = c, contentsIndex = k, transitionIndex = t\<rparr>"
    by (simp add: assignRoles_def Let_def p1 p2 p3 p4)
  have n: "0 < length slides" using assms by simp
  have f1: "nat (min (max 0 (int (length slides) - 1)) (int (length slides) - 1)) =
      min (length slides - 1) (length slides - 1)"
    using n by simp
  have f2: "nat (min (max 0 0) (int (length slides) - 1)) = min 0 (length slides - 1)"
    using n by simp
  have f3: "nat (min (max 0 1) (int (length slides) - 1)) = min 1 (length slides - 1)"
    using n by (auto simp: min_def)
  have f4: "nat (min (max 0 2) (int (length slides) - 1)) = min 2 (length slides - 1)"
    using n by (auto simp: min_def)
  have e: "pickAsAmended cfg slides {} SEnd (length slides - 1) 80 e" and u1: "u1 = {e}"
    using pickBestIndex_amended [OF assms f1, of cfg "{}" SEnd 80] p1 by simp_all
  have c: "pickAsAmended cfg slides {e} SCover 0 60 c" and u2: "u2 = {c, e}"
    using pickBestIndex_amended [OF assms f2, of cfg u1 SCover 60] p2 u1 by simp_all
  have k: "pickAsAmended cfg slides {c, e} SContents 1 60 k" and u3: "u3 = {k, c, e}"
    using pickBestIndex_amended [OF assms f3, of cfg u2 SContents 60] p3 u2 by simp_all
  have t: "pickAsAmended cfg slides {k, c, e} STransition 2 50 t"
    using pickBestIndex_amended [OF assms f4, of cfg u3 STransition 50] p4 u3 by simp_all
  show ?thesis
    using e c k t by (simp add: r Let_def)
qed

theorem assignRoles_amended_witness:
  "sampleDeck \<noteq> []
   \<and> pickAsAmended sampleConfig sampleDeck {} SEnd 2 80 2
   \<and> pickAsAmended sampleConfig sampleDeck {2} SCover 0 60 0
   \<and> pickAsAmended sampleConfig sampleDeck {0, 2} SContents 1 60 1
   \<and> pickAsAmended sampleConfig sampleDeck {1, 0, 2} STransition 2 50 2"
proof -
  have h: "sampleDeck \<noteq> []" by (simp add: sampleDeck_def)
  have l: "length sampleDeck - Suc 0 = 2" by (simp add: sampleDeck_def)
  show ?thesis
    using h assignRoles_amended [OF h, of sampleConfig]
    by (simp add: sampleDeck_roles Let_def l)
qed

text \<open>Claim C1 as it is stated fails on a deck of one slide: the end role claims the
  slide, and the cover role, with no slide left to claim, takes it again.\<close>

theorem assignRoles_stated_counterexample:
  "\<not> pickAsStated sampleConfig [thankYouSlide]
       {endIndex (assignRoles sampleConfig [thankYouSlide])} SCover 0 60
       (coverIndex (assignRoles sampleConfig [thankYouSlide]))"
  by (simp add: singleton_roles pickAsStated_def unclaimed_def Let_def)

section \<open>Properties of the assembly\<close>

lemma setTextTypeAt_type [simp]: "slide_type (setTextTypeAt s i t) = slide_type s"
  by (simp add: setTextTypeAt_def)

lemma clearTextTypeAt_type [simp]: "slide_type (clearTextTypeAt s i) = slide_type s"
  by (simp add: clearTextTypeAt_def)

lemma setTextTypeIfFound_type [simp]: "slide_type (setTextTypeIfFound s found t) = slide_type s"
  by (cases found) (simp_all add: setTextTypeIfFound_def)

lemma foldl_type:
  assumes "\<And>s x. slide_type (f s x) = slide_type s"
  shows "slide_type (foldl f s xs) = slide_type s"
  by (induction xs arbitrary: s) (simp_all add: assms)

lemma tagTitle_type [simp]: "slide_type (fst (tagTitle cfg s role)) = slide_type s"
  by (simp add: tagTitle_def Let_def foldl_type)

lemma tagCoverOrTransition_type [simp]:
  "slide_type (tagCoverOrTransition cfg s rest role) = slide_type s"
  by (simp add: tagCoverOrTransition_def Let_def)

lemma tagRowNumber_type [simp]: "slide_type (tagRowNumber ns s it) = slide_type s"
  by (simp add: tagRowNumber_def Let_def)

lemma tagContents_type [simp]: "slide_type (tagContents cfg s rest) = slide_type s"
  by (simp add: tagContents_def Let_def foldl_type)

lemma tagPair_type [simp]: "slide_type (tagPair ps s i) = slide_type s"
  by (simp add: tagPair_def Let_def)

lemma tagContent_type [simp]: "slide_type (tagContent cfg s rest) = slide_type s"
  by (simp add: tagContent_def Let_def foldl_type split: list.splits)

lemma autoTag_type [simp]: "slide_type (autoTagSlideTextTypes cfg s role) = slide_type s"
  by (cases role) (simp_all add: autoTagSlideTextTypes_def Let_def split_beta)

lemma toTemplateSlide_type [simp]:
  "slide_type (fst (toTemplateSlide cfg s role m)) = Some role"
  by (simp add: toTemplateSlide_def Let_def)

lemma mapWithSupply_length [simp]: "length (fst (mapWithSupply f xs m)) = length xs"
  by (induction xs arbitrary: m) (simp_all add: split_beta Let_def)

lemma mapWithSupply_nth:
  "k < length xs \<Longrightarrow> \<exists>m'. fst (mapWithSupply f xs m) ! k = fst (f (xs ! k) m')"
proof (induction xs arbitrary: m k)
  case Nil
  then show ?case by simp
next
  case (Cons x xs)
  show ?case
  proof (cases k)
    case 0
    then show ?thesis by (auto simp: split_beta Let_def)
  next
    case (Suc j)
    then have "j < length xs" using Cons.prems by simp
    from Cons.IH [OF this, of "snd (f x m)"] show ?thesis
      using Suc by (simp add: split_beta Let_def)
  qed
qed

lemma zip_upt_filter:
  "map fst (filter (\<lambda>(s, i). P i) (zip xs [0..<length xs])) =
     map (\<lambda>i. xs ! i) (filter P [0..<length xs])"
proof -
  have "zip xs [0..<length xs] = map (\<lambda>i. (xs ! i, i)) [0..<length xs]"
    by (rule nth_equalityI) simp_all
  then show ?thesis
    by (simp add: filter_map o_def)
qed

lemma contentSourcesOf_eq:
  "contentSourcesOf src r =
     (let rest = map (\<lambda>i. src ! i)
            (filter (\<lambda>i. i \<notin> {coverIndex r, contentsIndex r, transitionIndex r, endIndex r})
               [0..<length src])
      in if rest = [] then [src ! coverIndex r] else rest)"
  using zip_upt_filter [of "\<lambda>i. i \<notin> {coverIndex r, contentsIndex r, transitionIndex r, endIndex r}" src]
  by (simp add: contentSourcesOf_def Let_def)

text \<open>
  Claim C2. The assembled deck is the cover slide, the contents slide, the transition
  slide, the content slides and the end slide, in this order and with these roles. Each
  is what \<^verbatim>\<open>toTemplateSlide\<close> makes, at some state of the identifier supply, of its source:
  the slide the role claimed and, for the content slides, the source slides no singular
  role claimed, one by one in their order, or the source of the cover alone when every
  slide was claimed. There is always at least one content slide.
\<close>

theorem assembleTemplate_sequence:
  "let src = fst (sourceSlidesOf slides n);
       r = assignRoles cfg src;
       rest = map (\<lambda>i. src ! i)
                (filter (\<lambda>i. i \<notin> {coverIndex r, contentsIndex r, transitionIndex r, endIndex r})
                   [0..<length src]);
       contentSources = (if rest = [] then [src ! coverIndex r] else rest);
       out = fst (assembleTemplate cfg slides n)
   in contentSources \<noteq> []
      \<and> length out = length contentSources + 4
      \<and> (\<exists>m. out ! 0 = fst (toTemplateSlide cfg (src ! coverIndex r) SCover m))
      \<and> (\<exists>m. out ! 1 = fst (toTemplateSlide cfg (src ! contentsIndex r) SContents m))
      \<and> (\<exists>m. out ! 2 = fst (toTemplateSlide cfg (src ! transitionIndex r) STransition m))
      \<and> (\<forall>k < length contentSources.
            \<exists>m. out ! (3 + k) = fst (toTemplateSlide cfg (contentSources ! k) SContent m))
      \<and> (\<exists>m. out ! (3 + length contentSources) = fst (toTemplateSlide cfg (src ! endIndex r) SEnd m))
      \<and> map slide_type out =
          [Some SCover, Some SContents, Some STransition]
          @ replicate (length contentSources) (Some SContent) @ [Some SEnd]"
proof -
  define src where "src = fst (sourceSlidesOf slides n)"
  define n0 where "n0 = snd (sourceSlidesOf slides n)"
  define r where "r = assignRoles cfg src"
  define cs where "cs = contentSourcesOf src r"
  define c where "c = toTemplateSlide cfg (src ! coverIndex r) SCover n0"
  define k where "k = toTemplateSlide cfg (src ! contentsIndex r) SContents (snd c)"
  define t where "t = toTemplateSlide cfg (src ! transitionIndex r) STransition (snd k)"
  define e where "e = toTemplateSlide cfg (src ! endIndex r) SEnd (snd t)"
  define ms where "ms = fst (mapWithSupply (\<lambda>s. toTemplateSlide cfg s SContent) cs (snd e))"
  have out: "fst (assembleTemplate cfg slides n) = [fst c, fst k, fst t] @ ms @ [fst e]"
    by (simp add: assembleTemplate_def Let_def split_beta src_def n0_def r_def cs_def c_def k_def
        t_def e_def ms_def)
  have len: "length ms = length cs" by (simp add: ms_def)
  have ne: "cs \<noteq> []" by (simp add: cs_def contentSourcesOf_def Let_def)
  have nth: "\<exists>m. ms ! j = fst (toTemplateSlide cfg (cs ! j) SContent m)" if "j < length cs" for j
    unfolding ms_def using mapWithSupply_nth [OF that] by blast
  have types: "map slide_type ms = replicate (length cs) (Some SContent)"
  proof (rule nth_equalityI)
    show "length (map slide_type ms) = length (replicate (length cs) (Some SContent))"
      by (simp add: len)
  next
    fix j assume "j < length (map slide_type ms)"
    then have j: "j < length cs" by (simp add: len)
    then obtain m where "ms ! j = fst (toTemplateSlide cfg (cs ! j) SContent m)"
      using nth by blast
    then show "map slide_type ms ! j = replicate (length cs) (Some SContent) ! j"
      using j len by simp
  qed
  have cs_eq: "cs =
      (if map (\<lambda>i. src ! i)
            (filter (\<lambda>i. i \<notin> {coverIndex r, contentsIndex r, transitionIndex r, endIndex r})
               [0..<length src]) = []
       then [src ! coverIndex r]
       else map (\<lambda>i. src ! i)
            (filter (\<lambda>i. i \<notin> {coverIndex r, contentsIndex r, transitionIndex r, endIndex r})
               [0..<length src]))"
    unfolding cs_def contentSourcesOf_eq Let_def by (rule refl)
  have main: "cs \<noteq> []
      \<and> length (fst (assembleTemplate cfg slides n)) = length cs + 4
      \<and> (\<exists>m. fst (assembleTemplate cfg slides n) ! 0 = fst (toTemplateSlide cfg (src ! coverIndex r) SCover m))
      \<and> (\<exists>m. fst (assembleTemplate cfg slides n) ! 1 = fst (toTemplateSlide cfg (src ! contentsIndex r) SContents m))
      \<and> (\<exists>m. fst (assembleTemplate cfg slides n) ! 2 = fst (toTemplateSlide cfg (src ! transitionIndex r) STransition m))
      \<and> (\<forall>j < length cs.
            \<exists>m. fst (assembleTemplate cfg slides n) ! (3 + j) = fst (toTemplateSlide cfg (cs ! j) SContent m))
      \<and> (\<exists>m. fst (assembleTemplate cfg slides n) ! (3 + length cs) = fst (toTemplateSlide cfg (src ! endIndex r) SEnd m))
      \<and> map slide_type (fst (assembleTemplate cfg slides n)) =
          [Some SCover, Some SContents, Some STransition]
          @ replicate (length cs) (Some SContent) @ [Some SEnd]"
    unfolding out
    using ne len nth types
    by (auto simp: nth_append c_def k_def t_def e_def nth_Cons')
  from main show ?thesis
    unfolding Let_def cs_eq src_def r_def .
qed

theorem assembleTemplate_sequence_witness:
  "length (fst (assembleTemplate sampleConfig sampleDeck 0)) = 5
   \<and> map slide_type (fst (assembleTemplate sampleConfig sampleDeck 0)) =
        [Some SCover, Some SContents, Some STransition, Some SContent, Some SEnd]"
proof -
  have src: "sourceSlidesOf sampleDeck 0 = (sampleDeck, 0)"
    by (simp add: sourceSlidesOf_def sampleDeck_def)
  have len: "length sampleDeck = 3"
    by (simp add: sampleDeck_def)
  have upt: "[0..<3] = [0, 1, 2]"
    by (simp add: upt_rec)
  show ?thesis
    using assembleTemplate_sequence [where slides = sampleDeck and n = 0 and cfg = sampleConfig]
    by (simp add: Let_def src sampleDeck_roles len upt)
qed

section \<open>Properties of the table translator\<close>

text \<open>A rounding with relative error at most \<open>u\<close>, on a number that is not negative.\<close>

lemma rnd_bounds:
  fixes r :: "real \<Rightarrow> real"
  assumes err: "\<And>x. \<bar>r x - x\<bar> \<le> u * \<bar>x\<bar>" and x: "0 \<le> x"
  shows "(1 - u) * x \<le> r x" and "r x \<le> (1 + u) * x"
  using err [of x] x by (simp_all add: abs_le_iff algebra_simps)

lemma sum_list_pos_nonneg: "\<forall>w \<in> set ws. 0 < w \<Longrightarrow> 0 \<le> sum_list ws" for ws :: "real list"
  by (induction ws) auto

lemma sum_list_pos: "ws \<noteq> [] \<Longrightarrow> \<forall>w \<in> set ws. 0 < w \<Longrightarrow> 0 < sum_list ws" for ws :: "real list"
  using sum_list_pos_nonneg [of "tl ws"] by (cases ws) (auto intro: add_pos_nonneg)

text \<open>The total of \<open>n\<close> positive widths, each addition rounded, is the exact total up to
  the factor \<open>(1 \<plusminus> u) ^ n\<close>.\<close>

lemma foldl_rnd_bounds:
  fixes r :: "real \<Rightarrow> real"
  assumes err: "\<And>x. \<bar>r x - x\<bar> \<le> u * \<bar>x\<bar>" and u: "0 \<le> u" "u < 1"
  shows "\<forall>w \<in> set ws. 0 < w \<Longrightarrow> 0 \<le> a \<Longrightarrow>
     (1 - u) ^ length ws * (a + sum_list ws) \<le> foldl (\<lambda>a b. r (a + b)) a ws
     \<and> foldl (\<lambda>a b. r (a + b)) a ws \<le> (1 + u) ^ length ws * (a + sum_list ws)"
proof (induction ws arbitrary: a)
  case Nil
  then show ?case by simp
next
  case (Cons w ws)
  let ?n = "length ws" and ?S = "sum_list ws"
  have w: "0 < w" and pos: "\<forall>w \<in> set ws. 0 < w" using Cons.prems by simp_all
  have S: "0 \<le> ?S" using pos by (rule sum_list_pos_nonneg)
  have aw: "0 \<le> a + w" using w Cons.prems by simp
  have lo: "(1 - u) * (a + w) \<le> r (a + w)" and hi: "r (a + w) \<le> (1 + u) * (a + w)"
    using rnd_bounds [of r u "a + w", OF err aw] by simp_all
  have a': "0 \<le> r (a + w)"
  proof -
    have "0 \<le> (1 - u) * (a + w)" using u aw by simp
    then show ?thesis using lo by linarith
  qed
  have ih: "(1 - u) ^ ?n * (r (a + w) + ?S) \<le> foldl (\<lambda>a b. r (a + b)) (r (a + w)) ws"
    "foldl (\<lambda>a b. r (a + b)) (r (a + w)) ws \<le> (1 + u) ^ ?n * (r (a + w) + ?S)"
    using Cons.IH [OF pos a'] by simp_all
  have l1: "(1 - u) * (a + w + ?S) \<le> r (a + w) + ?S"
  proof -
    have "(1 - u) * ?S \<le> ?S" using u S by (simp add: mult_left_le_one_le)
    then show ?thesis using lo by (simp add: algebra_simps)
  qed
  have h1: "r (a + w) + ?S \<le> (1 + u) * (a + w + ?S)"
  proof -
    have "?S \<le> (1 + u) * ?S" using u S by (simp add: algebra_simps)
    then show ?thesis using hi by (simp add: algebra_simps)
  qed
  have pl: "0 \<le> (1 - u) ^ ?n" and ph: "0 \<le> (1 + u) ^ ?n" using u by simp_all
  have "(1 - u) ^ ?n * ((1 - u) * (a + w + ?S)) \<le> (1 - u) ^ ?n * (r (a + w) + ?S)"
    using l1 pl by (rule mult_left_mono)
  moreover have "(1 + u) ^ ?n * (r (a + w) + ?S) \<le> (1 + u) ^ ?n * ((1 + u) * (a + w + ?S))"
    using h1 ph by (rule mult_left_mono)
  ultimately show ?case using ih by (simp add: algebra_simps)
qed

lemma sum_list_map_bounds:
  fixes f g :: "real \<Rightarrow> real"
  shows "\<forall>w \<in> set ws. f w \<le> g w \<Longrightarrow> sum_list (map f ws) \<le> sum_list (map g ws)"
  by (induction ws) (auto intro: add_mono)

lemma sum_list_map_scale: "sum_list (map (\<lambda>w. c * (w / t)) ws) = c * (sum_list ws / t)"
  for c t :: real
  by (induction ws) (simp_all add: algebra_simps add_divide_distrib)

lemma colWidthFractions_bounds:
  assumes err: "\<And>x. \<bar>rnd fl x - x\<bar> \<le> u * \<bar>x\<bar>" and u: "0 \<le> u" "u < 1"
    and ne: "ws \<noteq> []" and pos: "\<forall>w \<in> set ws. 0 < w"
  shows "(1 - u) / (1 + u) ^ length ws \<le> sum_list (colWidthFractions fl ws)"
    and "sum_list (colWidthFractions fl ws) \<le> (1 + u) / (1 - u) ^ length ws"
proof -
  let ?r = "rnd fl" and ?n = "length ws" and ?S = "sum_list ws"
  define T where "T = foldl (\<lambda>a b. ?r (a + b)) 0 ws"
  have S: "0 < ?S" using ne pos by (rule sum_list_pos)
  have T: "(1 - u) ^ ?n * ?S \<le> T" "T \<le> (1 + u) ^ ?n * ?S"
    using foldl_rnd_bounds [of ?r u ws 0, OF err u pos] by (simp_all add: T_def)
  have pl: "0 < (1 - u) ^ ?n" and ph: "0 < (1 + u) ^ ?n" using u by simp_all
  have Tpos: "0 < T"
  proof -
    have "0 < (1 - u) ^ ?n * ?S" using pl S by simp
    then show ?thesis using T(1) by linarith
  qed
  have fr: "colWidthFractions fl ws = map (\<lambda>w. ?r (w / T)) ws"
    by (simp add: colWidthFractions_def T_def)
  have each: "\<forall>w \<in> set ws. (1 - u) * (w / T) \<le> ?r (w / T) \<and> ?r (w / T) \<le> (1 + u) * (w / T)"
  proof
    fix w assume "w \<in> set ws"
    then have "0 \<le> w / T" using pos Tpos by (simp add: less_imp_le)
    then show "(1 - u) * (w / T) \<le> ?r (w / T) \<and> ?r (w / T) \<le> (1 + u) * (w / T)"
      using rnd_bounds [of ?r u "w / T", OF err] by simp
  qed
  have "sum_list (map (\<lambda>w. (1 - u) * (w / T)) ws) \<le> sum_list (map (\<lambda>w. ?r (w / T)) ws)"
    by (rule sum_list_map_bounds) (use each in blast)
  then have lo: "(1 - u) * (?S / T) \<le> sum_list (colWidthFractions fl ws)"
    unfolding sum_list_map_scale fr .
  have "sum_list (map (\<lambda>w. ?r (w / T)) ws) \<le> sum_list (map (\<lambda>w. (1 + u) * (w / T)) ws)"
    by (rule sum_list_map_bounds) (use each in blast)
  then have hi: "sum_list (colWidthFractions fl ws) \<le> (1 + u) * (?S / T)"
    unfolding sum_list_map_scale fr .
  have q1: "1 / (1 + u) ^ ?n \<le> ?S / T"
    using T(2) Tpos ph S by (simp add: field_simps)
  have q2: "?S / T \<le> 1 / (1 - u) ^ ?n"
    using T(1) Tpos pl S by (simp add: field_simps)
  have "(1 - u) * (1 / (1 + u) ^ ?n) \<le> (1 - u) * (?S / T)"
    using q1 u by (intro mult_left_mono) simp_all
  then show "(1 - u) / (1 + u) ^ ?n \<le> sum_list (colWidthFractions fl ws)"
    using lo by simp
  have "(1 + u) * (?S / T) \<le> (1 + u) * (1 / (1 - u) ^ ?n)"
    using q2 u by (intro mult_left_mono) simp_all
  then show "sum_list (colWidthFractions fl ws) \<le> (1 + u) / (1 - u) ^ ?n"
    using hi by simp
qed

text \<open>The fractions of \<open>n\<close> columns sum to 1 within \<open>1 / (1 - u) ^ (n + 1) - 1\<close>, which
  is about \<open>(n + 1) * u\<close>.\<close>

lemma colWidthFractions_epsilon:
  assumes err: "\<And>x. \<bar>rnd fl x - x\<bar> \<le> u * \<bar>x\<bar>" and u: "0 \<le> u" "u < 1"
    and ne: "ws \<noteq> []" and pos: "\<forall>w \<in> set ws. 0 < w"
  shows "\<bar>sum_list (colWidthFractions fl ws) - 1\<bar> \<le> 1 / (1 - u) ^ (length ws + 1) - 1"
proof -
  let ?n = "length ws" and ?s = "sum_list (colWidthFractions fl ws)"
  define p where "p = (1 - u) ^ (?n + 1)"
  have p: "0 < p" "p \<le> 1"
    unfolding p_def using u by (simp, intro power_le_one, simp_all)
  have pl: "0 < (1 - u) ^ ?n" and ph: "0 < (1 + u) ^ ?n" using u by simp_all
  have b: "(1 - u) / (1 + u) ^ ?n \<le> ?s" "?s \<le> (1 + u) / (1 - u) ^ ?n"
    using colWidthFractions_bounds [OF err u ne pos] by simp_all
  have sq: "(1 - u) * (1 + u) = 1 - u * u" by (simp add: algebra_simps)
  have m: "0 \<le> (1 - u) * (1 + u)" "(1 - u) * (1 + u) \<le> 1"
    using u by (simp, simp add: sq)
  have "((1 - u) * (1 + u)) ^ ?n \<le> 1"
    using m by (rule power_le_one)
  then have "(1 - u) ^ ?n * (1 + u) ^ ?n \<le> 1" by (simp add: power_mult_distrib)
  then have "(1 - u) ^ ?n \<le> 1 / (1 + u) ^ ?n" using ph by (simp add: field_simps)
  then have "(1 - u) * (1 - u) ^ ?n \<le> (1 - u) * (1 / (1 + u) ^ ?n)"
    using u by (intro mult_left_mono) simp_all
  then have lo: "p \<le> ?s" using b(1) by (simp add: p_def)
  have "(1 + u) * (1 - u) \<le> 1" using m(2) by (simp add: mult.commute)
  then have "(1 + u) * (1 - u) / p \<le> 1 / p" using p by (simp add: divide_right_mono)
  moreover have "(1 + u) * (1 - u) / p = (1 + u) / (1 - u) ^ ?n" using u by (simp add: p_def)
  ultimately have hi: "?s \<le> 1 / p" using b(2) by simp
  have "0 \<le> (p - 1) * (p - 1)" by simp
  then have "2 * p \<le> p * p + 1" by (simp add: algebra_simps)
  then have "2 \<le> p + 1 / p" using p by (simp add: field_simps)
  then have "1 - p \<le> 1 / p - 1" by simp
  then show ?thesis using lo hi by (simp add: abs_le_iff p_def)
qed

lemma parseTableRow_cells:
  "parseTableRow fl cellDom ratio cells col n = Inr (rowCells, n') \<Longrightarrow>
   length rowCells = col \<and> col \<le> length cells \<and> n' = n + col \<and>
   (\<forall>j < col. rowCells ! j = parseTableCell fl cellDom ratio (cells ! j) (Ident (n + j)))"
proof (induction cells arbitrary: col n rowCells n')
  case Nil
  then show ?case by (cases col) simp_all
next
  case (Cons cellData cells)
  show ?case
  proof (cases col)
    case 0
    then show ?thesis using Cons.prems by simp
  next
    case (Suc c)
    from Cons.prems Suc obtain rest where
      rest: "parseTableRow fl cellDom ratio cells c (Suc n) = Inr (rest, n')"
      and rc: "rowCells = parseTableCell fl cellDom ratio cellData (Ident n) # rest"
      by (auto simp: nanoid_def split: sum.splits)
    have ih: "length rest = c" "c \<le> length cells" "n' = Suc n + c"
      "\<forall>j < c. rest ! j = parseTableCell fl cellDom ratio (cells ! j) (Ident (Suc n + j))"
      using Cons.IH [OF rest] by simp_all
    show ?thesis
      using ih rc Suc by (auto simp: nth_Cons' less_Suc_eq_0_disj)
  qed
qed

lemma parseTableRows_rows:
  "parseTableRows fl cellDom ratio rows col n = Inr (data, n') \<Longrightarrow>
   length data = length rows \<and>
   (\<forall>i < length rows. length (data ! i) = col \<and> col \<le> length (rows ! i) \<and>
      (\<forall>j < col. \<exists>newId. data ! i ! j = parseTableCell fl cellDom ratio (rows ! i ! j) newId))"
proof (induction rows arbitrary: n data n')
  case Nil
  then show ?case by simp
next
  case (Cons cells rows)
  from Cons.prems obtain rowCells s1 rest where
    row: "parseTableRow fl cellDom ratio cells col n = Inr (rowCells, s1)"
    and rest: "parseTableRows fl cellDom ratio rows col s1 = Inr (rest, n')"
    and data: "data = rowCells # rest"
    by (auto split: sum.splits)
  have r: "length rowCells = col" "col \<le> length cells"
    "\<forall>j < col. rowCells ! j = parseTableCell fl cellDom ratio (cells ! j) (Ident (n + j))"
    using parseTableRow_cells [OF row] by simp_all
  show ?case
    using Cons.IH [OF rest] r data by (auto simp: nth_Cons' )
qed

lemma parseTableCell_spans [simp]:
  "cell_colspan (parseTableCell fl cellDom ratio cellData newId) =
     (case src_colSpan cellData of None \<Rightarrow> 1 | Some c \<Rightarrow> if c = 0 then 1 else c)"
  "cell_rowspan (parseTableCell fl cellDom ratio cellData newId) =
     (case src_rowSpan cellData of None \<Rightarrow> 1 | Some c \<Rightarrow> if c = 0 then 1 else c)"
  by (simp_all add: parseTableCell_def Let_def)

text \<open>
  Claim C6, as amended. For every table the translator accepts, in an arithmetic whose
  rounding has a relative error of at most \<open>u < 1\<close> (for doubles \<open>u\<close> is \<open>2 ^ -53\<close>,
  short of overflow and underflow; \<open>u = 0\<close> is exact arithmetic): the column-width
  fractions are the source widths divided by their total, and when the table has a
  column and every source width is positive they sum to 1 within
  \<open>1 / (1 - u) ^ (n + 1) - 1\<close>, \<open>n\<close> being the number of columns; the table has the rows
  of its source; and the colspan and the rowspan of every cell are the \<^verbatim>\<open>colSpan\<close> and
  \<^verbatim>\<open>rowSpan\<close> of the source cell when the source cell has them and they are not zero,
  and 1 otherwise.
\<close>

theorem parseTable_fractions_and_spans:
  assumes ok: "parseTable fl cellDom ratio el n = Inr (t, n')"
    and err: "\<And>x. \<bar>rnd fl x - x\<bar> \<le> u * \<bar>x\<bar>" and u: "0 \<le> u" "u < 1"
  shows "table_colWidths t =
           map (\<lambda>w. rnd fl (w / foldl (\<lambda>a b. rnd fl (a + b)) 0 (tbl_colWidths el))) (tbl_colWidths el)
     \<and> (tbl_colWidths el \<noteq> [] \<and> (\<forall>w \<in> set (tbl_colWidths el). 0 < w) \<longrightarrow>
            \<bar>sum_list (table_colWidths t) - 1\<bar> \<le> 1 / (1 - u) ^ (length (tbl_colWidths el) + 1) - 1)
     \<and> length (table_data t) = length (tbl_data el)
     \<and> (\<forall>i < length (tbl_data el). \<forall>j < length (hd (tbl_data el)).
           cell_colspan (table_data t ! i ! j) =
             (case src_colSpan (tbl_data el ! i ! j) of None \<Rightarrow> 1 | Some c \<Rightarrow> if c = 0 then 1 else c)
           \<and> cell_rowspan (table_data t ! i ! j) =
             (case src_rowSpan (tbl_data el ! i ! j) of None \<Rightarrow> 1 | Some c \<Rightarrow> if c = 0 then 1 else c))"
proof -
  from ok obtain firstRow rows data s1 where
    d: "tbl_data el = firstRow # rows"
    and rowsOk: "parseTableRows fl cellDom ratio (tbl_data el) (length firstRow) n = Inr (data, s1)"
    and cw: "table_colWidths t = colWidthFractions fl (tbl_colWidths el)"
    and td: "table_data t = data"
    by (auto simp: parseTable_def Let_def nanoid_def split: list.splits sum.splits)
  have rows: "length data = length (tbl_data el)"
    "\<forall>i < length (tbl_data el). \<forall>j < length firstRow.
       \<exists>newId. data ! i ! j = parseTableCell fl cellDom ratio (tbl_data el ! i ! j) newId"
    using parseTableRows_rows [OF rowsOk] by auto
  have hd: "hd (tbl_data el) = firstRow" using d by simp
  have spans: "cell_colspan (data ! i ! j) =
       (case src_colSpan (tbl_data el ! i ! j) of None \<Rightarrow> 1 | Some c \<Rightarrow> if c = 0 then 1 else c)
     \<and> cell_rowspan (data ! i ! j) =
       (case src_rowSpan (tbl_data el ! i ! j) of None \<Rightarrow> 1 | Some c \<Rightarrow> if c = 0 then 1 else c)"
    if "i < length (tbl_data el)" "j < length firstRow" for i j
  proof -
    have "\<exists>newId. data ! i ! j = parseTableCell fl cellDom ratio (tbl_data el ! i ! j) newId"
      using rows(2) that by simp
    then show ?thesis by auto
  qed
  have fr: "table_colWidths t =
      map (\<lambda>w. rnd fl (w / foldl (\<lambda>a b. rnd fl (a + b)) 0 (tbl_colWidths el))) (tbl_colWidths el)"
    by (simp add: cw colWidthFractions_def)
  have eps: "\<bar>sum_list (table_colWidths t) - 1\<bar> \<le> 1 / (1 - u) ^ (length (tbl_colWidths el) + 1) - 1"
    if "tbl_colWidths el \<noteq> []" "\<forall>w \<in> set (tbl_colWidths el). 0 < w"
    unfolding cw using err u that by (rule colWidthFractions_epsilon)
  show ?thesis
    using fr eps rows(1) spans by (simp add: td hd)
qed

lemma sampleTable_result:
  "\<exists>t n'. parseTable exactArith sampleCellDom 1 sampleTable 0 = Inr (t, n')
     \<and> map (map cell_colspan) (table_data t) = [[2, 1]]
     \<and> table_colWidths t = [1 / 4, 3 / 4]"
  by (simp add: parseTable_def sampleTable_def sampleCell_def sampleCellDom_def sampleBorders_def
      nanoid_def Let_def parseTableCell_def colWidthFractions_def exactArith_def)

text \<open>A table of one row and two columns of widths 1 and 3, the first cell spanning two
  columns and the second without spans, in exact arithmetic: the fractions sum to 1.\<close>

theorem parseTable_fractions_and_spans_witness:
  "case parseTable exactArith sampleCellDom 1 sampleTable 0 of
     Inl err \<Rightarrow> False
   | Inr (t, n') \<Rightarrow>
       tbl_colWidths sampleTable \<noteq> [] \<and> sum_list (table_colWidths t) = 1
       \<and> map (map cell_colspan) (table_data t) = [[2, 1]]"
proof -
  obtain t n' where r: "parseTable exactArith sampleCellDom 1 sampleTable 0 = Inr (t, n')"
    and spans: "map (map cell_colspan) (table_data t) = [[2, 1]]"
    using sampleTable_result by auto
  have pos: "tbl_colWidths sampleTable \<noteq> [] \<and> (\<forall>w \<in> set (tbl_colWidths sampleTable). 0 < w)"
    by (simp add: sampleTable_def)
  have e: "\<bar>rnd exactArith x - x\<bar> \<le> 0 * \<bar>x\<bar>" for x by (simp add: exactArith_def)
  have "\<bar>sum_list (table_colWidths t) - 1\<bar>
      \<le> 1 / (1 - 0) ^ (length (tbl_colWidths sampleTable) + 1) - 1"
    using parseTable_fractions_and_spans [OF r e order_refl zero_less_one] pos by blast
  then have "sum_list (table_colWidths t) = 1" by simp
  then show ?thesis
    using pos spans by (simp add: r)
qed

text \<open>Claim C6 as it is stated fails for a cell without \<^verbatim>\<open>colSpan\<close>: its colspan in the
  output is 1.\<close>

theorem parseTable_spans_counterexample:
  "case parseTable exactArith sampleCellDom 1 sampleTable 0 of
     Inl err \<Rightarrow> False
   | Inr (t, n') \<Rightarrow>
       Some (cell_colspan (table_data t ! 0 ! 1)) \<noteq> src_colSpan (tbl_data sampleTable ! 0 ! 1)"
proof -
  obtain t n' where r: "parseTable exactArith sampleCellDom 1 sampleTable 0 = Inr (t, n')"
    and spans: "map (map cell_colspan) (table_data t) = [[2, 1]]"
    using sampleTable_result by auto
  have "cell_colspan (table_data t ! 0 ! 1) = 1"
    using spans by (cases "table_data t") (auto simp: map_eq_Cons_conv)
  then show ?thesis
    unfolding r by (simp add: sampleTable_def sampleCell_def)
qed

section \<open>Properties of the entry points\<close>

text \<open>
  Claim C9, as amended. Called with an empty list of files, \<^verbatim>\<open>importPPTXFile\<close> returns
  without an error and without a change of the state, and \<^verbatim>\<open>parsePPTXTemplate\<close> reads
  nothing and throws the error \<^verbatim>\<open>no file\<close>.
\<close>

theorem empty_file_list:
  "importPPTXFile [] st = st
   \<and> parsePPTXTemplate env parse cfg fixedViewport [] supply = Inl (Error ''no file'')"
  by (simp add: importPPTXFile_def parsePPTXTemplate_def)

theorem empty_file_list_witness:
  "importPPTXFile [] sampleHookState = sampleHookState
   \<and> parsePPTXTemplate sampleEnv sampleParse sampleConfig True [] 0 = Inl (Error ''no file'')"
  using empty_file_list [of sampleHookState sampleEnv sampleParse sampleConfig True 0] by simp

text \<open>Claim C9 as it is stated fails for the entry point that parses a template: with no
  file it throws.\<close>

theorem parsePPTXTemplate_empty_counterexample:
  "\<exists>err. parsePPTXTemplate sampleEnv sampleParse sampleConfig True [] 0 = Inl err"
  by (simp add: parsePPTXTemplate_def)

section \<open>Properties of the writes\<close>

lemma pushed_Inr:
  "pushed el r = Inr (arr, out, n) \<Longrightarrow> \<exists>arr'. r = Inr (arr', out, n) \<and> arr = el # arr'"
  by (auto simp: pushed_def split: sum.splits)

text \<open>The array \<^verbatim>\<open>parseElements\<close> was given holds, after the call, the same elements in
  the order of \<^verbatim>\<open>order\<close>, each with its geometry scaled.\<close>

lemma parseElements_array:
  "parseElements env ratio els out n = Inr (arr, out', n') \<Longrightarrow>
     arr = map (scaleElement (env_arith env) ratio) (sortBy byOrder els)"
  "parseSorted env ratio els out n = Inr (arr, out', n') \<Longrightarrow>
     arr = map (scaleElement (env_arith env) ratio) els"
proof (induction env ratio els out n and env ratio els out n arbitrary: arr out' n' and arr out' n'
    rule: parseElements_parseSorted.induct)
  case (1 env ratio els out n)
  then show ?case by simp
next
  case (2 env ratio out n)
  then show ?case by simp
next
  case (3 env ratio g cs rest out n)
  from "3.prems" obtain a1 o1 n1 where
    c: "parseElements env ratio (groupChildren env g cs) out n = Inr (a1, o1, n1)"
    and r: "pushed (SrcGroup (scaleBase (env_arith env) ratio g) cs) (parseSorted env ratio rest o1 n1)
              = Inr (arr, out', n')"
    by (auto split: sum.splits)
  from pushed_Inr [OF r] obtain arr' where
    "parseSorted env ratio rest o1 n1 = Inr (arr', out', n')"
    and "arr = SrcGroup (scaleBase (env_arith env) ratio g) cs # arr'" by blast
  then show ?case using "3.IH"(2) [OF c refl refl] by simp
next
  case (4 env ratio d cs rest out n)
  from "4.prems" obtain a1 o1 n1 where
    c: "parseElements env ratio (diagramChildren env d cs) out n = Inr (a1, o1, n1)"
    and r: "pushed (SrcDiagram (scaleBase (env_arith env) ratio d) cs) (parseSorted env ratio rest o1 n1)
              = Inr (arr, out', n')"
    by (auto split: sum.splits)
  from pushed_Inr [OF r] obtain arr' where
    "parseSorted env ratio rest o1 n1 = Inr (arr', out', n')"
    and "arr = SrcDiagram (scaleBase (env_arith env) ratio d) cs # arr'" by blast
  then show ?case using "4.IH"(2) [OF c refl refl] by simp
next
  case (5 env ratio s p rest out n)
  let ?el = "scaleElement (env_arith env) ratio (SrcShape s p)"
  from "5.prems" obtain els1 n1 where
    c: "translateLeaf env ratio ?el n = Inr (els1, n1)"
    and r: "pushed ?el (parseSorted env ratio rest (out @ els1) n1) = Inr (arr, out', n')"
    by (auto split: sum.splits)
  from pushed_Inr [OF r] obtain arr' where
    "parseSorted env ratio rest (out @ els1) n1 = Inr (arr', out', n')" and "arr = ?el # arr'"
    by blast
  then show ?case using "5.IH" [OF c refl] by simp
next
  case (6 env ratio t rest out n)
  let ?el = "scaleElement (env_arith env) ratio (SrcTable t)"
  from "6.prems" obtain els1 n1 where
    c: "translateLeaf env ratio ?el n = Inr (els1, n1)"
    and r: "pushed ?el (parseSorted env ratio rest (out @ els1) n1) = Inr (arr, out', n')"
    by (auto split: sum.splits)
  from pushed_Inr [OF r] obtain arr' where
    "parseSorted env ratio rest (out @ els1) n1 = Inr (arr', out', n')" and "arr = ?el # arr'"
    by blast
  then show ?case using "6.IH" [OF c refl] by simp
next
  case (7 env ratio b p rest out n)
  let ?el = "scaleElement (env_arith env) ratio (SrcOther b p)"
  from "7.prems" obtain els1 n1 where
    c: "translateLeaf env ratio ?el n = Inr (els1, n1)"
    and r: "pushed ?el (parseSorted env ratio rest (out @ els1) n1) = Inr (arr, out', n')"
    by (auto split: sum.splits)
  from pushed_Inr [OF r] obtain arr' where
    "parseSorted env ratio rest (out @ els1) n1 = Inr (arr', out', n')" and "arr = ?el # arr'"
    by blast
  then show ?case using "7.IH" [OF c refl] by simp
qed

text \<open>Writes to cells of a list, one after the other.\<close>

lemma foldl_update_length [simp]:
  "length (foldl (\<lambda>cells (e, v). cells[e := v]) cells ps) = length cells"
  by (induction ps arbitrary: cells) auto

lemma foldl_update_take:
  "\<forall>(e, v) \<in> set ps. n0 \<le> e \<Longrightarrow>
     take n0 (foldl (\<lambda>cells (e, v). cells[e := v]) cells ps) = take n0 cells"
  by (induction ps arbitrary: cells) auto

lemma foldl_update_other:
  "e \<notin> fst ` set ps \<Longrightarrow> foldl (\<lambda>cells (e, v). cells[e := v]) cells ps ! e = cells ! e"
  by (induction ps arbitrary: cells) auto

lemma foldl_update_hit:
  "distinct (map fst ps) \<Longrightarrow> (e, v) \<in> set ps \<Longrightarrow> e < length cells \<Longrightarrow>
     foldl (\<lambda>cells (e, v). cells[e := v]) cells ps ! e = v"
proof (induction ps arbitrary: cells)
  case Nil
  then show ?case by simp
next
  case (Cons p ps)
  show ?case
  proof (cases "p = (e, v)")
    case True
    then have "e \<notin> fst ` set ps" using Cons.prems(1) by auto
    then show ?thesis using True Cons.prems(3) by (simp add: foldl_update_other)
  next
    case False
    then have "(e, v) \<in> set ps" using Cons.prems(2) by simp
    then show ?thesis using Cons.IH [of "cells[fst p := snd p]"] Cons.prems by (simp add: split_beta)
  qed
qed

lemma writeSlide_slides:
  "length (slideObjects (writeSlide a s h)) = length (slideObjects h)"
  "take a (slideObjects (writeSlide a s h)) = take a (slideObjects h)"
  by (simp_all add: writeSlide_def Let_def)

lemma writeSlide_elements:
  assumes "ownsAbove h a n0"
  shows "take n0 (elementObjects (writeSlide a s h)) = take n0 (elementObjects h)"
    and "length (elementObjects h) \<le> length (elementObjects (writeSlide a s h))"
proof -
  let ?kept = "take (length (elements s)) (obj_elements (slideObjects h ! a))"
  have "\<forall>(e, v) \<in> set (zip ?kept (elements s)). n0 \<le> e"
    using assms by (auto simp: ownsAbove_def dest!: set_zip_leftD in_set_takeD)
  then have "take n0 (foldl (\<lambda>cells (e, v). cells[e := v]) (elementObjects h) (zip ?kept (elements s)))
      = take n0 (elementObjects h)"
    by (rule foldl_update_take)
  moreover have "n0 \<le> length (elementObjects h)"
    using assms by (simp add: ownsAbove_def)
  ultimately show "take n0 (elementObjects (writeSlide a s h)) = take n0 (elementObjects h)"
    by (simp add: writeSlide_def Let_def)
  show "length (elementObjects h) \<le> length (elementObjects (writeSlide a s h))"
    by (simp add: writeSlide_def Let_def)
qed

lemma writeSlide_owns:
  assumes "ownsAbove h a n0"
  shows "ownsAbove (writeSlide a s h) a n0"
proof -
  let ?old = "obj_elements (slideObjects h ! a)"
  let ?n = "length (elementObjects h)"
  let ?added = "drop (length ?old) (elements s)"
  have a: "a < length (slideObjects h)" and d: "distinct ?old"
    and b: "\<forall>e \<in> set ?old. n0 \<le> e \<and> e < ?n" and n0: "n0 \<le> ?n"
    using assms by (simp_all add: ownsAbove_def)
  have new: "obj_elements (slideObjects (writeSlide a s h) ! a)
      = take (length (elements s)) ?old @ [?n ..< ?n + length ?added]"
    using a by (simp add: writeSlide_def Let_def)
  have len: "length (elementObjects (writeSlide a s h)) = ?n + length ?added"
    by (simp add: writeSlide_def Let_def)
  have "distinct (take (length (elements s)) ?old @ [?n ..< ?n + length ?added])"
    using d b by (auto dest!: in_set_takeD)
  moreover have "\<forall>e \<in> set (take (length (elements s)) ?old @ [?n ..< ?n + length ?added]).
      n0 \<le> e \<and> e < ?n + length ?added"
    using b n0 by (auto dest!: in_set_takeD)
  ultimately show ?thesis
    using a n0 by (simp add: ownsAbove_def new len writeSlide_slides)
qed

lemma writeSlide_read:
  assumes "ownsAbove h a n0"
  shows "readSlide (writeSlide a s h) a = s"
proof -
  let ?old = "obj_elements (slideObjects h ! a)"
  let ?cells = "elementObjects h"
  let ?els = "elements s"
  define kept where "kept = take (length ?els) ?old"
  define written where
    "written = foldl (\<lambda>cells (e, v). cells[e := v]) ?cells (zip kept ?els)"
  define added where "added = drop (length ?old) ?els"
  have a: "a < length (slideObjects h)" and d: "distinct ?old"
    and b: "\<forall>e \<in> set ?old. e < length ?cells"
    using assms by (simp_all add: ownsAbove_def)
  have lw: "length written = length ?cells" by (simp add: written_def)
  have lk: "length kept = min (length ?els) (length ?old)" by (simp add: kept_def)
  have dk: "distinct (map fst (zip kept ?els))"
    using d by (simp add: map_fst_zip_take kept_def)
  have p1: "map (\<lambda>e. (written @ added) ! e) kept = take (length kept) ?els"
  proof (rule nth_equalityI)
    show "length (map (\<lambda>e. (written @ added) ! e) kept) = length (take (length kept) ?els)"
      by (simp add: lk)
  next
    fix i assume "i < length (map (\<lambda>e. (written @ added) ! e) kept)"
    then have i: "i < length kept" "i < length ?els" by (simp_all add: lk)
    have mem: "(kept ! i, ?els ! i) \<in> set (zip kept ?els)"
      using i by (auto simp: set_zip)
    have "kept ! i \<in> set ?old"
      using i by (metis in_set_takeD kept_def nth_mem)
    then have bound: "kept ! i < length ?cells" using b by simp
    have "written ! (kept ! i) = ?els ! i"
      unfolding written_def using dk mem bound by (rule foldl_update_hit)
    then show "map (\<lambda>e. (written @ added) ! e) kept ! i = take (length kept) ?els ! i"
      using i bound by (simp add: nth_append lw)
  qed
  have p2: "map (\<lambda>e. (written @ added) ! e) [length ?cells ..< length ?cells + length added] = added"
    by (rule nth_equalityI) (simp_all add: nth_append lw)
  have els: "take (length kept) ?els @ added = ?els"
  proof (cases "length ?els \<le> length ?old")
    case True
    then show ?thesis by (simp add: lk added_def)
  next
    case False
    then show ?thesis by (simp add: lk added_def min_def)
  qed
  have obj: "slideObjects (writeSlide a s h) ! a =
      \<lparr>obj_id = slide_id s,
       obj_elements = kept @ [length ?cells ..< length ?cells + length added],
       obj_background = background s, obj_remark = remark s, obj_type = slide_type s\<rparr>"
    using a by (simp add: writeSlide_def Let_def kept_def added_def)
  have cells: "elementObjects (writeSlide a s h) = written @ added"
    by (simp add: writeSlide_def Let_def kept_def added_def written_def)
  show ?thesis
    by (simp add: readSlide_def obj cells p1 p2 els)
qed

lemma cloneSlideIn_facts:
  assumes "cloneSlideIn source h = (s, h1)"
  shows "s = length (slideObjects h)"
    and "take (length (slideObjects h)) (slideObjects h1) = slideObjects h"
    and "take (length (elementObjects h)) (elementObjects h1) = elementObjects h"
    and "ownsAbove h1 s (length (elementObjects h))"
    and "readSlide h1 s = readSlide h source"
proof -
  let ?obj = "slideObjects h ! source"
  let ?n = "length (elementObjects h)"
  let ?copies = "map (\<lambda>e. elementObjects h ! e) (obj_elements ?obj)"
  have s: "s = length (slideObjects h)"
    and h1: "h1 = \<lparr>slideObjects = slideObjects h @ [?obj\<lparr>obj_elements := [?n ..< ?n + length ?copies]\<rparr>],
                  elementObjects = elementObjects h @ ?copies\<rparr>"
    using assms by (simp_all add: cloneSlideIn_def Let_def)
  show "s = length (slideObjects h)" by (rule s)
  show "take (length (slideObjects h)) (slideObjects h1) = slideObjects h" by (simp add: h1)
  show "take (length (elementObjects h)) (elementObjects h1) = elementObjects h" by (simp add: h1)
  show "ownsAbove h1 s (length (elementObjects h))" by (auto simp: ownsAbove_def h1 s)
  have "map (\<lambda>e. (elementObjects h @ ?copies) ! e) [?n ..< ?n + length ?copies] = ?copies"
    by (rule nth_equalityI) (simp_all add: nth_append)
  then show "readSlide h1 s = readSlide h source"
    by (simp add: readSlide_def h1 s Let_def)
qed

text \<open>
  Claim C8, as amended. Tagging and placeholder synthesis write to a deep copy:
  \<^verbatim>\<open>toTemplateSlide\<close> returns a slide object that was not there before, every slide
  object and every element object that was there is as it was, and the slide returned
  is the one that tagging and placeholder synthesis make of the source. The translation
  of the elements does write to the parsed elements: the array given to \<^verbatim>\<open>parseElements\<close>
  holds, after the call, its elements in the order of \<^verbatim>\<open>order\<close>, each with width, height,
  left and top multiplied by the ratio; what a group or a diagram holds is left as it
  was.
\<close>

theorem objects_written:
  "(case toTemplateSlideIn cfg source slideType h n of
      (s, h', n') \<Rightarrow>
        s = length (slideObjects h)
        \<and> take (length (slideObjects h)) (slideObjects h') = slideObjects h
        \<and> take (length (elementObjects h)) (elementObjects h') = elementObjects h
        \<and> (readSlide h' s, n') = toTemplateSlide cfg (readSlide h source) slideType n)
   \<and> (\<forall>arr out' m'. parseElements env ratio els out m = Inr (arr, out', m') \<longrightarrow>
          arr = map (scaleElement (env_arith env) ratio) (sortBy byOrder els))"
proof -
  obtain s h1 where c: "cloneSlideIn source h = (s, h1)" by (cases "cloneSlideIn source h")
  note cf = cloneSlideIn_facts [OF c]
  let ?n0 = "length (elementObjects h)"
  define h2 where "h2 = writeSlide s ((readSlide h1 s)\<lparr>slide_type := Some slideType\<rparr>) h1"
  define h3 where "h3 = writeSlide s (autoTagSlideTextTypes cfg (readSlide h2 s) slideType) h2"
  define h4 where
    "h4 = writeSlide s (fst (ensurePlaceholders cfg (readSlide h3 s) slideType n)) h3"
  have o2: "ownsAbove h2 s ?n0" unfolding h2_def using cf(4) by (rule writeSlide_owns)
  have o3: "ownsAbove h3 s ?n0" unfolding h3_def using o2 by (rule writeSlide_owns)
  have r2: "readSlide h2 s = (readSlide h source)\<lparr>slide_type := Some slideType\<rparr>"
    unfolding h2_def using writeSlide_read [OF cf(4)] cf(5) by simp
  have r3: "readSlide h3 s = autoTagSlideTextTypes cfg (readSlide h2 s) slideType"
    unfolding h3_def using o2 by (rule writeSlide_read)
  have r4: "readSlide h4 s = fst (ensurePlaceholders cfg (readSlide h3 s) slideType n)"
    unfolding h4_def using o3 by (rule writeSlide_read)
  have e4: "take ?n0 (elementObjects h4) = take ?n0 (elementObjects h1)"
    unfolding h4_def h3_def h2_def
    using writeSlide_elements(1) [OF cf(4)] writeSlide_elements(1) [OF o2]
      writeSlide_elements(1) [OF o3]
    by (simp add: h2_def h3_def)
  have s4: "take s (slideObjects h4) = take s (slideObjects h1)"
    unfolding h4_def h3_def h2_def by (simp add: writeSlide_slides)
  have res: "toTemplateSlideIn cfg source slideType h n =
      (s, h4, snd (ensurePlaceholders cfg (readSlide h3 s) slideType n))"
    by (simp add: toTemplateSlideIn_def c Let_def split_beta h4_def h3_def h2_def)
  have tt: "toTemplateSlide cfg (readSlide h source) slideType n =
      ensurePlaceholders cfg (readSlide h3 s) slideType n"
    by (simp add: toTemplateSlide_def cloneSlide_def Let_def r3 r2)
  have "(readSlide h4 s, snd (ensurePlaceholders cfg (readSlide h3 s) slideType n))
      = toTemplateSlide cfg (readSlide h source) slideType n"
    by (simp add: tt r4)
  moreover have "take (length (slideObjects h)) (slideObjects h4) = slideObjects h"
    using s4 cf(1) cf(2) by simp
  moreover have "take ?n0 (elementObjects h4) = elementObjects h"
    using e4 cf(3) by simp
  ultimately show ?thesis
    using cf(1) parseElements_array(1) [of env ratio els out m] by (simp add: res)
qed

lemma sampleElements_translated:
  "\<exists>arr out n. parseElements sampleEnv 2 [SrcShape (sampleLine False False 0) ()] [] 0
      = Inr (arr, out, n)"
  by (simp add: sortBy_def sampleEnv_def sampleLine_def pushed_def split_beta)

text \<open>A heap that holds one slide with one text, of which the slide for the end is made;
  and an array that holds one line, translated at the ratio 2.\<close>

theorem objects_written_witness:
  "(case toTemplateSlideIn sampleConfig 0 SEnd sampleHeap 0 of
      (s, h', n') \<Rightarrow>
        s = 1
        \<and> take 1 (slideObjects h') = slideObjects sampleHeap
        \<and> take 1 (elementObjects h') = elementObjects sampleHeap
        \<and> (readSlide h' s, n') = toTemplateSlide sampleConfig (readSlide sampleHeap 0) SEnd 0)
   \<and> (case parseElements sampleEnv 2 [SrcShape (sampleLine False False 0) ()] [] 0 of
         Inl err \<Rightarrow> False
       | Inr (arr, out, n) \<Rightarrow>
           arr = [SrcShape (scaleBase exactArith 2 (sampleLine False False 0)) ()])"
proof -
  obtain arr out n where
    r: "parseElements sampleEnv 2 [SrcShape (sampleLine False False 0) ()] [] 0 = Inr (arr, out, n)"
    using sampleElements_translated by blast
  have l: "length (slideObjects sampleHeap) = 1" "length (elementObjects sampleHeap) = 1"
    by (simp_all add: sampleHeap_def)
  note th = objects_written [where cfg = sampleConfig and source = 0 and slideType = SEnd
      and h = sampleHeap and n = 0 and env = sampleEnv and ratio = 2
      and els = "[SrcShape (sampleLine False False 0) ()]" and out = "[]" and m = 0]
  have "arr = map (scaleElement (env_arith sampleEnv) 2)
      (sortBy byOrder [SrcShape (sampleLine False False 0) ()])"
    using th r by blast
  then have a: "arr = [SrcShape (scaleBase exactArith 2 (sampleLine False False 0)) ()]"
    by (simp add: sortBy_def sampleEnv_def)
  have "case toTemplateSlideIn sampleConfig 0 SEnd sampleHeap 0 of
      (s, h', n') \<Rightarrow>
        s = 1
        \<and> take 1 (slideObjects h') = slideObjects sampleHeap
        \<and> take 1 (elementObjects h') = elementObjects sampleHeap
        \<and> (readSlide h' s, n') = toTemplateSlide sampleConfig (readSlide sampleHeap 0) SEnd 0"
    using th unfolding l by (rule conjunct1)
  then show ?thesis unfolding r using a by simp
qed

text \<open>Claim C8 as it is stated fails for a parsed line of width 10 and height 6
  translated at the ratio 2: after the call the parsed element has the width 20 and the
  height 12.\<close>

theorem parseElements_writes_counterexample:
  "case parseElements sampleEnv 2 [SrcShape (sampleLine False False 0) ()] [] 0 of
     Inl err \<Rightarrow> False
   | Inr (arr, out, n) \<Rightarrow>
       map (\<lambda>el. (src_width (srcGeometry el), src_height (srcGeometry el))) arr = [(20, 12)]
       \<and> map (\<lambda>el. (src_width (srcGeometry el), src_height (srcGeometry el)))
             [SrcShape (sampleLine False False 0) ()] = [(10, 6)]"
proof -
  obtain arr out n where
    r: "parseElements sampleEnv 2 [SrcShape (sampleLine False False 0) ()] [] 0 = Inr (arr, out, n)"
    using sampleElements_translated by blast
  have "arr = map (scaleElement (env_arith sampleEnv) 2)
      (sortBy byOrder [SrcShape (sampleLine False False 0) ()])"
    using r by (rule parseElements_array(1))
  then have a: "arr = [SrcShape (scaleBase exactArith 2 (sampleLine False False 0)) ()]"
    by (simp add: sortBy_def sampleEnv_def)
  show ?thesis
    unfolding r a by (simp add: scaleBase_def baseOf_def exactArith_def sampleLine_def)
qed

end
